theory Spec2Isabelle
  imports Complex_Main "HOL-Library.Monad_Syntax"
begin

section \<open>Common types\<close>

text \<open>
  A Go \<^verbatim>\<open>string\<close> is an immutable sequence of bytes and a \<^verbatim>\<open>[]byte\<close> is a sequence of
  bytes; an Isabelle \<^typ>\<open>char\<close> is one byte. Both are modelled as \<^typ>\<open>string\<close>, and the
  conversions \<^verbatim>\<open>[]byte(s)\<close> and \<^verbatim>\<open>string(b)\<close>, which copy the bytes unchanged, are the
  identity. Where the source distinguishes a nil slice from a slice, the slice is a
  \<^typ>\<open>string option\<close> with \<open>None\<close> for nil.
\<close>

type_synonym bytes = string

definition len :: "bytes option \<Rightarrow> nat" where
  \<comment> \<open>Go's \<^verbatim>\<open>len\<close> of a slice: a nil slice has length 0.\<close>
  "len b = (case b of None \<Rightarrow> 0 | Some x \<Rightarrow> length x)"

definition data :: "bytes option \<Rightarrow> bytes" where
  \<comment> \<open>the bytes a slice holds; a nil slice holds none\<close>
  "data b = (case b of None \<Rightarrow> [] | Some x \<Rightarrow> x)"

text \<open>
  Every error value the modelled functions return. The comment of each constructor gives
  the Go error it stands for.
\<close>

datatype error =
    NotUnlocked           \<comment> \<open>\<^verbatim>\<open>errors.New("password manager not initialized")\<close>\<close>
  | InvalidCredential     \<comment> \<open>\<^verbatim>\<open>errors.New("invalid master password")\<close>\<close>
  | NoSalt                \<comment> \<open>\<^verbatim>\<open>errors.New("no salt found, please create a master password first")\<close>\<close>
  | CiphertextTooShort    \<comment> \<open>\<^verbatim>\<open>errors.New("ciphertext too short")\<close>\<close>
  | AuthenticationFailure \<comment> \<open>the error of \<^verbatim>\<open>gcm.Open\<close>: message authentication failed\<close>
  | KeySizeError nat      \<comment> \<open>\<^verbatim>\<open>aes.KeySizeError\<close> of \<^verbatim>\<open>aes.NewCipher\<close>\<close>
  | RandError             \<comment> \<open>a failed read of \<^verbatim>\<open>crypto/rand\<close>\<close>
  | LengthNotPositive     \<comment> \<open>\<^verbatim>\<open>errors.New("password length must be positive")\<close>\<close>
  | NoCharacterSet        \<comment> \<open>\<^verbatim>\<open>errors.New("no character set selected")\<close>\<close>
  | MaxNotPositive        \<comment> \<open>\<^verbatim>\<open>errors.New("max must be positive")\<close>\<close>
  | DbError               \<comment> \<open>an error of the database driver (I/O failure)\<close>
  | ErrNoRows             \<comment> \<open>\<^verbatim>\<open>sql.ErrNoRows\<close>\<close>
  | ScanError             \<comment> \<open>a conversion error of \<^verbatim>\<open>Scan\<close>\<close>
  | ConstraintError       \<comment> \<open>SQLite: NOT NULL constraint failed\<close>
  | RowidFull             \<comment> \<open>SQLite: SQLITE_FULL, the AUTOINCREMENT ids are used up\<close>
  | TooBig                \<comment> \<open>SQLite: SQLITE_TOOBIG, string or blob too big\<close>
  | UnsupportedType       \<comment> \<open>\<^verbatim>\<open>database/sql\<close>: unsupported type of a statement argument\<close>
  | FileError             \<comment> \<open>an error of \<^verbatim>\<open>os.ReadFile\<close> or \<^verbatim>\<open>os.WriteFile\<close>\<close>
  | CorruptInputError     \<comment> \<open>\<^verbatim>\<open>base64.CorruptInputError\<close>\<close>
  | JsonError             \<comment> \<open>a syntax or type error of \<^verbatim>\<open>json.Unmarshal\<close>\<close>
  | NilPointerPanic       \<comment> \<open>the panic of a call on the nil \<^verbatim>\<open>*sql.DB\<close>\<close>
  | Wrap string error     \<comment> \<open>\<^verbatim>\<open>fmt.Errorf("<text>: %w", err)\<close>\<close>

text \<open>
  \<^verbatim>\<open>crypto/rand\<close> is an input of the model: the source of randomness is a function from the
  number of the draw to its outcome, \<open>None\<close> for a failed read, and the position of the next
  draw is threaded through the calls. A read of bytes takes each draw modulo 256.
  \<^verbatim>\<open>rand.Int(rand.Reader, max)\<close> returns a value in \<open>[0, max)\<close>; the model reduces one draw
  modulo \<open>max\<close>, so every sequence of values the library can return is the image of some
  source.
\<close>

type_synonym rand_source = "nat \<Rightarrow> nat option"

section \<open>Data model\<close>

text \<open>
  \<^verbatim>\<open>time.Time\<close>: an instant is an integer, and \<open>None\<close> is the zero value \<^verbatim>\<open>time.Time{}\<close>.
\<close>

type_synonym Time = "int option"

text \<open>\<^verbatim>\<open>models.SearchParams\<close> and \<^verbatim>\<open>models.PasswordEntry\<close>.\<close>

record SearchParams =
  Keyword :: string
  Category :: string
  SortBy :: string
  SortDesc :: bool
  Limit :: int
  Offset :: int

record PasswordEntry =
  ID :: int
  Title :: string
  URL :: string
  Username :: string
  Password :: string
  Notes :: string
  Category :: string
  CreatedAt :: Time
  LastUpdated :: Time

text \<open>
  A value stored in a column of the SQLite database, and a row of the table
  \<^verbatim>\<open>passwords\<close> of \<^verbatim>\<open>initializeSchema\<close>: \<^verbatim>\<open>id INTEGER PRIMARY KEY AUTOINCREMENT\<close>,
  \<^verbatim>\<open>title TEXT NOT NULL\<close>, \<^verbatim>\<open>url TEXT\<close>, \<^verbatim>\<open>username TEXT\<close>, \<^verbatim>\<open>password BLOB\<close>,
  \<^verbatim>\<open>notes BLOB\<close>, \<^verbatim>\<open>category TEXT\<close>, \<^verbatim>\<open>created_at TIMESTAMP\<close>, \<^verbatim>\<open>updated_at TIMESTAMP\<close>.
\<close>

datatype sqlval = SNull | SInt int | SReal real | SText string | SBlob bytes

text \<open>
  SQLite refuses a text or a blob of more than \<^verbatim>\<open>SQLITE_MAX_LENGTH\<close> bytes, and a row whose
  record is longer than that. A number takes at most eight bytes of a record and NULL none.
\<close>

definition SQLITE_MAX_LENGTH :: nat where
  "SQLITE_MAX_LENGTH = 1000000000"

fun cell_bytes :: "sqlval \<Rightarrow> nat" where
  "cell_bytes SNull = 0"
| "cell_bytes (SInt i) = 8"
| "cell_bytes (SReal r) = 8"
| "cell_bytes (SText s) = length s"
| "cell_bytes (SBlob b) = length b"

definition value_toobig :: "sqlval list \<Rightarrow> bool" where
  \<comment> \<open>one of the values is a text or a blob above the limit\<close>
  "value_toobig vals \<longleftrightarrow> (\<exists>v\<in>set vals. SQLITE_MAX_LENGTH < cell_bytes v)"

record row =
  col_id :: int
  col_title :: sqlval
  col_url :: sqlval
  col_username :: sqlval
  col_password :: sqlval
  col_notes :: sqlval
  col_category :: sqlval
  col_created_at :: sqlval
  col_updated_at :: sqlval

text \<open>
  A value of Go's \<^verbatim>\<open>interface{}\<close> as the export and the import meet it: \<^verbatim>\<open>ExportData\<close>
  stores \<^verbatim>\<open>int64\<close>, \<^verbatim>\<open>string\<close> and \<^verbatim>\<open>[]byte\<close> values, \<^verbatim>\<open>json.Unmarshal\<close> produces nil,
  \<^verbatim>\<open>bool\<close>, \<^verbatim>\<open>float64\<close>, \<^verbatim>\<open>string\<close>, \<^verbatim>\<open>[]interface{}\<close> and \<^verbatim>\<open>map[string]interface{}\<close>.
  A map is an association list; where a key occurs twice the last binding counts.
\<close>

datatype goval =
    GNil
  | GBool bool
  | GInt64 int
  | GFloat64 real
  | GString string
  | GBytes "bytes option"
  | GSlice "goval list"
  | GMap "(string \<times> goval) list"

type_synonym gomap = "(string \<times> goval) list"

definition index :: "gomap \<Rightarrow> string \<Rightarrow> goval" where
  \<comment> \<open>\<^verbatim>\<open>entry["key"]\<close>: the zero value nil where the key is missing\<close>
  "index m k = (case map_of (rev m) k of None \<Rightarrow> GNil | Some v \<Rightarrow> v)"

text \<open>
  A JSON document. A number is kept as its literal, a string as the bytes between the
  quotes after unescaping.
\<close>

datatype jval =
    JNull
  | JBool bool
  | JNum string
  | JStr string
  | JArr "jval list"
  | JObj "(string \<times> jval) list"

text \<open>
  The world outside the process: the SQLite database (the table \<^verbatim>\<open>config\<close> as a map from
  its primary key to the value column, the table \<^verbatim>\<open>passwords\<close> in rowid order, and the
  AUTOINCREMENT counter of \<^verbatim>\<open>sqlite_sequence\<close>), the files, the clocks and the randomness.
  \<open>faults\<close> is the schedule of I/O failures: each database call and each file operation
  takes the head of the list and fails when it is \<open>True\<close>; an empty list means no more
  failures. \<open>io_trace\<close> records every such operation.
\<close>

datatype io_event =
    ConfigSelect string
  | ConfigReplace string
  | PasswordsInsert
  | PasswordsSelect
  | PasswordsQuery string
  | PasswordsUpdate
  | PasswordsDelete
  | TxBegin
  | TxPrepare
  | TxCommit
  | TxRollback
  | FileRead string
  | FileWrite string

record world =
  config :: "string \<rightharpoonup> bytes option"
  passwords :: "row list"
  sqlite_sequence :: int
  current_timestamp :: string
  files :: "string \<rightharpoonup> string"
  faults :: "bool list"
  io_trace :: "io_event list"
  rand_src :: rand_source
  rand_pos :: nat
  time_Now :: int

definition io :: "io_event \<Rightarrow> world \<Rightarrow> bool \<times> world" where
  "io ev w =
     (case faults w of
        [] \<Rightarrow> (False, w\<lparr>io_trace := io_trace w @ [ev]\<rparr>)
      | f # fs \<Rightarrow> (f, w\<lparr>faults := fs, io_trace := io_trace w @ [ev]\<rparr>))"

text \<open>
  The libraries the program calls and the model does not define are parameters: Argon2id
  and AES-GCM (\<^verbatim>\<open>golang.org/x/crypto/argon2\<close>, \<^verbatim>\<open>crypto/cipher\<close>), the evaluation of a
  \<^verbatim>\<open>SELECT\<close> with \<^verbatim>\<open>ORDER BY\<close>, \<^verbatim>\<open>LIKE\<close> and \<^verbatim>\<open>LIMIT\<close> by SQLite, the conversions of
  numbers and timestamps by SQLite, \<^verbatim>\<open>go-sqlite3\<close> and \<^verbatim>\<open>database/sql\<close>, the text layer of
  \<^verbatim>\<open>encoding/json\<close>, and the decoder of \<^verbatim>\<open>encoding/base64\<close>.
\<close>

record ext =
  argon2_IDKey :: "string \<Rightarrow> bytes \<Rightarrow> nat \<Rightarrow> nat \<Rightarrow> nat \<Rightarrow> nat \<Rightarrow> bytes"
    \<comment> \<open>\<^verbatim>\<open>argon2.IDKey(password, salt, time, memory, threads, keyLen)\<close>\<close>
  gcm_Seal :: "bytes \<Rightarrow> bytes \<Rightarrow> bytes \<Rightarrow> bytes \<Rightarrow> bytes"
    \<comment> \<open>key, nonce, plaintext, additional data: the ciphertext followed by the tag\<close>
  gcm_Open :: "bytes \<Rightarrow> bytes \<Rightarrow> bytes \<Rightarrow> bytes \<Rightarrow> bytes option"
    \<comment> \<open>key, nonce, ciphertext with tag, additional data; \<open>None\<close> when authentication fails\<close>
  sqlite_select :: "string \<Rightarrow> sqlval list \<Rightarrow> row list \<Rightarrow> sqlval list list option"
    \<comment> \<open>the rows a query with its arguments returns on the table; \<open>None\<close> for an error\<close>
  sqlite_num_text :: "sqlval \<Rightarrow> string"
    \<comment> \<open>the text SQLite stores for a number in a column of TEXT affinity\<close>
  sqlite_text_num :: "string \<Rightarrow> (int + real) option"
    \<comment> \<open>the number a text that is a numeric literal stands for, in a column of NUMERIC
        affinity\<close>
  sqlite_row_toobig :: "sqlval list \<Rightarrow> bool"
    \<comment> \<open>the record SQLite encodes for a row of these cells is longer than
        \<^verbatim>\<open>SQLITE_MAX_LENGTH\<close>\<close>
  format_number :: "sqlval \<Rightarrow> string"
    \<comment> \<open>\<^verbatim>\<open>Scan\<close> of a number into a string or a byte slice\<close>
  parse_int64 :: "sqlval \<Rightarrow> int option"
    \<comment> \<open>\<^verbatim>\<open>Scan\<close> of a value that is not an integer into an \<^verbatim>\<open>int64\<close>\<close>
  timestamp_text :: "sqlval \<Rightarrow> string"
    \<comment> \<open>\<^verbatim>\<open>Scan\<close> of a value of a TIMESTAMP column, other than NULL, into a string\<close>
  time_Parse :: "string \<Rightarrow> Time"
    \<comment> \<open>\<^verbatim>\<open>time.Parse(time.RFC3339, s)\<close>; the zero time when the text does not parse\<close>
  utf8_coerce :: "string \<Rightarrow> string"
    \<comment> \<open>\<^verbatim>\<open>json.Marshal\<close> replaces invalid UTF-8 by the replacement rune\<close>
  strconv_ParseFloat :: "string \<Rightarrow> real"
    \<comment> \<open>the \<^verbatim>\<open>float64\<close> of a JSON number literal\<close>
  json_encode :: "jval \<Rightarrow> string"
  json_decode :: "string \<Rightarrow> jval option"
  base64_DecodeString :: "string \<Rightarrow> bytes option"

text \<open>What the theorems below assume of the libraries, each where it is needed.\<close>

definition aead_correct :: "ext \<Rightarrow> bool" where
  \<comment> \<open>\<^verbatim>\<open>Open\<close> inverts \<^verbatim>\<open>Seal\<close> under the same key and nonce\<close>
  "aead_correct X \<longleftrightarrow>
     (\<forall>key nonce plaintext. length key \<in> {16, 24, 32} \<longrightarrow> length nonce = 12 \<longrightarrow>
        gcm_Open X key nonce (gcm_Seal X key nonce plaintext []) [] = Some plaintext)"

definition kdf_length :: "ext \<Rightarrow> bool" where
  \<comment> \<open>\<^verbatim>\<open>argon2.IDKey\<close> returns \<^verbatim>\<open>keyLen\<close> bytes\<close>
  "kdf_length X \<longleftrightarrow>
     (\<forall>password salt t m p n. length (argon2_IDKey X password salt t m p n) = n)"

definition seal_length :: "ext \<Rightarrow> bool" where
  \<comment> \<open>\<^verbatim>\<open>Seal\<close> returns the ciphertext, as long as the plaintext, and the tag of 16 bytes\<close>
  "seal_length X \<longleftrightarrow>
     (\<forall>key nonce plaintext aad.
        length (gcm_Seal X key nonce plaintext aad) = length plaintext + 16)"

definition sqlite_row_limit :: "ext \<Rightarrow> bool" where
  \<comment> \<open>a record is its cells and a header of a few bytes per cell: a row of at most nine
      cells that hold 999999000 bytes or less is within \<^verbatim>\<open>SQLITE_MAX_LENGTH\<close>\<close>
  "sqlite_row_limit X \<longleftrightarrow>
     (\<forall>cells. length cells \<le> 9 \<and> sum_list (map cell_bytes cells) \<le> 999999000 \<longrightarrow>
        \<not> sqlite_row_toobig X cells)"

section \<open>The crypto service (internal/crypto)\<close>

definition argonTime :: nat where "argonTime = 3"
definition argonMemory :: nat where "argonMemory = 64 * 1024"
definition argonThreads :: nat where "argonThreads = 4"
definition argonKeyLen :: nat where "argonKeyLen = 32"

definition DeriveKey :: "ext \<Rightarrow> string \<Rightarrow> bytes option \<Rightarrow> error + bytes option" where
  "DeriveKey X password salt =
     (let key = argon2_IDKey X password (data salt) argonTime argonMemory argonThreads
                  argonKeyLen
      in Inr (Some key))"

fun io_ReadFull :: "nat \<Rightarrow> rand_source \<Rightarrow> nat \<Rightarrow> (error + bytes) \<times> nat" where
  \<comment> \<open>\<^verbatim>\<open>io.ReadFull(rand.Reader, buf)\<close> for a buffer of \<open>n\<close> bytes\<close>
  "io_ReadFull 0 src pos = (Inr [], pos)"
| "io_ReadFull (Suc n) src pos =
     (case src pos of
        None \<Rightarrow> (Inl RandError, Suc pos)
      | Some b \<Rightarrow>
          (case io_ReadFull n src (Suc pos) of
             (Inl e, pos') \<Rightarrow> (Inl e, pos')
           | (Inr bs, pos') \<Rightarrow> (Inr (char_of b # bs), pos')))"

definition rand_read :: "nat \<Rightarrow> world \<Rightarrow> (error + bytes) \<times> world" where
  "rand_read n w =
     (case io_ReadFull n (rand_src w) (rand_pos w) of
        (r, pos') \<Rightarrow> (r, w\<lparr>rand_pos := pos'\<rparr>))"

definition NonceSize :: nat where
  \<comment> \<open>\<^verbatim>\<open>gcm.NonceSize()\<close> of the standard GCM\<close>
  "NonceSize = 12"

definition Encrypt :: "ext \<Rightarrow> string \<Rightarrow> bytes option \<Rightarrow> world \<Rightarrow> (error + bytes option) \<times> world" where
  \<comment> \<open>\<^verbatim>\<open>aes.NewCipher\<close> accepts keys of 16, 24 or 32 bytes; \<^verbatim>\<open>cipher.NewGCM\<close> does not fail on
      an AES block. \<^verbatim>\<open>gcm.Seal(nonce, nonce, plaintext, nil)\<close> appends to the nonce.\<close>
  "Encrypt X plaintext key w =
     (if len key \<notin> {16, 24, 32} then (Inl (KeySizeError (len key)), w)
      else case rand_read NonceSize w of
             (Inl e, w') \<Rightarrow> (Inl e, w')
           | (Inr nonce, w') \<Rightarrow>
               (Inr (Some (nonce @ gcm_Seal X (data key) nonce plaintext [])), w'))"

definition Decrypt :: "ext \<Rightarrow> bytes option \<Rightarrow> bytes option \<Rightarrow> error + string" where
  "Decrypt X ciphertext key =
     (if len key \<notin> {16, 24, 32} then Inl (KeySizeError (len key))
      else if len ciphertext < NonceSize then Inl CiphertextTooShort
      else case gcm_Open X (data key) (take NonceSize (data ciphertext))
                  (drop NonceSize (data ciphertext)) [] of
             None \<Rightarrow> Inl AuthenticationFailure
           | Some plaintext \<Rightarrow> Inr plaintext)"

definition GenerateSalt :: "world \<Rightarrow> (error + bytes option) \<times> world" where
  "GenerateSalt w =
     (case rand_read 16 w of
        (Inl e, w') \<Rightarrow> (Inl e, w')
      | (Inr salt, w') \<Rightarrow> (Inr (Some salt), w'))"

definition VerifyKey :: "ext \<Rightarrow> bytes option \<Rightarrow> bytes option \<Rightarrow> error + bool" where
  \<comment> \<open>\<^verbatim>\<open>return err == nil, nil\<close>\<close>
  "VerifyKey X key testVector =
     (case Decrypt X testVector key of
        Inl err \<Rightarrow> Inr False
      | Inr plaintext \<Rightarrow> Inr True)"

section \<open>The storage service (internal/storage)\<close>

record SQLiteStorage =
  db :: bool        \<comment> \<open>\<^verbatim>\<open>s.db != nil\<close>: \<^verbatim>\<open>Initialize\<close> has opened the handle\<close>
  dbPath :: string

subsection \<open>What SQLite and \<^verbatim>\<open>database/sql\<close> do with a value\<close>

text \<open>
  A statement argument: \<^verbatim>\<open>database/sql\<close> passes nil, \<^verbatim>\<open>bool\<close>, \<^verbatim>\<open>int64\<close>, \<^verbatim>\<open>float64\<close>,
  \<^verbatim>\<open>string\<close> and \<^verbatim>\<open>[]byte\<close> to the driver and rejects slices and maps of
  \<^verbatim>\<open>interface{}\<close>; \<^verbatim>\<open>go-sqlite3\<close> binds a nil \<^verbatim>\<open>[]byte\<close> as NULL and a \<^verbatim>\<open>bool\<close> as 0 or 1.
\<close>

fun bind :: "goval \<Rightarrow> sqlval option" where
  "bind GNil = Some SNull"
| "bind (GBool b) = Some (SInt (if b then 1 else 0))"
| "bind (GInt64 i) = Some (SInt i)"
| "bind (GFloat64 r) = Some (SReal r)"
| "bind (GString s) = Some (SText s)"
| "bind (GBytes None) = Some SNull"
| "bind (GBytes (Some b)) = Some (SBlob b)"
| "bind (GSlice xs) = None"
| "bind (GMap kvs) = None"

text \<open>
  The column affinities of SQLite: a column of TEXT affinity stores a number as text, a
  column of NUMERIC affinity (the TIMESTAMP columns) stores a text that is a numeric
  literal as the number, a BLOB column stores every value as it is. In a column of NUMERIC
  affinity a floating point number that is an integer strictly between the least and the
  greatest \<^verbatim>\<open>int64\<close> is stored as that integer.
\<close>

definition numeric_real :: "real \<Rightarrow> sqlval" where
  "numeric_real r =
     (if r = of_int \<lfloor>r\<rfloor> \<and> - (2 ^ 63) < \<lfloor>r\<rfloor> \<and> \<lfloor>r\<rfloor> < 2 ^ 63 - 1
      then SInt \<lfloor>r\<rfloor> else SReal r)"

fun store_text :: "ext \<Rightarrow> sqlval \<Rightarrow> sqlval" where
  "store_text X (SInt i) = SText (sqlite_num_text X (SInt i))"
| "store_text X (SReal r) = SText (sqlite_num_text X (SReal r))"
| "store_text X v = v"

fun store_numeric :: "ext \<Rightarrow> sqlval \<Rightarrow> sqlval" where
  "store_numeric X (SText s) =
     (case sqlite_text_num X s of
        None \<Rightarrow> SText s
      | Some (Inl i) \<Rightarrow> SInt i
      | Some (Inr r) \<Rightarrow> numeric_real r)"
| "store_numeric X (SReal r) = numeric_real r"
| "store_numeric X v = v"

text \<open>
  \<^verbatim>\<open>Scan\<close> into a \<^verbatim>\<open>*string\<close>, a \<^verbatim>\<open>*[]byte\<close> and an \<^verbatim>\<open>*int64\<close>; \<open>None\<close> is the conversion
  error. NULL converts to a nil slice and to no string and no integer.
\<close>

fun scan_string :: "ext \<Rightarrow> sqlval \<Rightarrow> string option" where
  "scan_string X SNull = None"
| "scan_string X (SText s) = Some s"
| "scan_string X (SBlob b) = Some b"
| "scan_string X v = Some (format_number X v)"

fun scan_bytes :: "ext \<Rightarrow> sqlval \<Rightarrow> bytes option option" where
  "scan_bytes X SNull = Some None"
| "scan_bytes X (SText s) = Some (Some s)"
| "scan_bytes X (SBlob b) = Some (Some b)"
| "scan_bytes X v = Some (Some (format_number X v))"

fun scan_int64 :: "ext \<Rightarrow> sqlval \<Rightarrow> int option" where
  "scan_int64 X SNull = None"
| "scan_int64 X (SInt i) = Some i"
| "scan_int64 X v = parse_int64 X v"

fun scan_timestamp :: "ext \<Rightarrow> sqlval \<Rightarrow> string option" where
  \<comment> \<open>\<^verbatim>\<open>go-sqlite3\<close> turns the value of a TIMESTAMP column into a \<^verbatim>\<open>time.Time\<close>, which
      \<^verbatim>\<open>Scan\<close> formats into the string\<close>
  "scan_timestamp X SNull = None"
| "scan_timestamp X v = Some (timestamp_text X v)"

subsection \<open>The table \<^verbatim>\<open>config\<close>\<close>

definition SQLiteStorage_GetSalt :: "SQLiteStorage \<Rightarrow> world \<Rightarrow> (error + bytes option) \<times> world" where
  "SQLiteStorage_GetSalt s w =
     (if \<not> db s then (Inl NilPointerPanic, w)
      else case io (ConfigSelect ''salt'') w of
             (True, w') \<Rightarrow> (Inl DbError, w')
           | (False, w') \<Rightarrow>
               (case config w' ''salt'' of
                  None \<Rightarrow> (Inl NoSalt, w')
                | Some salt \<Rightarrow> (Inr salt, w')))"

definition SQLiteStorage_SaveSalt :: "SQLiteStorage \<Rightarrow> bytes option \<Rightarrow> world \<Rightarrow> (error + unit) \<times> world" where
  \<comment> \<open>\<^verbatim>\<open>INSERT OR REPLACE INTO config (key, value) VALUES (?, ?)\<close>\<close>
  "SQLiteStorage_SaveSalt s salt w =
     (if \<not> db s then (Inl NilPointerPanic, w)
      else case io (ConfigReplace ''salt'') w of
             (True, w') \<Rightarrow> (Inl DbError, w')
           | (False, w') \<Rightarrow> (Inr (), w'\<lparr>config := (config w')(''salt'' \<mapsto> salt)\<rparr>))"

definition SQLiteStorage_GetTestVector :: "SQLiteStorage \<Rightarrow> world \<Rightarrow> (error + bytes option) \<times> world" where
  "SQLiteStorage_GetTestVector s w =
     (if \<not> db s then (Inl NilPointerPanic, w)
      else case io (ConfigSelect ''test_vector'') w of
             (True, w') \<Rightarrow> (Inl DbError, w')
           | (False, w') \<Rightarrow>
               (case config w' ''test_vector'' of
                  None \<Rightarrow> (Inr None, w')  \<comment> \<open>No test vector yet, not an error\<close>
                | Some testVector \<Rightarrow> (Inr testVector, w')))"

definition SQLiteStorage_SaveTestVector :: "SQLiteStorage \<Rightarrow> bytes option \<Rightarrow> world \<Rightarrow> (error + unit) \<times> world" where
  "SQLiteStorage_SaveTestVector s vector w =
     (if \<not> db s then (Inl NilPointerPanic, w)
      else case io (ConfigReplace ''test_vector'') w of
             (True, w') \<Rightarrow> (Inl DbError, w')
           | (False, w') \<Rightarrow> (Inr (), w'\<lparr>config := (config w')(''test_vector'' \<mapsto> vector)\<rparr>))"

subsection \<open>The table \<^verbatim>\<open>passwords\<close>\<close>

definition max_rowid :: int where
  "max_rowid = 9223372036854775807"

definition next_rowid :: "world \<Rightarrow> int" where
  \<comment> \<open>AUTOINCREMENT: one more than the largest id the table holds or has ever held\<close>
  "next_rowid w = fold max (map col_id (passwords w)) (sqlite_sequence w) + 1"

text \<open>
  \<^verbatim>\<open>INSERT INTO passwords (title, url, username, password, notes, category, created_at,
  updated_at) VALUES (...)\<close> with the eight values already bound: a value above the length
  limit is refused, the id is assigned by AUTOINCREMENT, the affinities apply, \<^verbatim>\<open>title\<close> is
  NOT NULL, and the record of the row is within the length limit.
\<close>

definition insert_password ::
  "ext \<Rightarrow> sqlval \<Rightarrow> sqlval \<Rightarrow> sqlval \<Rightarrow> sqlval \<Rightarrow> sqlval \<Rightarrow> sqlval \<Rightarrow> sqlval \<Rightarrow> sqlval \<Rightarrow> world
     \<Rightarrow> (error + int) \<times> world" where
  "insert_password X title url username password notes category created_at updated_at w =
     (let r = \<lparr>col_id = next_rowid w,
                col_title = store_text X title,
                col_url = store_text X url,
                col_username = store_text X username,
                col_password = password,
                col_notes = notes,
                col_category = store_text X category,
                col_created_at = store_numeric X created_at,
                col_updated_at = store_numeric X updated_at\<rparr>
      in if value_toobig [title, url, username, password, notes, category, created_at,
                          updated_at]
         then (Inl TooBig, w)
         else if max_rowid < col_id r then (Inl RowidFull, w)
         else if col_title r = SNull then (Inl ConstraintError, w)
         else if sqlite_row_toobig X
                   [SNull, col_title r, col_url r, col_username r, col_password r, col_notes r,
                    col_category r, col_created_at r, col_updated_at r]
         then (Inl TooBig, w)
         else (Inr (col_id r),
               w\<lparr>passwords := passwords w @ [r], sqlite_sequence := col_id r\<rparr>))"

definition bind_bytes :: "bytes option \<Rightarrow> sqlval" where
  \<comment> \<open>a \<^verbatim>\<open>[]byte\<close> argument: NULL for the nil slice\<close>
  "bind_bytes b = (case b of None \<Rightarrow> SNull | Some x \<Rightarrow> SBlob x)"

definition SQLiteStorage_AddPassword ::
  "ext \<Rightarrow> SQLiteStorage \<Rightarrow> PasswordEntry \<Rightarrow> bytes option \<Rightarrow> bytes option \<Rightarrow> world
     \<Rightarrow> (error + int) \<times> world" where
  "SQLiteStorage_AddPassword X s entry encPassword encNotes w =
     (if \<not> db s then (Inl NilPointerPanic, w)
      else case io PasswordsInsert w of
             (True, w') \<Rightarrow> (Inl DbError, w')
           | (False, w') \<Rightarrow>
               insert_password X (SText (Title entry)) (SText (URL entry))
                 (SText (Username entry)) (bind_bytes encPassword) (bind_bytes encNotes)
                 (SText (Category entry)) (SText (current_timestamp w'))
                 (SText (current_timestamp w')) w')"

definition scan_row :: "ext \<Rightarrow> row \<Rightarrow> (PasswordEntry \<times> bytes option \<times> bytes option) option" where
  \<comment> \<open>\<^verbatim>\<open>Scan(&entry.ID, &entry.Title, &entry.URL, &entry.Username, &encPassword, &encNotes,
      &entry.Category, &createdAt, &updatedAt)\<close> and the two calls of \<^verbatim>\<open>time.Parse\<close>, whose
      errors are dropped\<close>
  "scan_row X r =
     do {
       title \<leftarrow> scan_string X (col_title r);
       url \<leftarrow> scan_string X (col_url r);
       username \<leftarrow> scan_string X (col_username r);
       encPassword \<leftarrow> scan_bytes X (col_password r);
       encNotes \<leftarrow> scan_bytes X (col_notes r);
       category \<leftarrow> scan_string X (col_category r);
       createdAt \<leftarrow> scan_timestamp X (col_created_at r);
       updatedAt \<leftarrow> scan_timestamp X (col_updated_at r);
       Some (\<lparr>ID = col_id r, Title = title, URL = url, Username = username, Password = [],
               Notes = [], Category = category, CreatedAt = time_Parse X createdAt,
               LastUpdated = time_Parse X updatedAt\<rparr>,
             encPassword, encNotes)
     }"

definition SQLiteStorage_GetPassword ::
  "ext \<Rightarrow> SQLiteStorage \<Rightarrow> int \<Rightarrow> world
     \<Rightarrow> (error + PasswordEntry \<times> bytes option \<times> bytes option) \<times> world" where
  "SQLiteStorage_GetPassword X s id' w =
     (if \<not> db s then (Inl NilPointerPanic, w)
      else case io PasswordsSelect w of
             (True, w') \<Rightarrow> (Inl DbError, w')
           | (False, w') \<Rightarrow>
               (case find (\<lambda>r. col_id r = id') (passwords w') of
                  None \<Rightarrow> (Inl ErrNoRows, w')
                | Some r \<Rightarrow>
                    (case scan_row X r of
                       None \<Rightarrow> (Inl ScanError, w')
                     | Some res \<Rightarrow> (Inr res, w'))))"

definition scan_meta :: "ext \<Rightarrow> sqlval list \<Rightarrow> PasswordEntry option" where
  \<comment> \<open>\<^verbatim>\<open>var entry models.PasswordEntry\<close> and \<^verbatim>\<open>rows.Scan(&entry.ID, &entry.Title, &entry.URL,
      &entry.Username, &entry.Category, &createdAt, &updatedAt)\<close>: seven destinations, so a
      row of another width is an error; \<^verbatim>\<open>Password\<close> and \<^verbatim>\<open>Notes\<close> keep the zero value\<close>
  "scan_meta X cols =
     (case cols of
        [c_id, c_title, c_url, c_username, c_category, c_created_at, c_updated_at] \<Rightarrow>
          do {
            id' \<leftarrow> scan_int64 X c_id;
            title \<leftarrow> scan_string X c_title;
            url \<leftarrow> scan_string X c_url;
            username \<leftarrow> scan_string X c_username;
            category \<leftarrow> scan_string X c_category;
            createdAt \<leftarrow> scan_timestamp X c_created_at;
            updatedAt \<leftarrow> scan_timestamp X c_updated_at;
            Some \<lparr>ID = id', Title = title, URL = url, Username = username, Password = [],
                   Notes = [], Category = category, CreatedAt = time_Parse X createdAt,
                   LastUpdated = time_Parse X updatedAt\<rparr>
          }
      | _ \<Rightarrow> None)"

fun scan_entries :: "ext \<Rightarrow> sqlval list list \<Rightarrow> error + PasswordEntry list" where
  \<comment> \<open>the loop \<^verbatim>\<open>for rows.Next()\<close> of \<^verbatim>\<open>GetAllPasswords\<close> and \<^verbatim>\<open>SearchPasswords\<close>\<close>
  "scan_entries X [] = Inr []"
| "scan_entries X (cols # rest) =
     (case scan_meta X cols of
        None \<Rightarrow> Inl ScanError
      | Some entry \<Rightarrow>
          (case scan_entries X rest of
             Inl err \<Rightarrow> Inl err
           | Inr entries \<Rightarrow> Inr (entry # entries)))"

definition run_query :: "ext \<Rightarrow> string \<Rightarrow> sqlval list \<Rightarrow> world \<Rightarrow> (error + PasswordEntry list) \<times> world" where
  \<comment> \<open>\<^verbatim>\<open>s.db.Query(query, args...)\<close> and the scan of its rows\<close>
  "run_query X query args w =
     (case io (PasswordsQuery query) w of
        (True, w') \<Rightarrow> (Inl DbError, w')
      | (False, w') \<Rightarrow>
          (case sqlite_select X query args (passwords w') of
             None \<Rightarrow> (Inl DbError, w')
           | Some rows \<Rightarrow> (scan_entries X rows, w')))"

definition SQLiteStorage_GetAllPasswords ::
  "ext \<Rightarrow> SQLiteStorage \<Rightarrow> world \<Rightarrow> (error + PasswordEntry list) \<times> world" where
  "SQLiteStorage_GetAllPasswords X s w =
     (if \<not> db s then (Inl NilPointerPanic, w)
      else run_query X
             (''SELECT id, title, url, username, category, created_at, updated_at ''
              @ ''FROM passwords ORDER BY title'') [] w)"

definition SQLiteStorage_UpdatePassword ::
  "ext \<Rightarrow> SQLiteStorage \<Rightarrow> PasswordEntry \<Rightarrow> bytes option \<Rightarrow> bytes option \<Rightarrow> world
     \<Rightarrow> (error + unit) \<times> world" where
  \<comment> \<open>\<^verbatim>\<open>UPDATE passwords SET title = ?, url = ?, username = ?, password = ?, notes = ?,
      category = ?, updated_at = CURRENT_TIMESTAMP WHERE id = ?\<close>\<close>
  "SQLiteStorage_UpdatePassword X s entry encPassword encNotes w =
     (if \<not> db s then (Inl NilPointerPanic, w)
      else case io PasswordsUpdate w of
             (True, w') \<Rightarrow> (Inl DbError, w')
           | (False, w') \<Rightarrow>
               (let updated =
                      (\<lambda>r. r\<lparr>col_title := store_text X (SText (Title entry)),
                                col_url := store_text X (SText (URL entry)),
                                col_username := store_text X (SText (Username entry)),
                                col_password := bind_bytes encPassword,
                                col_notes := bind_bytes encNotes,
                                col_category := store_text X (SText (Category entry)),
                                col_updated_at :=
                                  store_numeric X (SText (current_timestamp w'))\<rparr>)
                in if value_toobig [SText (Title entry), SText (URL entry),
                                    SText (Username entry), bind_bytes encPassword,
                                    bind_bytes encNotes, SText (Category entry)]
                      \<or> (\<exists>r\<in>set (passwords w').
                            col_id r = ID entry \<and>
                            sqlite_row_toobig X
                              [SNull, col_title (updated r), col_url (updated r),
                               col_username (updated r), col_password (updated r),
                               col_notes (updated r), col_category (updated r),
                               col_created_at (updated r), col_updated_at (updated r)])
                   then (Inl TooBig, w')
                   else (Inr (),
                         w'\<lparr>passwords :=
                              map (\<lambda>r. if col_id r = ID entry then updated r else r)
                                (passwords w')\<rparr>)))"

definition SQLiteStorage_DeletePassword :: "SQLiteStorage \<Rightarrow> int \<Rightarrow> world \<Rightarrow> (error + unit) \<times> world" where
  \<comment> \<open>\<^verbatim>\<open>DELETE FROM passwords WHERE id = ?\<close>\<close>
  "SQLiteStorage_DeletePassword s id' w =
     (if \<not> db s then (Inl NilPointerPanic, w)
      else case io PasswordsDelete w of
             (True, w') \<Rightarrow> (Inl DbError, w')
           | (False, w') \<Rightarrow>
               (Inr (), w'\<lparr>passwords := filter (\<lambda>r. col_id r \<noteq> id') (passwords w')\<rparr>))"

definition search_query :: "SearchParams \<Rightarrow> string \<times> sqlval list" where
  \<comment> \<open>the query text and the arguments that \<^verbatim>\<open>SearchPasswords\<close> builds; the white space of
      the Go literals is reduced to single blanks\<close>
  "search_query params =
     (let query = ''SELECT id, title, url, username, category, created_at, updated_at ''
                  @ ''FROM passwords WHERE 1=1'';
          args = [];
          (query, args) =
            (if Keyword params \<noteq> []
             then (let searchTerm = ''%'' @ Keyword params @ ''%''
                   in (query @ '' AND (title LIKE ? OR url LIKE ? OR username LIKE ?)'',
                       args @ [SText searchTerm, SText searchTerm, SText searchTerm]))
             else (query, args));
          (query, args) =
            (if SearchParams.Category params \<noteq> []
             then (query @ '' AND category = ?'', args @ [SText (SearchParams.Category params)])
             else (query, args));
          query =
            (if SortBy params \<noteq> []
             then query @ '' ORDER BY '' @ SortBy params
                  @ (if SortDesc params then '' DESC'' else '' ASC'')
             else query @ '' ORDER BY title ASC'');
          (query, args) =
            (if 0 < Limit params
             then (let query = query @ '' LIMIT ?''; args = args @ [SInt (Limit params)]
                   in if 0 < Offset params
                      then (query @ '' OFFSET ?'', args @ [SInt (Offset params)])
                      else (query, args))
             else (query, args))
      in (query, args))"

definition SQLiteStorage_SearchPasswords ::
  "ext \<Rightarrow> SQLiteStorage \<Rightarrow> SearchParams \<Rightarrow> world \<Rightarrow> (error + PasswordEntry list) \<times> world" where
  "SQLiteStorage_SearchPasswords X s params w =
     (if \<not> db s then (Inl NilPointerPanic, w)
      else case search_query params of (query, args) \<Rightarrow> run_query X query args w)"

subsection \<open>Export and import of the rows\<close>

definition export_row :: "ext \<Rightarrow> row \<Rightarrow> gomap option" where
  \<comment> \<open>the \<^verbatim>\<open>Scan\<close> of \<^verbatim>\<open>ExportData\<close> and the map it builds. A Go map has no order and
      \<^verbatim>\<open>json.Marshal\<close> writes the keys sorted: the association list is in that order.\<close>
  "export_row X r =
     do {
       title \<leftarrow> scan_string X (col_title r);
       url \<leftarrow> scan_string X (col_url r);
       username \<leftarrow> scan_string X (col_username r);
       password \<leftarrow> scan_bytes X (col_password r);
       notes \<leftarrow> scan_bytes X (col_notes r);
       category \<leftarrow> scan_string X (col_category r);
       createdAt \<leftarrow> scan_timestamp X (col_created_at r);
       updatedAt \<leftarrow> scan_timestamp X (col_updated_at r);
       Some [(''category'', GString category),
             (''created_at'', GString createdAt),
             (''id'', GInt64 (col_id r)),
             (''notes'', GBytes notes),
             (''password'', GBytes password),
             (''title'', GString title),
             (''updated_at'', GString updatedAt),
             (''url'', GString url),
             (''username'', GString username)]
     }"

fun export_rows :: "ext \<Rightarrow> row list \<Rightarrow> error + gomap list" where
  "export_rows X [] = Inr []"
| "export_rows X (r # rs) =
     (case export_row X r of
        None \<Rightarrow> Inl ScanError
      | Some entry \<Rightarrow>
          (case export_rows X rs of
             Inl err \<Rightarrow> Inl err
           | Inr result \<Rightarrow> Inr (entry # result)))"

definition SQLiteStorage_ExportData :: "ext \<Rightarrow> SQLiteStorage \<Rightarrow> world \<Rightarrow> (error + gomap list) \<times> world" where
  \<comment> \<open>\<^verbatim>\<open>SELECT id, title, url, username, password, notes, category, created_at, updated_at
      FROM passwords\<close>: every row, in rowid order\<close>
  "SQLiteStorage_ExportData X s w =
     (if \<not> db s then (Inl NilPointerPanic, w)
      else case io PasswordsSelect w of
             (True, w') \<Rightarrow> (Inl DbError, w')
           | (False, w') \<Rightarrow> (export_rows X (passwords w'), w'))"

definition bind_entry :: "gomap \<Rightarrow> (sqlval list) option" where
  \<comment> \<open>the eight arguments of \<^verbatim>\<open>stmt.Exec\<close>\<close>
  "bind_entry entry =
     those (map (\<lambda>k. bind (index entry k))
       [''title'', ''url'', ''username'', ''password'', ''notes'', ''category'',
        ''created_at'', ''updated_at''])"

fun import_entries :: "ext \<Rightarrow> gomap list \<Rightarrow> world \<Rightarrow> (error + unit) \<times> world" where
  \<comment> \<open>the loop \<^verbatim>\<open>for _, entry := range entries\<close> of \<^verbatim>\<open>ImportData\<close>\<close>
  "import_entries X [] w = (Inr (), w)"
| "import_entries X (entry # entries) w =
     (case bind_entry entry of
        Some [title, url, username, password, notes, category, created_at, updated_at] \<Rightarrow>
          (case io PasswordsInsert w of
             (True, w') \<Rightarrow> (Inl DbError, w')
           | (False, w') \<Rightarrow>
               (case insert_password X title url username password notes category
                       created_at updated_at w' of
                  (Inl err, w'') \<Rightarrow> (Inl err, w'')
                | (Inr id', w'') \<Rightarrow> import_entries X entries w''))
      | _ \<Rightarrow> (Inl UnsupportedType, w))"

definition rollback :: "world \<Rightarrow> world \<Rightarrow> world" where
  \<comment> \<open>\<^verbatim>\<open>tx.Rollback()\<close>, its error dropped: the tables are again what they were at
      \<^verbatim>\<open>Begin\<close>, in the world \<open>w0\<close>\<close>
  "rollback w0 w =
     (case io TxRollback w of
        (failed, w') \<Rightarrow>
          w'\<lparr>config := config w0, passwords := passwords w0,
             sqlite_sequence := sqlite_sequence w0\<rparr>)"

definition SQLiteStorage_ImportData :: "ext \<Rightarrow> SQLiteStorage \<Rightarrow> gomap list \<Rightarrow> world \<Rightarrow> (error + unit) \<times> world" where
  \<comment> \<open>The deferred function rolls back when \<^verbatim>\<open>err\<close> is set, which the failed \<^verbatim>\<open>Prepare\<close>
      and the failed \<^verbatim>\<open>Exec\<close> do. A failed \<^verbatim>\<open>Commit\<close> leaves \<^verbatim>\<open>err\<close> nil; the \<^verbatim>\<open>Commit\<close> of
      \<^verbatim>\<open>go-sqlite3\<close> itself rolls back when the COMMIT fails.\<close>
  "SQLiteStorage_ImportData X s entries w =
     (if \<not> db s then (Inl NilPointerPanic, w)
      else case io TxBegin w of
             (True, w0) \<Rightarrow> (Inl DbError, w0)
           | (False, w0) \<Rightarrow>
               (case io TxPrepare w0 of
                  (True, w1) \<Rightarrow> (Inl DbError, rollback w0 w1)
                | (False, w1) \<Rightarrow>
                    (case import_entries X entries w1 of
                       (Inl err, w2) \<Rightarrow> (Inl err, rollback w0 w2)
                     | (Inr u, w2) \<Rightarrow>
                         (case io TxCommit w2 of
                            (True, w3) \<Rightarrow> (Inl DbError, rollback w0 w3)
                          | (False, w3) \<Rightarrow> (Inr (), w3)))))"

section \<open>Encodings used by the export\<close>

subsection \<open>\<^verbatim>\<open>base64.StdEncoding.EncodeToString\<close>\<close>

definition encodeStd :: string where
  "encodeStd = ''ABCDEFGHIJKLMNOPQRSTUVWXYZabcdefghijklmnopqrstuvwxyz0123456789+/''"

definition sextet :: "nat \<Rightarrow> char" where
  "sextet n = encodeStd ! (n mod 64)"

fun base64_EncodeToString :: "bytes \<Rightarrow> string" where
  "base64_EncodeToString (a # b # c # rest) =
     (let x = of_char a :: nat; y = of_char b :: nat; z = of_char c :: nat
      in [sextet (x div 4), sextet ((x mod 4) * 16 + y div 16),
          sextet ((y mod 16) * 4 + z div 64), sextet (z mod 64)]
         @ base64_EncodeToString rest)"
| "base64_EncodeToString [a, b] =
     (let x = of_char a :: nat; y = of_char b :: nat
      in [sextet (x div 4), sextet ((x mod 4) * 16 + y div 16), sextet ((y mod 16) * 4),
          CHR ''=''])"
| "base64_EncodeToString [a] =
     (let x = of_char a :: nat
      in [sextet (x div 4), sextet ((x mod 4) * 16), CHR ''='', CHR ''=''])"
| "base64_EncodeToString [] = []"

subsection \<open>\<^verbatim>\<open>strconv.FormatInt(i, 10)\<close>\<close>

function digits :: "nat \<Rightarrow> string" where
  "digits n =
     (if n < 10 then [''0123456789'' ! n]
      else digits (n div 10) @ [''0123456789'' ! (n mod 10)])"
  by pat_completeness auto
termination
  by (relation "measure (\<lambda>n. n)") auto

declare digits.simps [simp del]

definition FormatInt :: "int \<Rightarrow> string" where
  "FormatInt i = (if i < 0 then CHR ''-'' # digits (nat (- i)) else digits (nat i))"

subsection \<open>\<^verbatim>\<open>json.Marshal\<close> and \<^verbatim>\<open>json.Unmarshal\<close>\<close>

text \<open>
  \<^verbatim>\<open>json.Marshal\<close>: a \<^verbatim>\<open>[]byte\<close> encodes as a base64-encoded string and a nil slice as
  null; a string is coerced to valid UTF-8; an \<^verbatim>\<open>int64\<close> encodes as its decimal literal.
  The value is first turned into a document; the library writes the document as text.
  (No \<^verbatim>\<open>float64\<close> reaches \<^verbatim>\<open>json.Marshal\<close> in this program; its literal is taken from the
  number formatter.)
\<close>

fun marshal_value :: "ext \<Rightarrow> goval \<Rightarrow> jval" where
  "marshal_value X GNil = JNull"
| "marshal_value X (GBool b) = JBool b"
| "marshal_value X (GInt64 i) = JNum (FormatInt i)"
| "marshal_value X (GFloat64 r) = JNum (format_number X (SReal r))"
| "marshal_value X (GString s) = JStr (utf8_coerce X s)"
| "marshal_value X (GBytes None) = JNull"
| "marshal_value X (GBytes (Some b)) = JStr (base64_EncodeToString b)"
| "marshal_value X (GSlice xs) = JArr (map (marshal_value X) xs)"
| "marshal_value X (GMap kvs) = JObj (map (\<lambda>(k, v). (utf8_coerce X k, marshal_value X v)) kvs)"

definition marshal_entries :: "ext \<Rightarrow> gomap list \<Rightarrow> jval" where
  \<comment> \<open>\<^verbatim>\<open>ExportData\<close> returns the nil slice when there is no row, which encodes as null\<close>
  "marshal_entries X entries =
     (if entries = [] then JNull else JArr (map (\<lambda>m. marshal_value X (GMap m)) entries))"

definition json_Marshal :: "ext \<Rightarrow> gomap list \<Rightarrow> string" where
  "json_Marshal X entries = json_encode X (marshal_entries X entries)"

text \<open>
  \<^verbatim>\<open>json.Unmarshal\<close> into an \<^verbatim>\<open>interface{}\<close> stores nil, \<^verbatim>\<open>bool\<close>, \<^verbatim>\<open>float64\<close>, \<^verbatim>\<open>string\<close>,
  \<^verbatim>\<open>[]interface{}\<close> and \<^verbatim>\<open>map[string]interface{}\<close>: a JSON string stays a string.
\<close>

fun unmarshal_value :: "ext \<Rightarrow> jval \<Rightarrow> goval" where
  "unmarshal_value X JNull = GNil"
| "unmarshal_value X (JBool b) = GBool b"
| "unmarshal_value X (JNum lit) = GFloat64 (strconv_ParseFloat X lit)"
| "unmarshal_value X (JStr s) = GString s"
| "unmarshal_value X (JArr xs) = GSlice (map (unmarshal_value X) xs)"
| "unmarshal_value X (JObj kvs) = GMap (map (\<lambda>(k, v). (k, unmarshal_value X v)) kvs)"

fun unmarshal_entry :: "ext \<Rightarrow> jval \<Rightarrow> gomap option" where
  \<comment> \<open>an element of the array, into a \<^verbatim>\<open>map[string]interface{}\<close>: null leaves the nil map,
      anything but an object is a type error\<close>
  "unmarshal_entry X JNull = Some []"
| "unmarshal_entry X (JObj kvs) = Some (map (\<lambda>(k, v). (k, unmarshal_value X v)) kvs)"
| "unmarshal_entry X v = None"

definition json_Unmarshal :: "ext \<Rightarrow> string \<Rightarrow> error + gomap list" where
  \<comment> \<open>\<^verbatim>\<open>json.Unmarshal([]byte(jsonData), &entries)\<close> with
      \<^verbatim>\<open>var entries []map[string]interface{}\<close>\<close>
  "json_Unmarshal X text =
     (case json_decode X text of
        None \<Rightarrow> Inl JsonError
      | Some JNull \<Rightarrow> Inr []
      | Some (JArr xs) \<Rightarrow>
          (case those (map (unmarshal_entry X) xs) of
             None \<Rightarrow> Inl JsonError
           | Some entries \<Rightarrow> Inr entries)
      | Some v \<Rightarrow> Inl JsonError)"

subsection \<open>\<^verbatim>\<open>os.WriteFile\<close> and \<^verbatim>\<open>os.ReadFile\<close>\<close>

definition os_WriteFile :: "string \<Rightarrow> string \<Rightarrow> world \<Rightarrow> (error + unit) \<times> world" where
  "os_WriteFile filename content w =
     (case io (FileWrite filename) w of
        (True, w') \<Rightarrow> (Inl FileError, w')
      | (False, w') \<Rightarrow> (Inr (), w'\<lparr>files := (files w')(filename \<mapsto> content)\<rparr>))"

definition os_ReadFile :: "string \<Rightarrow> world \<Rightarrow> (error + string) \<times> world" where
  "os_ReadFile filename w =
     (case io (FileRead filename) w of
        (True, w') \<Rightarrow> (Inl FileError, w')
      | (False, w') \<Rightarrow>
          (case files w' filename of
             None \<Rightarrow> (Inl FileError, w')
           | Some content \<Rightarrow> (Inr content, w')))"

section \<open>The password manager (pkg/manager/manager.go)\<close>

text \<open>
  The fields of \<^verbatim>\<open>PasswordManager\<close>. The crypto service has no state and is not a field
  of the model; \<^verbatim>\<open>masterKey\<close> is \<open>None\<close> for the nil slice.
\<close>

record PasswordManager =
  storage :: SQLiteStorage
  masterKey :: "bytes option"
  initialized :: bool
  lastActivity :: Time

definition updateLastActivity :: "PasswordManager \<Rightarrow> world \<Rightarrow> PasswordManager" where
  "updateLastActivity pm w = pm\<lparr>lastActivity := Some (time_Now w)\<rparr>"

definition testData :: string where
  "testData = ''This is a test string to verify the master password.''"

definition PasswordManager_CreateMasterPassword ::
  "ext \<Rightarrow> string \<Rightarrow> PasswordManager \<times> world \<Rightarrow> (error + unit) \<times> PasswordManager \<times> world" where
  "PasswordManager_CreateMasterPassword X masterPassword = (\<lambda>(pm, w).
     case GenerateSalt w of
       (Inl err, w) \<Rightarrow> (Inl (Wrap ''failed to generate salt'' err), pm, w)
     | (Inr salt, w) \<Rightarrow>
     case SQLiteStorage_SaveSalt (storage pm) salt w of
       (Inl err, w) \<Rightarrow> (Inl (Wrap ''failed to save salt'' err), pm, w)
     | (Inr u, w) \<Rightarrow>
     case DeriveKey X masterPassword salt of
       Inl err \<Rightarrow> (Inl (Wrap ''failed to derive key'' err), pm\<lparr>masterKey := None\<rparr>, w)
     | Inr key \<Rightarrow>
     let pm = pm\<lparr>masterKey := key\<rparr> in
     case Encrypt X testData (masterKey pm) w of
       (Inl err, w) \<Rightarrow> (Inl (Wrap ''failed to encrypt test vector'' err), pm, w)
     | (Inr encryptedTest, w) \<Rightarrow>
     case SQLiteStorage_SaveTestVector (storage pm) encryptedTest w of
       (Inl err, w) \<Rightarrow> (Inl (Wrap ''failed to save test vector'' err), pm, w)
     | (Inr u, w) \<Rightarrow>
     (Inr (), updateLastActivity (pm\<lparr>initialized := True\<rparr>) w, w))"

definition PasswordManager_UnlockVault ::
  "ext \<Rightarrow> string \<Rightarrow> PasswordManager \<times> world \<Rightarrow> (error + unit) \<times> PasswordManager \<times> world" where
  "PasswordManager_UnlockVault X masterPassword = (\<lambda>(pm, w).
     case SQLiteStorage_GetSalt (storage pm) w of
       (Inl err, w) \<Rightarrow> (Inl (Wrap ''failed to get salt'' err), pm, w)
     | (Inr salt, w) \<Rightarrow>
     case DeriveKey X masterPassword salt of
       Inl err \<Rightarrow> (Inl (Wrap ''failed to derive key'' err), pm, w)
     | Inr key \<Rightarrow>
     case SQLiteStorage_GetTestVector (storage pm) w of
       (Inl err, w) \<Rightarrow> (Inl (Wrap ''failed to get test vector'' err), pm, w)
     | (Inr testVector, w) \<Rightarrow>
     case VerifyKey X key testVector of
       Inl err \<Rightarrow> (Inl (Wrap ''error verifying key'' err), pm, w)
     | Inr correct \<Rightarrow>
     if \<not> correct then (Inl InvalidCredential, pm, w)
     else (Inr (), updateLastActivity (pm\<lparr>masterKey := key, initialized := True\<rparr>) w, w))"

definition IsLocked :: "PasswordManager \<Rightarrow> bool" where
  "IsLocked pm = (\<not> initialized pm)"

definition Lock :: "PasswordManager \<Rightarrow> PasswordManager" where
  "Lock pm = pm\<lparr>masterKey := None, initialized := False\<rparr>"

definition encrypt_notes :: "ext \<Rightarrow> PasswordEntry \<Rightarrow> bytes option \<Rightarrow> world \<Rightarrow> (error + bytes option) \<times> world" where
  \<comment> \<open>\<^verbatim>\<open>var encNotes []byte; if entry.Notes != "" { encNotes, err = pm.crypto.Encrypt(...) }\<close>\<close>
  "encrypt_notes X entry key w =
     (if Notes entry \<noteq> [] then Encrypt X (Notes entry) key w else (Inr None, w))"

definition PasswordManager_AddPassword ::
  "ext \<Rightarrow> PasswordEntry \<Rightarrow> PasswordManager \<times> world \<Rightarrow> (error + int) \<times> PasswordManager \<times> world" where
  "PasswordManager_AddPassword X entry = (\<lambda>(pm, w).
     if \<not> initialized pm then (Inl NotUnlocked, pm, w)
     else
     let pm = updateLastActivity pm w in
     case Encrypt X (Password entry) (masterKey pm) w of
       (Inl err, w) \<Rightarrow> (Inl err, pm, w)
     | (Inr encPassword, w) \<Rightarrow>
     case encrypt_notes X entry (masterKey pm) w of
       (Inl err, w) \<Rightarrow> (Inl err, pm, w)
     | (Inr encNotes, w) \<Rightarrow>
     case SQLiteStorage_AddPassword X (storage pm) entry encPassword encNotes w of
       (Inl err, w) \<Rightarrow> (Inl err, pm, w)
     | (Inr id', w) \<Rightarrow> (Inr id', pm, w))"

definition PasswordManager_GetPassword ::
  "ext \<Rightarrow> int \<Rightarrow> PasswordManager \<times> world \<Rightarrow> (error + PasswordEntry) \<times> PasswordManager \<times> world" where
  "PasswordManager_GetPassword X id' = (\<lambda>(pm, w).
     if \<not> initialized pm then (Inl NotUnlocked, pm, w)
     else
     let pm = updateLastActivity pm w in
     case SQLiteStorage_GetPassword X (storage pm) id' w of
       (Inl err, w) \<Rightarrow> (Inl err, pm, w)
     | (Inr (entry, encPassword, encNotes), w) \<Rightarrow>
     case Decrypt X encPassword (masterKey pm) of
       Inl err \<Rightarrow> (Inl err, pm, w)
     | Inr password \<Rightarrow>
     let entry = entry\<lparr>Password := password\<rparr> in
     if encNotes \<noteq> None \<and> 0 < len encNotes
     then (case Decrypt X encNotes (masterKey pm) of
             Inl err \<Rightarrow> (Inl err, pm, w)
           | Inr notes \<Rightarrow> (Inr (entry\<lparr>Notes := notes\<rparr>), pm, w))
     else (Inr entry, pm, w))"

definition PasswordManager_GetAllPasswords ::
  "ext \<Rightarrow> PasswordManager \<times> world \<Rightarrow> (error + PasswordEntry list) \<times> PasswordManager \<times> world" where
  "PasswordManager_GetAllPasswords X = (\<lambda>(pm, w).
     if \<not> initialized pm then (Inl NotUnlocked, pm, w)
     else
     let pm = updateLastActivity pm w in
     case SQLiteStorage_GetAllPasswords X (storage pm) w of
       (res, w) \<Rightarrow> (res, pm, w))"

definition PasswordManager_UpdatePassword ::
  "ext \<Rightarrow> PasswordEntry \<Rightarrow> PasswordManager \<times> world \<Rightarrow> (error + unit) \<times> PasswordManager \<times> world" where
  "PasswordManager_UpdatePassword X entry = (\<lambda>(pm, w).
     if \<not> initialized pm then (Inl NotUnlocked, pm, w)
     else
     let pm = updateLastActivity pm w in
     case Encrypt X (Password entry) (masterKey pm) w of
       (Inl err, w) \<Rightarrow> (Inl err, pm, w)
     | (Inr encPassword, w) \<Rightarrow>
     case encrypt_notes X entry (masterKey pm) w of
       (Inl err, w) \<Rightarrow> (Inl err, pm, w)
     | (Inr encNotes, w) \<Rightarrow>
     case SQLiteStorage_UpdatePassword X (storage pm) entry encPassword encNotes w of
       (res, w) \<Rightarrow> (res, pm, w))"

definition PasswordManager_DeletePassword ::
  "int \<Rightarrow> PasswordManager \<times> world \<Rightarrow> (error + unit) \<times> PasswordManager \<times> world" where
  "PasswordManager_DeletePassword id' = (\<lambda>(pm, w).
     if \<not> initialized pm then (Inl NotUnlocked, pm, w)
     else
     let pm = updateLastActivity pm w in
     case SQLiteStorage_DeletePassword (storage pm) id' w of
       (res, w) \<Rightarrow> (res, pm, w))"

definition PasswordManager_SearchPasswords ::
  "ext \<Rightarrow> SearchParams \<Rightarrow> PasswordManager \<times> world
     \<Rightarrow> (error + PasswordEntry list) \<times> PasswordManager \<times> world" where
  "PasswordManager_SearchPasswords X params = (\<lambda>(pm, w).
     if \<not> initialized pm then (Inl NotUnlocked, pm, w)
     else
     let pm = updateLastActivity pm w in
     case SQLiteStorage_SearchPasswords X (storage pm) params w of
       (res, w) \<Rightarrow> (res, pm, w))"

definition PasswordManager_ExportVault ::
  "ext \<Rightarrow> string \<Rightarrow> PasswordManager \<times> world \<Rightarrow> (error + unit) \<times> PasswordManager \<times> world" where
  "PasswordManager_ExportVault X filename = (\<lambda>(pm, w).
     if \<not> initialized pm then (Inl NotUnlocked, pm, w)
     else
     let pm = updateLastActivity pm w in
     case SQLiteStorage_ExportData X (storage pm) w of
       (Inl err, w) \<Rightarrow> (Inl err, pm, w)
     | (Inr entries, w) \<Rightarrow>
     let jsonData = json_Marshal X entries in
     case Encrypt X jsonData (masterKey pm) w of
       (Inl err, w) \<Rightarrow> (Inl err, pm, w)
     | (Inr encData, w) \<Rightarrow>
     let encodedData = base64_EncodeToString (data encData) in
     case os_WriteFile filename encodedData w of
       (res, w) \<Rightarrow> (res, pm, w))"

definition PasswordManager_ImportVault ::
  "ext \<Rightarrow> string \<Rightarrow> PasswordManager \<times> world \<Rightarrow> (error + unit) \<times> PasswordManager \<times> world" where
  "PasswordManager_ImportVault X filename = (\<lambda>(pm, w).
     if \<not> initialized pm then (Inl NotUnlocked, pm, w)
     else
     let pm = updateLastActivity pm w in
     case os_ReadFile filename w of
       (Inl err, w) \<Rightarrow> (Inl err, pm, w)
     | (Inr content, w) \<Rightarrow>
     case base64_DecodeString X content of
       None \<Rightarrow> (Inl CorruptInputError, pm, w)
     | Some decodedData \<Rightarrow>
     case Decrypt X (Some decodedData) (masterKey pm) of
       Inl err \<Rightarrow> (Inl err, pm, w)
     | Inr jsonData \<Rightarrow>
     case json_Unmarshal X jsonData of
       Inl err \<Rightarrow> (Inl err, pm, w)
     | Inr entries \<Rightarrow>
     case SQLiteStorage_ImportData X (storage pm) entries w of
       (res, w) \<Rightarrow> (res, pm, w))"

section \<open>The password generator (pkg/generator/generator.go)\<close>

record PasswordOptions =
  Length :: int
  IncludeLowercase :: bool
  IncludeUppercase :: bool
  IncludeNumbers :: bool
  IncludeSymbols :: bool
  ExcludeSimilar :: bool
  ExcludeAmbiguous :: bool

text \<open>The character sets. All of them are ASCII, so a rune is one \<^typ>\<open>char\<close>.\<close>

definition lowercase :: string where
  "lowercase = ''abcdefghijklmnopqrstuvwxyz''"

definition uppercase :: string where
  "uppercase = ''ABCDEFGHIJKLMNOPQRSTUVWXYZ''"

definition numbers :: string where
  "numbers = ''0123456789''"

definition symbols :: string where
  "symbols = [CHR ''!'', CHR ''@'', CHR ''#'', CHR ''$'', CHR ''%'', CHR ''^'', CHR ''&'',
     CHR ''*'', CHR ''('', CHR '')'', CHR ''-'', CHR ''_'', CHR ''='', CHR ''+'', CHR ''['',
     CHR '']'', CHR ''{'', CHR ''}'', CHR ''|'', CHR '';'', CHR '':'', CHR '','', CHR ''.'',
     CHR ''/'', CHR ''<'', CHR ''>'', CHR ''?'', CHR ''~'']"

definition similar :: string where
  "similar = ''il1Lo0O''"

definition ambiguous :: string where
  \<comment> \<open>0x60 is the backquote, 0x5C the backslash, 0x27 the quote, 0x22 the double quote\<close>
  "ambiguous = [CHR 0x60, CHR ''{'', CHR ''}'', CHR ''['', CHR '']'', CHR ''('', CHR '')'',
     CHR ''|'', CHR 0x5C, CHR ''/'', CHR 0x27, CHR 0x22, CHR 0x60, CHR ''~'', CHR '','',
     CHR '';'', CHR '':'', CHR ''.'', CHR ''<'', CHR ''>'']"

fun containsRune :: "string \<Rightarrow> char \<Rightarrow> bool" where
  "containsRune [] r = False"
| "containsRune (c # s) r = (if c = r then True else containsRune s r)"

definition randomInt :: "int \<Rightarrow> rand_source \<Rightarrow> nat \<Rightarrow> (error + int) \<times> nat" where
  "randomInt mx src pos =
     (if mx \<le> 0 then (Inl MaxNotPositive, pos)
      else case src pos of
             None \<Rightarrow> (Inl RandError, Suc pos)
           | Some n \<Rightarrow> (Inr (int n mod mx), Suc pos))"

definition charset :: "PasswordOptions \<Rightarrow> string" where
  \<comment> \<open>the four loops of \<^verbatim>\<open>GeneratePassword\<close> that build \<^verbatim>\<open>chars\<close>\<close>
  "charset options =
     (if IncludeLowercase options
      then filter (\<lambda>c. \<not> (ExcludeSimilar options \<and> containsRune similar c)) lowercase else [])
     @ (if IncludeUppercase options
      then filter (\<lambda>c. \<not> (ExcludeSimilar options \<and> containsRune similar c)) uppercase else [])
     @ (if IncludeNumbers options
      then filter (\<lambda>c. \<not> (ExcludeSimilar options \<and> containsRune similar c)) numbers else [])
     @ (if IncludeSymbols options
      then filter (\<lambda>c. \<not> (ExcludeAmbiguous options \<and> containsRune ambiguous c)) symbols else [])"

fun draw_runes :: "nat \<Rightarrow> string \<Rightarrow> rand_source \<Rightarrow> nat \<Rightarrow> (error + string) \<times> nat" where
  \<comment> \<open>the loop \<^verbatim>\<open>for i := 0; i < options.Length; i++\<close> that fills \<^verbatim>\<open>result\<close>\<close>
  "draw_runes 0 chars src pos = (Inr [], pos)"
| "draw_runes (Suc n) chars src pos =
     (case randomInt (int (length chars)) src pos of
        (Inl e, pos') \<Rightarrow> (Inl e, pos')
      | (Inr idx, pos') \<Rightarrow>
          (case draw_runes n chars src pos' of
             (Inl e, pos'') \<Rightarrow> (Inl e, pos'')
           | (Inr rest, pos'') \<Rightarrow> (Inr (chars ! nat idx # rest), pos'')))"

fun class_flags :: "string \<Rightarrow> bool \<times> bool \<times> bool \<times> bool \<Rightarrow> bool \<times> bool \<times> bool \<times> bool" where
  \<comment> \<open>the loop of \<^verbatim>\<open>meetsRequirements\<close> over the runes of the password\<close>
  "class_flags [] flags = flags"
| "class_flags (c # cs) (hasLower, hasUpper, hasNumber, hasSymbol) =
     class_flags cs
       (if containsRune lowercase c then (True, hasUpper, hasNumber, hasSymbol)
        else if containsRune uppercase c then (hasLower, True, hasNumber, hasSymbol)
        else if containsRune numbers c then (hasLower, hasUpper, True, hasSymbol)
        else if containsRune symbols c then (hasLower, hasUpper, hasNumber, True)
        else (hasLower, hasUpper, hasNumber, hasSymbol))"

definition meetsRequirements :: "string \<Rightarrow> PasswordOptions \<Rightarrow> bool" where
  "meetsRequirements password options =
     (case class_flags password
             (\<not> IncludeLowercase options, \<not> IncludeUppercase options,
              \<not> IncludeNumbers options, \<not> IncludeSymbols options) of
        (hasLower, hasUpper, hasNumber, hasSymbol) \<Rightarrow>
          hasLower \<and> hasUpper \<and> hasNumber \<and> hasSymbol)"

text \<open>
  \<^verbatim>\<open>GeneratePassword\<close> calls itself when the drawn string misses a class, with nothing
  that bounds the number of calls. The model is a partial function: the value \<open>None\<close>
  says that the call does not return.
\<close>

partial_function (option) GeneratePassword ::
  "PasswordOptions \<Rightarrow> rand_source \<Rightarrow> nat \<Rightarrow> ((error + string) \<times> nat) option" where
  "GeneratePassword options src pos =
     (if Length options \<le> 0 then Some (Inl LengthNotPositive, pos)
      else if charset options = [] then Some (Inl NoCharacterSet, pos)
      else case draw_runes (nat (Length options)) (charset options) src pos of
             (Inl e, pos') \<Rightarrow> Some (Inl e, pos')
           | (Inr result, pos') \<Rightarrow>
               if \<not> meetsRequirements result options
               then GeneratePassword options src pos'
               else Some (Inr result, pos'))"

definition DefaultOptions :: PasswordOptions where
  "DefaultOptions = \<lparr>Length = 16, IncludeLowercase = True, IncludeUppercase = True,
     IncludeNumbers = True, IncludeSymbols = True, ExcludeSimilar = True,
     ExcludeAmbiguous = False\<rparr>"

text \<open>The number of class flags that are set, to count the classes a password has met.\<close>

fun flags_set :: "bool \<times> bool \<times> bool \<times> bool \<Rightarrow> nat" where
  "flags_set (a, b, c, d) = of_bool a + of_bool b + of_bool c + of_bool d"

section \<open>An executable instance of the libraries\<close>

text \<open>
  The theorems hold for every value of the library parameters that meets the stated
  assumptions. To evaluate the model on concrete inputs, \<open>ref_ext\<close> gives each parameter
  a small executable stand-in: a key derivation that pads the password and the salt to the
  key length, an authenticated cipher that reverses the plaintext and appends a 16-byte
  tag made of the nonce and the key, a query evaluation that returns every row in table
  order, a row limit on the sum of the bytes of the cells, a JSON text layer for compact
  documents, and the base64 decoder of RFC 4648.
  None of the stand-ins is the cryptography or the SQL of the libraries.
\<close>

definition ref_IDKey :: "string \<Rightarrow> bytes \<Rightarrow> nat \<Rightarrow> nat \<Rightarrow> nat \<Rightarrow> nat \<Rightarrow> bytes" where
  "ref_IDKey password salt t m p n = take n (password @ salt @ replicate n (CHR 0x00))"

definition ref_tag :: "bytes \<Rightarrow> bytes \<Rightarrow> bytes" where
  "ref_tag key nonce = take 16 (nonce @ key @ replicate 16 (CHR 0x00))"

definition ref_Seal :: "bytes \<Rightarrow> bytes \<Rightarrow> bytes \<Rightarrow> bytes \<Rightarrow> bytes" where
  "ref_Seal key nonce plaintext aad = rev plaintext @ ref_tag key nonce"

definition ref_Open :: "bytes \<Rightarrow> bytes \<Rightarrow> bytes \<Rightarrow> bytes \<Rightarrow> bytes option" where
  "ref_Open key nonce ciphertext aad =
     (if 16 \<le> length ciphertext
         \<and> drop (length ciphertext - 16) ciphertext = ref_tag key nonce
      then Some (rev (take (length ciphertext - 16) ciphertext))
      else None)"

definition ref_select :: "string \<Rightarrow> sqlval list \<Rightarrow> row list \<Rightarrow> sqlval list list option" where
  "ref_select query args rows =
     Some (map (\<lambda>r. [SInt (col_id r), col_title r, col_url r, col_username r,
                      col_category r, col_created_at r, col_updated_at r]) rows)"

definition ref_number :: "sqlval \<Rightarrow> string" where
  "ref_number v = (case v of SInt i \<Rightarrow> FormatInt i | _ \<Rightarrow> ''0'')"

definition ref_timestamp :: "sqlval \<Rightarrow> string" where
  "ref_timestamp v = (case v of SText s \<Rightarrow> s | _ \<Rightarrow> [])"

subsection \<open>The JSON text of a document\<close>

fun join :: "string \<Rightarrow> string list \<Rightarrow> string" where
  "join sep [] = []"
| "join sep [x] = x"
| "join sep (x # y # ys) = x @ sep @ join sep (y # ys)"

definition quote :: "string \<Rightarrow> string" where
  \<comment> \<open>0x22 is the double quote, 0x5C the backslash\<close>
  "quote s =
     CHR 0x22 # concat (map (\<lambda>c. if c = CHR 0x22 \<or> c = CHR 0x5C then [CHR 0x5C, c] else [c]) s)
     @ [CHR 0x22]"

fun ref_json_encode :: "jval \<Rightarrow> string" where
  "ref_json_encode JNull = ''null''"
| "ref_json_encode (JBool b) = (if b then ''true'' else ''false'')"
| "ref_json_encode (JNum lit) = lit"
| "ref_json_encode (JStr s) = quote s"
| "ref_json_encode (JArr xs) = ''['' @ join '','' (map ref_json_encode xs) @ '']''"
| "ref_json_encode (JObj kvs) =
     ''{'' @ join '','' (map (\<lambda>(k, v). quote k @ '':'' @ ref_json_encode v) kvs) @ ''}''"

fun parse_string :: "string \<Rightarrow> (string \<times> string) option" where
  \<comment> \<open>the text after an opening quote: the string and what follows the closing quote\<close>
  "parse_string [] = None"
| "parse_string (c # cs) =
     (if c = CHR 0x22 then Some ([], cs)
      else if c = CHR 0x5C
      then (case cs of
              [] \<Rightarrow> None
            | d # ds \<Rightarrow> map_option (\<lambda>(s, rest). (d # s, rest)) (parse_string ds))
      else map_option (\<lambda>(s, rest). (c # s, rest)) (parse_string cs))"

definition numchar :: "char \<Rightarrow> bool" where
  "numchar c \<longleftrightarrow> c \<in> set ''0123456789+-.eE''"

text \<open>The first argument bounds the depth of the calls; the parser recurs on it.\<close>

fun parse_value :: "'a list \<Rightarrow> string \<Rightarrow> (jval \<times> string) option"
  and parse_elements :: "'a list \<Rightarrow> string \<Rightarrow> (jval list \<times> string) option"
  and parse_members :: "'a list \<Rightarrow> string \<Rightarrow> ((string \<times> jval) list \<times> string) option" where
  "parse_value [] s = None"
| "parse_value (u # fuel) s =
     (case s of
        [] \<Rightarrow> None
      | c # cs \<Rightarrow>
          if c = CHR ''n''
          then (if take 3 cs = ''ull'' then Some (JNull, drop 3 cs) else None)
          else if c = CHR ''t''
          then (if take 3 cs = ''rue'' then Some (JBool True, drop 3 cs) else None)
          else if c = CHR ''f''
          then (if take 4 cs = ''alse'' then Some (JBool False, drop 4 cs) else None)
          else if c = CHR 0x22
          then map_option (\<lambda>(str, rest). (JStr str, rest)) (parse_string cs)
          else if c = CHR ''[''
          then (if take 1 cs = '']'' then Some (JArr [], drop 1 cs)
                else map_option (\<lambda>(xs, rest). (JArr xs, rest)) (parse_elements fuel cs))
          else if c = CHR ''{''
          then (if take 1 cs = ''}'' then Some (JObj [], drop 1 cs)
                else map_option (\<lambda>(kvs, rest). (JObj kvs, rest)) (parse_members fuel cs))
          else if takeWhile numchar s = [] then None
          else Some (JNum (takeWhile numchar s), dropWhile numchar s))"
| "parse_elements [] s = None"
| "parse_elements (u # fuel) s =
     (case parse_value fuel s of
        None \<Rightarrow> None
      | Some (v, rest) \<Rightarrow>
          (case rest of
             [] \<Rightarrow> None
           | c # cs \<Rightarrow>
               if c = CHR '']'' then Some ([v], cs)
               else if c = CHR '',''
               then map_option (\<lambda>(vs, r). (v # vs, r)) (parse_elements fuel cs)
               else None))"
| "parse_members [] s = None"
| "parse_members (u # fuel) s =
     (case s of
        [] \<Rightarrow> None
      | q # cs \<Rightarrow>
          if q \<noteq> CHR 0x22 then None
          else (case parse_string cs of
                  None \<Rightarrow> None
                | Some (k, rest) \<Rightarrow>
                    if take 1 rest \<noteq> '':'' then None
                    else (case parse_value fuel (drop 1 rest) of
                            None \<Rightarrow> None
                          | Some (v, rest') \<Rightarrow>
                              (case rest' of
                                 [] \<Rightarrow> None
                               | c # cs' \<Rightarrow>
                                   if c = CHR ''}'' then Some ([(k, v)], cs')
                                   else if c = CHR '',''
                                   then map_option (\<lambda>(kvs, r). ((k, v) # kvs, r))
                                          (parse_members fuel cs')
                                   else None))))"

definition ref_json_decode :: "string \<Rightarrow> jval option" where
  "ref_json_decode s =
     (case parse_value (s @ s) s of
        Some (v, []) \<Rightarrow> Some v
      | _ \<Rightarrow> None)"

subsection \<open>The base64 decoder\<close>

definition sextet_of :: "char \<Rightarrow> nat option" where
  "sextet_of c =
     (let n = of_char c :: nat
      in if 65 \<le> n \<and> n \<le> 90 then Some (n - 65)
         else if 97 \<le> n \<and> n \<le> 122 then Some (n - 71)
         else if 48 \<le> n \<and> n \<le> 57 then Some (n + 4)
         else if c = CHR ''+'' then Some 62
         else if c = CHR ''/'' then Some 63
         else None)"

fun ref_base64_decode :: "string \<Rightarrow> bytes option" where
  "ref_base64_decode [] = Some []"
| "ref_base64_decode (a # b # c # d # rest) =
     (case (sextet_of a, sextet_of b) of
        (Some x, Some y) \<Rightarrow>
          if c = CHR ''='' \<and> d = CHR ''='' \<and> rest = []
          then Some [char_of (x * 4 + y div 16)]
          else (case sextet_of c of
                  None \<Rightarrow> None
                | Some z \<Rightarrow>
                    if d = CHR ''='' \<and> rest = []
                    then Some [char_of (x * 4 + y div 16), char_of ((y mod 16) * 16 + z div 4)]
                    else (case sextet_of d of
                            None \<Rightarrow> None
                          | Some u \<Rightarrow>
                              map_option
                                (\<lambda>bs. char_of (x * 4 + y div 16)
                                       # char_of ((y mod 16) * 16 + z div 4)
                                       # char_of ((z mod 4) * 64 + u) # bs)
                                (ref_base64_decode rest)))
      | _ \<Rightarrow> None)"
| "ref_base64_decode s = None"

definition ref_ext :: ext where
  "ref_ext = \<lparr>argon2_IDKey = ref_IDKey, gcm_Seal = ref_Seal, gcm_Open = ref_Open,
     sqlite_select = ref_select, sqlite_num_text = ref_number,
     sqlite_text_num = (\<lambda>s. None),
     sqlite_row_toobig = (\<lambda>cells. SQLITE_MAX_LENGTH < sum_list (map cell_bytes cells)),
     format_number = ref_number,
     parse_int64 = (\<lambda>v. None), timestamp_text = ref_timestamp,
     time_Parse = (\<lambda>s. None), utf8_coerce = (\<lambda>s. s), strconv_ParseFloat = (\<lambda>s. 0),
     json_encode = ref_json_encode, json_decode = ref_json_decode,
     base64_DecodeString = ref_base64_decode\<rparr>"

text \<open>A world with an empty database and a manager on it, for the concrete evaluations.\<close>

definition world0 :: world where
  "world0 = \<lparr>config = Map.empty, passwords = [], sqlite_sequence = 0,
     current_timestamp = ''2024-01-01 00:00:00'', files = Map.empty, faults = [],
     io_trace = [], rand_src = (\<lambda>n. Some n), rand_pos = 0, time_Now = 1700000000\<rparr>"

definition pm0 :: PasswordManager where
  "pm0 = \<lparr>storage = \<lparr>db = True, dbPath = ''vault.db''\<rparr>, masterKey = None,
     initialized = False, lastActivity = None\<rparr>"

text \<open>A record and a search, as a caller would pass them.\<close>

definition entry0 :: PasswordEntry where
  "entry0 = \<lparr>ID = 0, Title = ''mail'', URL = ''https://mail.example'', Username = ''alice'',
     Password = ''p@ssW0rd!'', Notes = ''secret note'', Category = ''web'',
     CreatedAt = None, LastUpdated = None\<rparr>"

definition params0 :: SearchParams where
  "params0 = \<lparr>Keyword = ''mail'', Category = [], SortBy = [], SortDesc = False,
     Limit = 0, Offset = 0\<rparr>"

text \<open>A second record, without notes.\<close>

definition entry1 :: PasswordEntry where
  "entry1 = \<lparr>ID = 0, Title = ''bank'', URL = ''https://bank.example'', Username = ''bob'',
     Password = ''hunter2'', Notes = [], Category = ''finance'',
     CreatedAt = None, LastUpdated = None\<rparr>"

text \<open>A database that holds a salt and no test vector.\<close>

definition world_salt_only :: world where
  "world_salt_only = world0\<lparr>config := [''salt'' \<mapsto> Some ''0123456789abcdef'']\<rparr>"

text \<open>A manager that holds a key of 32 bytes.\<close>

definition pm_unlocked :: PasswordManager where
  "pm_unlocked = pm0\<lparr>masterKey := Some (replicate 32 (CHR ''k'')), initialized := True\<rparr>"

text \<open>
  A table with one record, and two entries of a backup as \<^verbatim>\<open>json.Unmarshal\<close> delivers them:
  one complete, one without a title.
\<close>

definition row1 :: row where
  "row1 = \<lparr>col_id = 1, col_title = SText ''mail'', col_url = SText ''https://mail.example'',
     col_username = SText ''alice'', col_password = SBlob ''sealed-pw'',
     col_notes = SBlob ''sealed-note'', col_category = SText ''web'',
     col_created_at = SText ''2024-01-01 00:00:00'',
     col_updated_at = SText ''2024-01-01 00:00:00''\<rparr>"

definition world_one_row :: world where
  "world_one_row = world0\<lparr>passwords := [row1], sqlite_sequence := 1\<rparr>"



text \<open>The entry that \<^verbatim>\<open>ExportData\<close> returns for the record of that table.\<close>

definition export1 :: gomap where
  "export1 = [(''category'', GString ''web''),
     (''created_at'', GString ''2024-01-01 00:00:00''), (''id'', GInt64 1),
     (''notes'', GBytes (Some ''sealed-note'')), (''password'', GBytes (Some ''sealed-pw'')),
     (''title'', GString ''mail''), (''updated_at'', GString ''2024-01-01 00:00:00''),
     (''url'', GString ''https://mail.example''), (''username'', GString ''alice'')]"

section \<open>Notions used in the statements\<close>

text \<open>
  A world is healthy when no I/O failure is scheduled. \<open>after_io ev w\<close> is the world after
  one I/O operation that did not fail.
\<close>

definition healthy :: "world \<Rightarrow> bool" where
  "healthy w \<longleftrightarrow> True \<notin> set (faults w)"

definition after_io :: "io_event \<Rightarrow> world \<Rightarrow> world" where
  "after_io ev w = w\<lparr>faults := tl (faults w), io_trace := io_trace w @ [ev]\<rparr>"

text \<open>
  The row that the \<^verbatim>\<open>INSERT\<close> of \<^verbatim>\<open>ImportData\<close> stores for an entry of the backup: each
  column is the bound value of the entry's field after the affinity of the column.
\<close>

definition imported_as :: "ext \<Rightarrow> gomap \<Rightarrow> row \<Rightarrow> bool" where
  "imported_as X entry r \<longleftrightarrow>
     map_option (store_text X) (bind (index entry ''title'')) = Some (col_title r) \<and>
     map_option (store_text X) (bind (index entry ''url'')) = Some (col_url r) \<and>
     map_option (store_text X) (bind (index entry ''username'')) = Some (col_username r) \<and>
     bind (index entry ''password'') = Some (col_password r) \<and>
     bind (index entry ''notes'') = Some (col_notes r) \<and>
     map_option (store_text X) (bind (index entry ''category'')) = Some (col_category r) \<and>
     map_option (store_numeric X) (bind (index entry ''created_at'')) = Some (col_created_at r) \<and>
     map_option (store_numeric X) (bind (index entry ''updated_at'')) = Some (col_updated_at r)"

text \<open>
  The map that \<^verbatim>\<open>json.Unmarshal\<close> returns for an entry that \<^verbatim>\<open>json.Marshal\<close> wrote, and the
  keys of an entry of \<^verbatim>\<open>ExportData\<close>.
\<close>

definition remarshal :: "ext \<Rightarrow> gomap \<Rightarrow> gomap" where
  "remarshal X m = map (\<lambda>(k, v). (utf8_coerce X k, unmarshal_value X (marshal_value X v))) m"

definition export_keys :: "string list" where
  "export_keys = [''category'', ''created_at'', ''id'', ''notes'', ''password'', ''title'',
     ''updated_at'', ''url'', ''username'']"

section \<open>Properties of the password generator\<close>

lemma containsRune_set: "containsRune s r \<longleftrightarrow> r \<in> set s"
  by (induction s) auto

lemma randomInt_range:
  "randomInt mx src pos = (Inr idx, p) \<Longrightarrow> 0 \<le> idx \<and> idx < mx"
  by (auto simp: randomInt_def split: if_splits option.splits)

lemma randomInt_error:
  "randomInt mx src pos = (Inl e, p) \<Longrightarrow> 0 < mx \<Longrightarrow> e = RandError"
  by (auto simp: randomInt_def split: if_splits option.splits)

lemma draw_runes_length:
  "draw_runes n chars src pos = (Inr r, p) \<Longrightarrow> length r = n"
proof (induction n arbitrary: pos r p)
  case 0
  then show ?case by simp
next
  case (Suc n)
  then show ?case
    by (auto split: prod.splits sum.splits)
qed

lemma draw_runes_set:
  "draw_runes n chars src pos = (Inr r, p) \<Longrightarrow> set r \<subseteq> set chars"
proof (induction n arbitrary: pos r p)
  case 0
  then show ?case by simp
next
  case (Suc n)
  from Suc.prems obtain idx pos' rest where
    idx: "randomInt (int (length chars)) src pos = (Inr idx, pos')" and
    rest: "draw_runes n chars src pos' = (Inr rest, p)" and
    r: "r = chars ! nat idx # rest"
    by (auto split: prod.splits sum.splits)
  from randomInt_range [OF idx] have "nat idx < length chars" by linarith
  then have "chars ! nat idx \<in> set chars" by simp
  with Suc.IH [OF rest] r show ?case by simp
qed

lemma draw_runes_error:
  "draw_runes n chars src pos = (Inl e, p) \<Longrightarrow> chars \<noteq> [] \<Longrightarrow> e = RandError"
proof (induction n arbitrary: pos p)
  case 0
  then show ?case by simp
next
  case (Suc n)
  then show ?case
    by (auto split: prod.splits sum.splits dest: randomInt_error)
qed

lemma GeneratePassword_returns:
  "GeneratePassword options src pos = Some y \<Longrightarrow>
     (case y of
        (Inr s, p) \<Rightarrow> 0 < Length options \<and> length s = nat (Length options) \<and>
                      set s \<subseteq> set (charset options) \<and> meetsRequirements s options
      | (Inl e, p) \<Rightarrow> e = LengthNotPositive \<and> Length options \<le> 0 \<or>
                      e = NoCharacterSet \<and> charset options = [] \<or> e = RandError)"
proof (induction options src pos y rule: GeneratePassword.raw_induct [rotated 1, consumes 1])
  case (1 GeneratePassword options src pos y)
  show ?case
  proof (cases "Length options \<le> 0 \<or> charset options = []")
    case True
    with 1(2) show ?thesis by (auto split: if_splits)
  next
    case False
    obtain res pos' where d: "draw_runes (nat (Length options)) (charset options) src pos = (res, pos')"
      by (cases "draw_runes (nat (Length options)) (charset options) src pos")
    show ?thesis
    proof (cases res)
      case (Inl e)
      with d False 1(2) draw_runes_error [of _ _ src pos e pos'] show ?thesis
        by auto
    next
      case (Inr result)
      show ?thesis
      proof (cases "meetsRequirements result options")
        case True
        with Inr d False 1(2) draw_runes_length [of _ _ src pos result pos']
          draw_runes_set [of _ _ src pos result pos']
        show ?thesis by auto
      next
        case no: False
        with Inr d False 1(2) have "GeneratePassword options src pos' = Some y" by simp
        from 1(1) [OF this] show ?thesis .
      qed
    qed
  qed
qed

lemma class_flags_eq:
  "class_flags cs (a, b, c, d) =
     (a \<or> (\<exists>x\<in>set cs. x \<in> set lowercase),
      b \<or> (\<exists>x\<in>set cs. x \<notin> set lowercase \<and> x \<in> set uppercase),
      c \<or> (\<exists>x\<in>set cs. x \<notin> set lowercase \<and> x \<notin> set uppercase \<and> x \<in> set numbers),
      d \<or> (\<exists>x\<in>set cs. x \<notin> set lowercase \<and> x \<notin> set uppercase \<and> x \<notin> set numbers
                \<and> x \<in> set symbols))"
  by (induction cs arbitrary: a b c d) (auto simp: containsRune_set)

lemma classes_disjoint:
  "set lowercase \<inter> set uppercase = {}" "set lowercase \<inter> set numbers = {}"
  "set lowercase \<inter> set symbols = {}" "set uppercase \<inter> set numbers = {}"
  "set uppercase \<inter> set symbols = {}" "set numbers \<inter> set symbols = {}"
  by (simp_all add: lowercase_def uppercase_def numbers_def symbols_def)

lemma meetsRequirements_iff:
  "meetsRequirements password options \<longleftrightarrow>
     (IncludeLowercase options \<longrightarrow> (\<exists>x\<in>set password. x \<in> set lowercase)) \<and>
     (IncludeUppercase options \<longrightarrow> (\<exists>x\<in>set password. x \<in> set uppercase)) \<and>
     (IncludeNumbers options \<longrightarrow> (\<exists>x\<in>set password. x \<in> set numbers)) \<and>
     (IncludeSymbols options \<longrightarrow> (\<exists>x\<in>set password. x \<in> set symbols))"
  using classes_disjoint
  unfolding meetsRequirements_def class_flags_eq by auto

lemma class_flags_count:
  "flags_set (class_flags cs f) \<le> flags_set f + length cs"
proof (induction cs arbitrary: f)
  case Nil
  then show ?case by simp
next
  case (Cons c cs)
  obtain a b c' d where f: "f = (a, b, c', d)" by (cases f)
  show ?case
    unfolding f class_flags.simps
    by (rule order_trans [OF Cons.IH]) (simp add: of_bool_def)
qed

lemma meetsRequirements_length:
  assumes "meetsRequirements password options"
  shows "of_bool (IncludeLowercase options) + of_bool (IncludeUppercase options)
         + of_bool (IncludeNumbers options) + of_bool (IncludeSymbols options)
         \<le> length password"
proof -
  let ?init = "(\<not> IncludeLowercase options, \<not> IncludeUppercase options,
                \<not> IncludeNumbers options, \<not> IncludeSymbols options)"
  from assms have "flags_set (class_flags password ?init) = 4"
    by (auto simp: meetsRequirements_def split: prod.splits)
  with class_flags_count [of password ?init]
  have "4 \<le> flags_set ?init + length password" by simp
  then show ?thesis by (simp add: of_bool_def split: if_splits)
qed

lemma charset_nonempty:
  "IncludeLowercase options \<or> IncludeUppercase options \<or> IncludeNumbers options
     \<or> IncludeSymbols options \<Longrightarrow> charset options \<noteq> []"
  by (auto simp: charset_def lowercase_def uppercase_def numbers_def symbols_def
        similar_def ambiguous_def)

text \<open>
  Claim C9. The claim says that \<^verbatim>\<open>GeneratePassword\<close> terminates for every positive length
  with a class included. It does not when the length is smaller than the number of
  included classes: with the default options (four classes) and \<^verbatim>\<open>Length = 3\<close> no string of
  three characters meets the requirements, every draw is rejected and the function calls
  itself again. On every source of randomness the call either never returns or stops with
  the error of a failed read; it never returns a password.
\<close>

theorem GeneratePassword_short_never_returns:
  "GeneratePassword (DefaultOptions\<lparr>Length := 3\<rparr>) src pos = None \<or>
   (\<exists>p. GeneratePassword (DefaultOptions\<lparr>Length := 3\<rparr>) src pos = Some (Inl RandError, p))"
proof (cases "GeneratePassword (DefaultOptions\<lparr>Length := 3\<rparr>) src pos")
  case None
  then show ?thesis by simp
next
  case (Some y)
  obtain res p where y: "y = (res, p)" by (cases y)
  have ne: "charset (DefaultOptions\<lparr>Length := 3\<rparr>) \<noteq> []"
    by (rule charset_nonempty) (simp add: DefaultOptions_def)
  show ?thesis
  proof (cases res)
    case (Inl e)
    with GeneratePassword_returns [OF Some] y ne have "e = RandError"
      by (simp add: DefaultOptions_def)
    with Some y Inl show ?thesis by simp
  next
    case (Inr s)
    with GeneratePassword_returns [OF Some] y
    have "length s = 3" and m: "meetsRequirements s (DefaultOptions\<lparr>Length := 3\<rparr>)"
      by simp_all
    with meetsRequirements_length [OF m] show ?thesis
      by (simp add: DefaultOptions_def)
  qed
qed

section \<open>Properties of the crypto service\<close>

lemma ref_aead_correct: "aead_correct ref_ext"
  by (simp add: aead_correct_def ref_ext_def ref_Open_def ref_Seal_def ref_tag_def)

lemma ref_kdf_length: "kdf_length ref_ext"
  by (auto simp: kdf_length_def ref_ext_def ref_IDKey_def min_def)

lemma io_ReadFull_ok:
  "(\<forall>i<n. src (pos + i) \<noteq> None) \<Longrightarrow>
     \<exists>bs. io_ReadFull n src pos = (Inr bs, pos + n) \<and> length bs = n"
proof (induction n arbitrary: pos)
  case 0
  then show ?case by simp
next
  case (Suc n)
  from Suc.prems have "src pos \<noteq> None" by (metis add.right_neutral zero_less_Suc)
  then obtain b where b: "src pos = Some b" by auto
  have "\<forall>i<n. src (Suc pos + i) \<noteq> None"
    using Suc.prems by (metis Suc_less_eq add_Suc_shift)
  from Suc.IH [OF this] obtain bs where
    "io_ReadFull n src (Suc pos) = (Inr bs, Suc pos + n)" "length bs = n" by auto
  with b show ?case by simp
qed

lemma io_ReadFull_length:
  "io_ReadFull n src pos = (Inr bs, pos') \<Longrightarrow> length bs = n"
  by (induction n arbitrary: pos bs) (auto split: option.splits prod.splits sum.splits)

lemma io_ReadFull_pos:
  "io_ReadFull n src pos = (Inr bs, pos') \<Longrightarrow> pos' = pos + n"
proof (induction n arbitrary: pos bs)
  case 0
  then show ?case by simp
next
  case (Suc n)
  from Suc.prems obtain bs' where "io_ReadFull n src (Suc pos) = (Inr bs', pos')"
    by (auto split: option.splits prod.splits sum.splits)
  from Suc.IH [OF this] show ?case by simp
qed

text \<open>What a successful \<^verbatim>\<open>Encrypt\<close> returns: a fresh nonce of 12 bytes before the sealed text.\<close>

lemma Encrypt_result:
  assumes "Encrypt X plaintext key w = (Inr c, w')"
  shows "\<exists>nonce. c = Some (nonce @ gcm_Seal X (data key) nonce plaintext []) \<and>
           length nonce = 12 \<and> len key \<in> {16, 24, 32} \<and>
           w' = w\<lparr>rand_pos := rand_pos w + 12\<rparr>"
proof -
  from assms have k: "len key \<in> {16, 24, 32}"
    by (auto simp: Encrypt_def split: if_splits)
  with assms obtain nonce pos' where
    r: "io_ReadFull 12 (rand_src w) (rand_pos w) = (Inr nonce, pos')"
    and c: "c = Some (nonce @ gcm_Seal X (data key) nonce plaintext [])"
    and w': "w' = w\<lparr>rand_pos := pos'\<rparr>"
    by (auto simp: Encrypt_def rand_read_def NonceSize_def split: prod.splits sum.splits)
  from io_ReadFull_length [OF r] io_ReadFull_pos [OF r] c w' k show ?thesis by blast
qed

lemma Encrypt_ok:
  assumes "len key \<in> {16, 24, 32}"
    and "\<forall>i<12. rand_src w (rand_pos w + i) \<noteq> None"
  shows "\<exists>nonce. length nonce = 12 \<and>
           Encrypt X plaintext key w =
             (Inr (Some (nonce @ gcm_Seal X (data key) nonce plaintext [])),
              w\<lparr>rand_pos := rand_pos w + 12\<rparr>)"
proof -
  from io_ReadFull_ok [OF assms(2)] obtain nonce where
    "io_ReadFull 12 (rand_src w) (rand_pos w) = (Inr nonce, rand_pos w + 12)"
    and "length nonce = 12" by auto
  with assms(1) show ?thesis
    by (auto simp: Encrypt_def rand_read_def NonceSize_def)
qed

lemma Decrypt_sealed:
  assumes "aead_correct X" and "len key \<in> {16, 24, 32}" and "length nonce = 12"
  shows "Decrypt X (Some (nonce @ gcm_Seal X (data key) nonce plaintext [])) key = Inr plaintext"
proof -
  from assms(2) have "length (data key) \<in> {16, 24, 32}"
    by (simp add: len_def data_def split: option.splits)
  with assms(1,3)
  have "gcm_Open X (data key) nonce (gcm_Seal X (data key) nonce plaintext []) [] = Some plaintext"
    unfolding aead_correct_def by blast
  with assms(2,3) show ?thesis
    by (simp add: Decrypt_def NonceSize_def len_def data_def)
qed

text \<open>
  Claim C2. For every plaintext \<open>x\<close> and every key \<open>k\<close> of 32 bytes, \<^verbatim>\<open>Encrypt\<close> returns a
  blob and \<^verbatim>\<open>Decrypt\<close> of that blob under \<open>k\<close> returns exactly \<open>x\<close>. The theorem assumes of
  AES-GCM that \<^verbatim>\<open>Open\<close> inverts \<^verbatim>\<open>Seal\<close>, and that the read of the 12 nonce bytes from
  \<^verbatim>\<open>crypto/rand\<close> does not fail.
\<close>

theorem Decrypt_Encrypt:
  assumes "aead_correct X" and "len k = 32"
    and "\<forall>i<12. rand_src w (rand_pos w + i) \<noteq> None"
  shows "\<exists>c w'. Encrypt X x k w = (Inr c, w') \<and> Decrypt X c k = Inr x"
proof -
  from assms(2) have k: "len k \<in> {16, 24, 32}" by simp
  from Encrypt_ok [OF k assms(3)] obtain nonce where
    "length nonce = 12" and
    "Encrypt X x k w = (Inr (Some (nonce @ gcm_Seal X (data k) nonce x [])),
                        w\<lparr>rand_pos := rand_pos w + 12\<rparr>)" by blast
  with Decrypt_sealed [OF assms(1) k] show ?thesis by blast
qed

theorem Decrypt_Encrypt_witness:
  "aead_correct ref_ext \<and> len (Some (replicate 32 (CHR ''k''))) = 32 \<and>
   (\<exists>c w'. Encrypt ref_ext ''p@ssW0rd!'' (Some (replicate 32 (CHR ''k''))) world0 = (Inr c, w') \<and>
            Decrypt ref_ext c (Some (replicate 32 (CHR ''k''))) = Inr ''p@ssW0rd!'')"
proof -
  have k: "len (Some (replicate 32 (CHR ''k''))) = 32" by (simp add: len_def)
  have r: "\<forall>i<12. rand_src world0 (rand_pos world0 + i) \<noteq> None" by (simp add: world0_def)
  from Decrypt_Encrypt [OF ref_aead_correct k r, of "''p@ssW0rd!''"] ref_aead_correct k r
  show ?thesis by blast
qed

lemma DeriveKey_key:
  "kdf_length X \<Longrightarrow> \<exists>key. DeriveKey X password salt = Inr (Some key) \<and> length key = 32"
  by (simp add: DeriveKey_def kdf_length_def argonKeyLen_def)

text \<open>
  Claim C8, as the code has it. \<^verbatim>\<open>DeriveKey\<close> has no error path at all: it passes the salt
  to \<^verbatim>\<open>argon2.IDKey\<close> whatever its length and returns the key with a nil error. For every
  password and every salt, the empty salt and the nil salt included, the result is the key
  that Argon2id computes from the password and the salt with time 3, memory 64 MiB,
  4 threads and key length 32, and that key has 32 bytes since \<^verbatim>\<open>argon2.IDKey\<close> returns
  \<^verbatim>\<open>keyLen\<close> bytes.
\<close>

theorem DeriveKey_never_fails:
  assumes "kdf_length X"
  shows "DeriveKey X password salt =
           Inr (Some (argon2_IDKey X password (data salt) 3 (64 * 1024) 4 32)) \<and>
         length (argon2_IDKey X password (data salt) 3 (64 * 1024) 4 32) = 32"
  using assms
  by (simp add: DeriveKey_def kdf_length_def argonTime_def argonMemory_def argonThreads_def
      argonKeyLen_def)

theorem DeriveKey_never_fails_witness:
  "kdf_length ref_ext \<and>
   DeriveKey ref_ext ''CorrectHorse1'' (Some ''0123456789abcdef'') =
     Inr (Some (argon2_IDKey ref_ext ''CorrectHorse1'' ''0123456789abcdef'' 3 (64 * 1024) 4 32)) \<and>
   length (argon2_IDKey ref_ext ''CorrectHorse1'' ''0123456789abcdef'' 3 (64 * 1024) 4 32) = 32"
  using DeriveKey_never_fails [OF ref_kdf_length, of "''CorrectHorse1''" "Some ''0123456789abcdef''"]
    ref_kdf_length by (simp add: data_def)

text \<open>
  The claim as stated fails: neither the empty salt nor the nil salt is in the range the
  claim calls valid, and for both \<^verbatim>\<open>DeriveKey\<close> returns no error but the key of Argon2id
  for the empty salt.
\<close>

theorem DeriveKey_empty_salt_counterexample:
  "len (Some []) \<noteq> 16 \<and> len None \<noteq> 16 \<and>
   DeriveKey ref_ext ''CorrectHorse1'' (Some []) =
     Inr (Some (argon2_IDKey ref_ext ''CorrectHorse1'' [] 3 (64 * 1024) 4 32)) \<and>
   DeriveKey ref_ext ''CorrectHorse1'' None =
     Inr (Some (argon2_IDKey ref_ext ''CorrectHorse1'' [] 3 (64 * 1024) 4 32))"
  by (simp add: len_def data_def DeriveKey_def argonTime_def argonMemory_def argonThreads_def
      argonKeyLen_def)

section \<open>Properties of the vault lifecycle\<close>

lemma io_healthy: "healthy w \<Longrightarrow> io ev w = (False, after_io ev w)"
  by (cases "faults w") (auto simp: healthy_def io_def after_io_def)

lemma healthy_after_io [simp]: "healthy w \<Longrightarrow> healthy (after_io ev w)"
  by (cases "faults w") (auto simp: healthy_def after_io_def)

lemma healthy_update [simp]:
  "healthy (w\<lparr>rand_pos := p\<rparr>) = healthy w"
  "healthy (w\<lparr>config := c\<rparr>) = healthy w"
  "healthy (w\<lparr>passwords := ps\<rparr>) = healthy w"
  "healthy (w\<lparr>sqlite_sequence := n\<rparr>) = healthy w"
  "healthy (w\<lparr>files := fs\<rparr>) = healthy w"
  by (simp_all add: healthy_def)

lemma after_io_fields [simp]:
  "config (after_io ev w) = config w"
  "passwords (after_io ev w) = passwords w"
  "sqlite_sequence (after_io ev w) = sqlite_sequence w"
  "current_timestamp (after_io ev w) = current_timestamp w"
  "files (after_io ev w) = files w"
  "rand_src (after_io ev w) = rand_src w"
  "rand_pos (after_io ev w) = rand_pos w"
  "time_Now (after_io ev w) = time_Now w"
  by (simp_all add: after_io_def)

lemma io_tables:
  "io ev w = (f, w') \<Longrightarrow> config w' = config w \<and> passwords w' = passwords w \<and>
     sqlite_sequence w' = sqlite_sequence w \<and> files w' = files w \<and>
     rand_src w' = rand_src w \<and> rand_pos w' = rand_pos w \<and> time_Now w' = time_Now w \<and>
     current_timestamp w' = current_timestamp w"
  by (auto simp: io_def split: list.splits)

lemma GetSalt_ok:
  "db s \<Longrightarrow> healthy w \<Longrightarrow> config w ''salt'' = Some salt \<Longrightarrow>
     SQLiteStorage_GetSalt s w = (Inr salt, after_io (ConfigSelect ''salt'') w)"
  by (simp add: SQLiteStorage_GetSalt_def io_healthy)

lemma GetTestVector_ok:
  "db s \<Longrightarrow> healthy w \<Longrightarrow>
     SQLiteStorage_GetTestVector s w =
       (Inr (case config w ''test_vector'' of None \<Rightarrow> None | Some tv \<Rightarrow> tv),
        after_io (ConfigSelect ''test_vector'') w)"
  by (simp add: SQLiteStorage_GetTestVector_def io_healthy split: option.splits)

lemma VerifyKey_nil: "VerifyKey X key None = Inr False"
  by (simp add: VerifyKey_def Decrypt_def len_def NonceSize_def)

lemma Decrypt_nil:
  "len key \<in> {16, 24, 32} \<Longrightarrow> Decrypt X None key = Inl CiphertextTooShort"
  by (simp add: Decrypt_def len_def NonceSize_def)

lemma UnlockVault_rejects:
  assumes "db (storage pm)" and "healthy w" and "config w ''salt'' = Some salt"
    and "DeriveKey X q salt = Inr key"
    and "VerifyKey X key (case config w ''test_vector'' of None \<Rightarrow> None | Some tv \<Rightarrow> tv) = Inr False"
  shows "PasswordManager_UnlockVault X q (pm, w) =
           (Inl InvalidCredential, pm,
            after_io (ConfigSelect ''test_vector'') (after_io (ConfigSelect ''salt'') w))"
  using assms
  by (simp add: PasswordManager_UnlockVault_def GetSalt_ok GetTestVector_ok)

lemma UnlockVault_accepts:
  assumes "db (storage pm)" and "healthy w" and "config w ''salt'' = Some salt"
    and "DeriveKey X q salt = Inr key"
    and "VerifyKey X key (case config w ''test_vector'' of None \<Rightarrow> None | Some tv \<Rightarrow> tv) = Inr True"
  shows "PasswordManager_UnlockVault X q (pm, w) =
           (Inr (), pm\<lparr>masterKey := key, initialized := True, lastActivity := Some (time_Now w)\<rparr>,
            after_io (ConfigSelect ''test_vector'') (after_io (ConfigSelect ''salt'') w))"
  using assms
  by (simp add: PasswordManager_UnlockVault_def GetSalt_ok GetTestVector_ok updateLastActivity_def)


lemma SaveSalt_success:
  "SQLiteStorage_SaveSalt s salt w = (Inr u, w') \<Longrightarrow>
     db s \<and> config w' = (config w)(''salt'' \<mapsto> salt)"
  by (auto simp: SQLiteStorage_SaveSalt_def split: if_splits prod.splits bool.splits
        dest: io_tables)

lemma SaveTestVector_success:
  "SQLiteStorage_SaveTestVector s v w = (Inr u, w') \<Longrightarrow>
     db s \<and> config w' = (config w)(''test_vector'' \<mapsto> v) \<and> time_Now w' = time_Now w"
  by (auto simp: SQLiteStorage_SaveTestVector_def split: if_splits prod.splits bool.splits
        dest: io_tables)

lemma CreateMasterPassword_success:
  assumes "PasswordManager_CreateMasterPassword X p (pm, w) = (Inr u, pm1, w1)"
  shows "\<exists>salt key nonce.
           config w1 ''salt'' = Some salt \<and>
           DeriveKey X p salt = Inr key \<and> len key \<in> {16, 24, 32} \<and> length nonce = 12 \<and>
           config w1 ''test_vector'' = Some (Some (nonce @ gcm_Seal X (data key) nonce testData [])) \<and>
           db (storage pm) \<and>
           pm1 = pm\<lparr>masterKey := key, initialized := True, lastActivity := Some (time_Now w1)\<rparr>"
proof -
  from assms obtain salt wa wb key enc wc where
    ss: "SQLiteStorage_SaveSalt (storage pm) salt wa = (Inr (), wb)" and
    dk: "DeriveKey X p salt = Inr key" and
    en: "Encrypt X testData key wb = (Inr enc, wc)" and
    st: "SQLiteStorage_SaveTestVector (storage pm) enc wc = (Inr (), w1)" and
    pm1: "pm1 = updateLastActivity (pm\<lparr>masterKey := key, initialized := True\<rparr>) w1"
    by (auto simp: PasswordManager_CreateMasterPassword_def Let_def
          split: prod.splits sum.splits)
  from Encrypt_result [OF en] obtain nonce where
    enc: "enc = Some (nonce @ gcm_Seal X (data key) nonce testData [])" and
    n: "length nonce = 12" and k: "len key \<in> {16, 24, 32}" and
    wc: "wc = wb\<lparr>rand_pos := rand_pos wb + 12\<rparr>" by blast
  from SaveSalt_success [OF ss] have d: "db (storage pm)"
    and cb: "config wb = (config wa)(''salt'' \<mapsto> salt)" by simp_all
  from SaveTestVector_success [OF st] have
    c1: "config w1 = (config wc)(''test_vector'' \<mapsto> enc)" by simp
  from cb c1 wc have "config w1 ''salt'' = Some salt" "config w1 ''test_vector'' = Some enc"
    by simp_all
  with dk k n enc d pm1 show ?thesis
    by (auto simp: updateLastActivity_def)
qed

lemma GenerateSalt_ok:
  assumes "\<forall>i<16. rand_src w (rand_pos w + i) \<noteq> None"
  shows "\<exists>salt. length salt = 16 \<and>
           GenerateSalt w = (Inr (Some salt), w\<lparr>rand_pos := rand_pos w + 16\<rparr>)"
proof -
  from io_ReadFull_ok [OF assms] obtain salt where
    "io_ReadFull 16 (rand_src w) (rand_pos w) = (Inr salt, rand_pos w + 16)"
    and "length salt = 16" by auto
  then show ?thesis by (auto simp: GenerateSalt_def rand_read_def)
qed

lemma SaveSalt_ok:
  "db s \<Longrightarrow> healthy w \<Longrightarrow>
     SQLiteStorage_SaveSalt s salt w =
       (Inr (), (after_io (ConfigReplace ''salt'') w)\<lparr>config := (config w)(''salt'' \<mapsto> salt)\<rparr>)"
  by (simp add: SQLiteStorage_SaveSalt_def io_healthy)

lemma SaveTestVector_ok:
  "db s \<Longrightarrow> healthy w \<Longrightarrow>
     SQLiteStorage_SaveTestVector s v w =
       (Inr (), (after_io (ConfigReplace ''test_vector'') w)
                  \<lparr>config := (config w)(''test_vector'' \<mapsto> v)\<rparr>)"
  by (simp add: SQLiteStorage_SaveTestVector_def io_healthy)

lemma CreateMasterPassword_ok:
  assumes "kdf_length X" and "db (storage pm)" and "healthy w"
    and "\<forall>i<28. rand_src w (rand_pos w + i) \<noteq> None"
  shows "\<exists>pm1 w1. PasswordManager_CreateMasterPassword X p (pm, w) = (Inr (), pm1, w1) \<and>
           healthy w1"
proof -
  have r16: "\<forall>i<16. rand_src w (rand_pos w + i) \<noteq> None" using assms(4) by simp
  define wa where "wa = w\<lparr>rand_pos := rand_pos w + 16\<rparr>"
  from GenerateSalt_ok [OF r16] obtain salt where
    gs: "GenerateSalt w = (Inr (Some salt), wa)" unfolding wa_def by blast
  have ha: "healthy wa" using assms(3) by (simp add: wa_def)
  define wb where "wb = (after_io (ConfigReplace ''salt'') wa)\<lparr>config := (config wa)(''salt'' \<mapsto> Some salt)\<rparr>"
  have ss: "SQLiteStorage_SaveSalt (storage pm) (Some salt) wa = (Inr (), wb)"
    unfolding wb_def by (rule SaveSalt_ok [OF assms(2) ha])
  have hb: "healthy wb" using ha by (simp add: wb_def)
  from DeriveKey_key [OF assms(1), of p "Some salt"] obtain key where
    dk: "DeriveKey X p (Some salt) = Inr (Some key)" and kl: "length key = 32" by blast
  have k: "len (Some key) \<in> {16, 24, 32}" using kl by (simp add: len_def)
  have r12: "\<forall>i<12. rand_src wb (rand_pos wb + i) \<noteq> None"
  proof (intro allI impI)
    fix i :: nat assume "i < 12"
    then have "16 + i < 28" by simp
    with assms(4) have "rand_src w (rand_pos w + (16 + i)) \<noteq> None" by blast
    then show "rand_src wb (rand_pos wb + i) \<noteq> None" by (simp add: wb_def wa_def add.assoc)
  qed
  define wc where "wc = wb\<lparr>rand_pos := rand_pos wb + 12\<rparr>"
  from Encrypt_ok [OF k r12, of X testData] obtain enc where
    en: "Encrypt X testData (Some key) wb = (Inr enc, wc)" unfolding wc_def by blast
  have hc: "healthy wc" using hb by (simp add: wc_def)
  define wd where "wd = (after_io (ConfigReplace ''test_vector'') wc)
                 \<lparr>config := (config wc)(''test_vector'' \<mapsto> enc)\<rparr>"
  have st: "SQLiteStorage_SaveTestVector (storage pm) enc wc = (Inr (), wd)"
    unfolding wd_def by (rule SaveTestVector_ok [OF assms(2) hc])
  have hd: "healthy wd" using hc by (simp add: wd_def)
  have "PasswordManager_CreateMasterPassword X p (pm, w) =
          (Inr (), updateLastActivity (pm\<lparr>masterKey := Some key, initialized := True\<rparr>) wd, wd)"
    unfolding PasswordManager_CreateMasterPassword_def
    by (simp add: gs ss dk en st)
  with hd show ?thesis by blast
qed

lemma ref_Decrypt_wrong_key:
  assumes "length nonce = 12" and "length key = 32" and "length key' = 32"
    and "take 4 key \<noteq> take 4 key'"
  shows "Decrypt ref_ext (Some (nonce @ gcm_Seal ref_ext key nonce plaintext [])) (Some key')
           = Inl AuthenticationFailure"
proof -
  have t: "ref_tag key nonce = nonce @ take 4 key" "ref_tag key' nonce = nonce @ take 4 key'"
    using assms(1,2,3) by (simp_all add: ref_tag_def)
  have "ref_Open key' nonce (rev plaintext @ ref_tag key nonce) [] = None"
    using assms(1,2,3,4) by (simp add: ref_Open_def t)
  then show ?thesis
    using assms(1,3)
    by (simp add: Decrypt_def len_def data_def NonceSize_def ref_ext_def ref_Seal_def)
qed

text \<open>
  Claim C1. Each of the eight operations on records (\<^verbatim>\<open>AddPassword\<close>, \<^verbatim>\<open>GetPassword\<close>,
  \<^verbatim>\<open>GetAllPasswords\<close>, \<^verbatim>\<open>UpdatePassword\<close>, \<^verbatim>\<open>DeletePassword\<close>, \<^verbatim>\<open>SearchPasswords\<close>,
  \<^verbatim>\<open>ExportVault\<close>, \<^verbatim>\<open>ImportVault\<close>), called on a manager whose \<^verbatim>\<open>initialized\<close> flag is
  false, returns the error of a vault that is not unlocked. The manager is returned as it
  was, key included, and so is the world: no table, no file, no random byte and no entry of
  the I/O trace differs, so no statement reached the database.
\<close>

theorem locked_operations_fail:
  assumes "\<not> initialized pm"
  shows "PasswordManager_AddPassword X entry (pm, w) = (Inl NotUnlocked, pm, w) \<and>
         PasswordManager_GetPassword X i (pm, w) = (Inl NotUnlocked, pm, w) \<and>
         PasswordManager_GetAllPasswords X (pm, w) = (Inl NotUnlocked, pm, w) \<and>
         PasswordManager_UpdatePassword X entry (pm, w) = (Inl NotUnlocked, pm, w) \<and>
         PasswordManager_DeletePassword i (pm, w) = (Inl NotUnlocked, pm, w) \<and>
         PasswordManager_SearchPasswords X params (pm, w) = (Inl NotUnlocked, pm, w) \<and>
         PasswordManager_ExportVault X filename (pm, w) = (Inl NotUnlocked, pm, w) \<and>
         PasswordManager_ImportVault X filename (pm, w) = (Inl NotUnlocked, pm, w)"
  using assms
  by (simp add: PasswordManager_AddPassword_def PasswordManager_GetPassword_def
      PasswordManager_GetAllPasswords_def PasswordManager_UpdatePassword_def
      PasswordManager_DeletePassword_def PasswordManager_SearchPasswords_def
      PasswordManager_ExportVault_def PasswordManager_ImportVault_def)

theorem locked_operations_fail_witness:
  "PasswordManager_AddPassword ref_ext entry0 (pm0, world0) = (Inl NotUnlocked, pm0, world0) \<and>
   PasswordManager_GetPassword ref_ext 1 (pm0, world0) = (Inl NotUnlocked, pm0, world0) \<and>
   PasswordManager_GetAllPasswords ref_ext (pm0, world0) = (Inl NotUnlocked, pm0, world0) \<and>
   PasswordManager_UpdatePassword ref_ext entry0 (pm0, world0) = (Inl NotUnlocked, pm0, world0) \<and>
   PasswordManager_DeletePassword 1 (pm0, world0) = (Inl NotUnlocked, pm0, world0) \<and>
   PasswordManager_SearchPasswords ref_ext params0 (pm0, world0) = (Inl NotUnlocked, pm0, world0) \<and>
   PasswordManager_ExportVault ref_ext ''backup.enc'' (pm0, world0) = (Inl NotUnlocked, pm0, world0) \<and>
   PasswordManager_ImportVault ref_ext ''backup.enc'' (pm0, world0) = (Inl NotUnlocked, pm0, world0)"
proof -
  have "\<not> initialized pm0" by (simp add: pm0_def)
  from locked_operations_fail [OF this] show ?thesis .
qed

text \<open>
  Claim C3. Let a vault be created with master password \<open>p\<close>. On any later state of the
  world with the same configuration table and no I/O fault, \<^verbatim>\<open>UnlockVault\<close> with \<open>p\<close> succeeds
  and leaves the manager initialized with the key that the creation derived. For every
  password \<open>q\<close> whose derived key \<^verbatim>\<open>VerifyKey\<close> rejects against the stored test vector,
  \<^verbatim>\<open>UnlockVault\<close> returns the error of an invalid master password and the manager is
  returned unchanged: a locked manager stays locked and holds no key. The theorem assumes of
  AES-GCM that \<^verbatim>\<open>Open\<close> inverts \<^verbatim>\<open>Seal\<close>.
\<close>

theorem UnlockVault_authenticates:
  assumes "aead_correct X"
    and "PasswordManager_CreateMasterPassword X p (pmc, wc) = (Inr (), pm1, w1)"
    and "config w = config w1" and "healthy w" and "db (storage pm)"
  shows "(\<exists>w'. PasswordManager_UnlockVault X p (pm, w) =
                  (Inr (), pm\<lparr>masterKey := masterKey pm1, initialized := True,
                               lastActivity := Some (time_Now w)\<rparr>, w')) \<and>
         masterKey pm1 \<noteq> None \<and> \<not> IsLocked pm1 \<and>
         (\<forall>q salt tv key.
            config w ''salt'' = Some salt \<and> config w ''test_vector'' = Some tv \<and>
            DeriveKey X q salt = Inr key \<and> VerifyKey X key tv = Inr False \<longrightarrow>
            (\<exists>w'. PasswordManager_UnlockVault X q (pm, w) = (Inl InvalidCredential, pm, w')))"
proof -
  from CreateMasterPassword_success [OF assms(2)] obtain salt key nonce where
    s: "config w1 ''salt'' = Some salt" and dk: "DeriveKey X p salt = Inr key" and
    k: "len key \<in> {16, 24, 32}" and n: "length nonce = 12" and
    tv: "config w1 ''test_vector'' = Some (Some (nonce @ gcm_Seal X (data key) nonce testData []))"
    and pm1: "pm1 = pmc\<lparr>masterKey := key, initialized := True, lastActivity := Some (time_Now w1)\<rparr>"
    by blast
  have v: "VerifyKey X key (case config w ''test_vector'' of None \<Rightarrow> None | Some tv \<Rightarrow> tv)
             = Inr True"
    using Decrypt_sealed [OF assms(1) k n] tv assms(3) by (simp add: VerifyKey_def)
  from s assms(3) have s': "config w ''salt'' = Some salt" by simp
  have mk: "masterKey pm1 = key" by (simp add: pm1)
  from k have kn: "key \<noteq> None" by (cases key) (simp_all add: len_def)
  have a: "\<exists>w'. PasswordManager_UnlockVault X p (pm, w) =
                  (Inr (), pm\<lparr>masterKey := masterKey pm1, initialized := True,
                               lastActivity := Some (time_Now w)\<rparr>, w')"
    using UnlockVault_accepts [OF assms(5,4) s' dk v] mk by simp
  have b: "\<forall>q salt tv key.
            config w ''salt'' = Some salt \<and> config w ''test_vector'' = Some tv \<and>
            DeriveKey X q salt = Inr key \<and> VerifyKey X key tv = Inr False \<longrightarrow>
            (\<exists>w'. PasswordManager_UnlockVault X q (pm, w) = (Inl InvalidCredential, pm, w'))"
  proof (intro allI impI)
    fix q salt' tv' key'
    assume h: "config w ''salt'' = Some salt' \<and> config w ''test_vector'' = Some tv' \<and>
            DeriveKey X q salt' = Inr key' \<and> VerifyKey X key' tv' = Inr False"
    then have "VerifyKey X key' (case config w ''test_vector'' of None \<Rightarrow> None | Some tv \<Rightarrow> tv)
                 = Inr False" by simp
    with UnlockVault_rejects [OF assms(5,4), of salt' X q key'] h
    show "\<exists>w'. PasswordManager_UnlockVault X q (pm, w) = (Inl InvalidCredential, pm, w')"
      by blast
  qed
  from a b kn mk show ?thesis by (simp add: IsLocked_def pm1)
qed

theorem UnlockVault_authenticates_witness:
  "\<exists>pm1 w1 w' w''.
     PasswordManager_CreateMasterPassword ref_ext ''CorrectHorse1'' (pm0, world0) = (Inr (), pm1, w1) \<and>
     \<not> IsLocked pm1 \<and> IsLocked (Lock pm1) \<and> masterKey (Lock pm1) = None \<and>
     PasswordManager_UnlockVault ref_ext ''CorrectHorse1'' (Lock pm1, w1) =
       (Inr (), pm1\<lparr>lastActivity := Some (time_Now w1)\<rparr>, w') \<and>
     PasswordManager_UnlockVault ref_ext ''WrongPass'' (Lock pm1, w1) =
       (Inl InvalidCredential, Lock pm1, w'')"
proof -
  have d0: "db (storage pm0)" by (simp add: pm0_def)
  have h0: "healthy world0" by (simp add: healthy_def world0_def)
  have r0: "\<forall>i<28. rand_src world0 (rand_pos world0 + i) \<noteq> None" by (simp add: world0_def)
  from CreateMasterPassword_ok [OF ref_kdf_length d0 h0 r0, of "''CorrectHorse1''"]
  obtain pm1 w1 where
    c: "PasswordManager_CreateMasterPassword ref_ext ''CorrectHorse1'' (pm0, world0) = (Inr (), pm1, w1)"
    and h1: "healthy w1" by blast
  from CreateMasterPassword_success [OF c] obtain salt key nonce where
    s: "config w1 ''salt'' = Some salt" and
    dk: "DeriveKey ref_ext ''CorrectHorse1'' salt = Inr key" and
    n: "length nonce = 12" and
    tv: "config w1 ''test_vector'' = Some (Some (nonce @ gcm_Seal ref_ext (data key) nonce testData []))"
    and pm1: "pm1 = pm0\<lparr>masterKey := key, initialized := True, lastActivity := Some (time_Now w1)\<rparr>"
    by blast
  have d1: "db (storage (Lock pm1))" using d0 by (simp add: pm1 Lock_def)
  note th = UnlockVault_authenticates [OF ref_aead_correct c refl h1 d1]
  have e: "(Lock pm1)\<lparr>masterKey := masterKey pm1, initialized := True,
                        lastActivity := Some (time_Now w1)\<rparr>
             = pm1\<lparr>lastActivity := Some (time_Now w1)\<rparr>"
    by (simp add: pm1 Lock_def)
  from th e obtain w' where
    u: "PasswordManager_UnlockVault ref_ext ''CorrectHorse1'' (Lock pm1, w1) =
          (Inr (), pm1\<lparr>lastActivity := Some (time_Now w1)\<rparr>, w')" by auto
  from th have nl: "\<not> IsLocked pm1" by blast
  let ?k = "ref_IDKey ''CorrectHorse1'' (data salt) argonTime argonMemory argonThreads argonKeyLen"
  let ?k' = "ref_IDKey ''WrongPass'' (data salt) argonTime argonMemory argonThreads argonKeyLen"
  have key: "key = Some ?k" using dk by (simp add: DeriveKey_def ref_ext_def)
  have dk': "DeriveKey ref_ext ''WrongPass'' salt = Inr (Some ?k')"
    by (simp add: DeriveKey_def ref_ext_def)
  have l: "length ?k = 32" "length ?k' = 32"
    by (simp_all add: ref_IDKey_def argonKeyLen_def)
  have t4: "take 4 ?k \<noteq> take 4 ?k'" by (simp add: ref_IDKey_def argonKeyLen_def)
  have "VerifyKey ref_ext (Some ?k') (Some (nonce @ gcm_Seal ref_ext (data key) nonce testData []))
          = Inr False"
    using ref_Decrypt_wrong_key [OF n l t4] by (simp add: VerifyKey_def key data_def)
  with th s tv dk' obtain w'' where
    "PasswordManager_UnlockVault ref_ext ''WrongPass'' (Lock pm1, w1) =
       (Inl InvalidCredential, Lock pm1, w'')" by blast
  moreover have "IsLocked (Lock pm1) \<and> masterKey (Lock pm1) = None"
    by (simp add: IsLocked_def Lock_def)
  ultimately show ?thesis using c u nl by blast
qed

text \<open>
  Claim C10. Let the configuration table hold a salt and no \<^verbatim>\<open>test_vector\<close> row, and let
  no I/O fault occur. Then \<^verbatim>\<open>GetTestVector\<close> returns a nil vector and no error,
  \<^verbatim>\<open>VerifyKey\<close> of any key against the nil vector is false (for a key of a valid AES length
  because \<^verbatim>\<open>Decrypt\<close> finds the blob shorter than a nonce), and \<^verbatim>\<open>UnlockVault\<close> with any
  password returns the error of an invalid master password, with the manager, the
  configuration and the records unchanged.
\<close>

theorem UnlockVault_without_test_vector:
  assumes "db (storage pm)" and "healthy w"
    and "config w ''salt'' = Some salt" and "config w ''test_vector'' = None"
  shows "(\<exists>w'. SQLiteStorage_GetTestVector (storage pm) w = (Inr None, w')) \<and>
         VerifyKey X key None = Inr False \<and>
         (len key \<in> {16, 24, 32} \<longrightarrow> Decrypt X None key = Inl CiphertextTooShort) \<and>
         (\<exists>w'. PasswordManager_UnlockVault X q (pm, w) = (Inl InvalidCredential, pm, w') \<and>
               config w' = config w \<and> passwords w' = passwords w)"
proof -
  have dk: "DeriveKey X q salt =
      Inr (Some (argon2_IDKey X q (data salt) argonTime argonMemory argonThreads argonKeyLen))"
    by (simp add: DeriveKey_def)
  have v: "VerifyKey X (Some (argon2_IDKey X q (data salt) argonTime argonMemory argonThreads argonKeyLen))
            (case config w ''test_vector'' of None \<Rightarrow> None | Some tv \<Rightarrow> tv) = Inr False"
    using assms(4) by (simp add: VerifyKey_nil)
  from UnlockVault_rejects [OF assms(1,2,3) dk v] GetTestVector_ok [OF assms(1,2)] assms(4)
  show ?thesis
    by (simp add: VerifyKey_nil Decrypt_nil)
qed

theorem UnlockVault_without_test_vector_witness:
  "(\<exists>w'. SQLiteStorage_GetTestVector (storage pm0) world_salt_only = (Inr None, w')) \<and>
   VerifyKey ref_ext (Some (replicate 32 (CHR ''k''))) None = Inr False \<and>
   Decrypt ref_ext None (Some (replicate 32 (CHR ''k''))) = Inl CiphertextTooShort \<and>
   (\<exists>w'. PasswordManager_UnlockVault ref_ext ''CorrectHorse1'' (pm0, world_salt_only) =
           (Inl InvalidCredential, pm0, w'))"
proof -
  have d: "db (storage pm0)" by (simp add: pm0_def)
  have h: "healthy world_salt_only" by (simp add: healthy_def world_salt_only_def world0_def)
  have s: "config world_salt_only ''salt'' = Some (Some ''0123456789abcdef'')"
    by (simp add: world_salt_only_def)
  have t: "config world_salt_only ''test_vector'' = None"
    by (simp add: world_salt_only_def)
  have k: "len (Some (replicate 32 (CHR ''k''))) \<in> {16, 24, 32}" by (simp add: len_def)
  from UnlockVault_without_test_vector [OF d h s t, of ref_ext "Some (replicate 32 (CHR ''k''))"
      "''CorrectHorse1''"] k
  show ?thesis by blast
qed

section \<open>Properties of the records\<close>

lemma ref_tag_length: "length (ref_tag key nonce) = 16"
  by (simp add: ref_tag_def)

lemma ref_seal_length: "seal_length ref_ext"
  by (simp add: seal_length_def ref_ext_def ref_Seal_def ref_tag_length)

lemma ref_row_limit: "sqlite_row_limit ref_ext"
  by (simp add: sqlite_row_limit_def ref_ext_def SQLITE_MAX_LENGTH_def)

lemma fold_max_ge: "(a::int) \<le> fold max xs a"
proof (induction xs arbitrary: a)
  case Nil
  then show ?case by simp
next
  case (Cons x xs)
  have "a \<le> max x a" by simp
  also have "\<dots> \<le> fold max xs (max x a)" by (rule Cons.IH)
  finally show ?case by simp
qed

lemma fold_max_mem: "x \<in> set xs \<Longrightarrow> (x::int) \<le> fold max xs a"
proof (induction xs arbitrary: a)
  case Nil
  then show ?case by simp
next
  case (Cons y ys)
  show ?case
  proof (cases "x = y")
    case True
    have "x \<le> max y a" using True by simp
    also have "\<dots> \<le> fold max ys (max y a)" by (rule fold_max_ge)
    finally show ?thesis by simp
  next
    case False
    with Cons.prems have "x \<in> set ys" by simp
    from Cons.IH [OF this] show ?thesis by simp
  qed
qed

lemma next_rowid_fresh: "r \<in> set (passwords w) \<Longrightarrow> col_id r < next_rowid w"
proof -
  assume "r \<in> set (passwords w)"
  then have "col_id r \<in> set (map col_id (passwords w))" by simp
  from fold_max_mem [OF this] show ?thesis by (simp add: next_rowid_def)
qed

lemma fold_max_bound: "\<forall>x\<in>set xs. x \<le> a \<Longrightarrow> fold max xs (a::int) = a"
  by (induction xs) (simp_all add: max_absorb2)

lemma next_rowid_insert:
  assumes "col_id r = next_rowid w"
  shows "next_rowid (w\<lparr>passwords := passwords w @ [r], sqlite_sequence := next_rowid w\<rparr>)
           = next_rowid w + 1"
proof -
  have "\<forall>x\<in>set (map col_id (passwords w)). x \<le> next_rowid w"
    using next_rowid_fresh [of _ w] by fastforce
  from fold_max_bound [OF this] show ?thesis
    by (simp add: next_rowid_def [of "w\<lparr>passwords := _, sqlite_sequence := _\<rparr>"] assms)
qed

lemma find_unique:
  "r \<in> set rows \<Longrightarrow> P r \<Longrightarrow> \<forall>x\<in>set rows. P x \<longrightarrow> x = r \<Longrightarrow> find P rows = Some r"
proof (induction rows)
  case Nil
  then show ?case by simp
next
  case (Cons x xs)
  show ?case
  proof (cases "P x")
    case True
    with Cons.prems(3) have "x = r" by simp
    with True show ?thesis by simp
  next
    case False
    with Cons.prems(1,2) have "r \<in> set xs" by (cases "r = x") simp_all
    moreover from Cons.prems(3) have "\<forall>y\<in>set xs. P y \<longrightarrow> y = r" by simp
    ultimately have "find P xs = Some r" using Cons.IH Cons.prems(2) by blast
    with False show ?thesis by simp
  qed
qed

lemma next_rowid_after_io [simp]: "next_rowid (after_io ev w) = next_rowid w"
  by (simp add: next_rowid_def)

lemma numeric_real_not_null: "numeric_real r \<noteq> SNull"
  by (simp add: numeric_real_def)

lemma cell_bytes_numeric_real: "cell_bytes (numeric_real r) = 8"
  by (simp add: numeric_real_def)

lemma store_numeric_text_not_null: "store_numeric X (SText s) \<noteq> SNull"
  by (simp add: numeric_real_not_null split: option.splits sum.splits)

lemma cell_bytes_store_numeric: "cell_bytes (store_numeric X (SText s)) \<le> 8 + length s"
  by (simp add: cell_bytes_numeric_real split: option.splits sum.splits)

lemma scan_timestamp_some: "v \<noteq> SNull \<Longrightarrow> scan_timestamp X v = Some (timestamp_text X v)"
  by (cases v) simp_all

lemma scan_timestamp_stored:
  "scan_timestamp X (store_numeric X (SText s)) =
     Some (timestamp_text X (store_numeric X (SText s)))"
  by (rule scan_timestamp_some) (rule store_numeric_text_not_null)

lemma storage_AddPassword_ok:
  assumes "db s" and "healthy w" and "next_rowid w \<le> max_rowid"
    and "\<not> value_toobig [SText (Title entry), SText (URL entry), SText (Username entry),
            bind_bytes encPassword, bind_bytes encNotes, SText (PasswordEntry.Category entry),
            SText (current_timestamp w), SText (current_timestamp w)]"
    and "\<not> sqlite_row_toobig X [SNull, SText (Title entry), SText (URL entry),
            SText (Username entry), bind_bytes encPassword, bind_bytes encNotes,
            SText (PasswordEntry.Category entry),
            store_numeric X (SText (current_timestamp w)),
            store_numeric X (SText (current_timestamp w))]"
  shows "SQLiteStorage_AddPassword X s entry encPassword encNotes w =
           (Inr (next_rowid w),
            (after_io PasswordsInsert w)
              \<lparr>passwords := passwords w @
                 [\<lparr>col_id = next_rowid w, col_title = SText (Title entry),
                   col_url = SText (URL entry), col_username = SText (Username entry),
                   col_password = bind_bytes encPassword, col_notes = bind_bytes encNotes,
                   col_category = SText (PasswordEntry.Category entry),
                   col_created_at = store_numeric X (SText (current_timestamp w)),
                   col_updated_at = store_numeric X (SText (current_timestamp w))\<rparr>],
               sqlite_sequence := next_rowid w\<rparr>)"
  using assms
  by (simp add: SQLiteStorage_AddPassword_def io_healthy insert_password_def Let_def
      del: store_numeric.simps)

lemma storage_GetPassword_found:
  assumes "db s" and "healthy w" and "r \<in> set (passwords w)"
    and "\<forall>x\<in>set (passwords w). col_id x = col_id r \<longrightarrow> x = r"
    and "scan_row X r = Some res"
  shows "SQLiteStorage_GetPassword X s (col_id r) w = (Inr res, after_io PasswordsSelect w)"
proof -
  have "find (\<lambda>x. col_id x = col_id r) (passwords w) = Some r"
    using assms(3,4) by (intro find_unique) simp_all
  with assms(1,2,5) show ?thesis
    by (simp add: SQLiteStorage_GetPassword_def io_healthy)
qed

text \<open>What \<^verbatim>\<open>AddPassword\<close> does on an unlocked vault, and what the world is afterwards.\<close>

lemma AddPassword_ok:
  assumes "seal_length X" and "sqlite_row_limit X"
    and "initialized pm" and "db (storage pm)"
    and "len (masterKey pm) \<in> {16, 24, 32}" and "healthy w"
    and "\<forall>i<24. rand_src w (rand_pos w + i) \<noteq> None"
    and "next_rowid w \<le> max_rowid"
    and "length (Title entry) + length (URL entry) + length (Username entry)
           + length (Password entry) + length (Notes entry)
           + length (PasswordEntry.Category entry) + 2 * length (current_timestamp w)
         \<le> 999000000"
  shows "\<exists>w1 r n1 encNotes e0.
           PasswordManager_AddPassword X entry (pm, w) =
             (Inr (next_rowid w), updateLastActivity pm w, w1) \<and>
           passwords w1 = passwords w @ [r] \<and> col_id r = next_rowid w \<and> length n1 = 12 \<and>
           col_password r =
             SBlob (n1 @ gcm_Seal X (data (masterKey pm)) n1 (Password entry) []) \<and>
           col_notes r = bind_bytes encNotes \<and>
           (if Notes entry = [] then encNotes = None
            else \<exists>n2. length n2 = 12 \<and>
                   encNotes =
                     Some (n2 @ gcm_Seal X (data (masterKey pm)) n2 (Notes entry) [])) \<and>
           scan_row X r =
             Some (e0, Some (n1 @ gcm_Seal X (data (masterKey pm)) n1 (Password entry) []),
                   encNotes) \<and>
           ID e0 = next_rowid w \<and> Title e0 = Title entry \<and>
           healthy w1 \<and> rand_src w1 = rand_src w \<and>
           current_timestamp w1 = current_timestamp w \<and>
           next_rowid w1 = next_rowid w + 1"
proof -
  let ?k = "masterKey pm"
  define pma where "pma = updateLastActivity pm w"
  have ka: "masterKey pma = ?k" and sa: "storage pma = storage pm"
    by (simp_all add: pma_def updateLastActivity_def)
  from assms(7) have r1: "\<forall>i<12. rand_src w (rand_pos w + i) \<noteq> None" by simp
  from Encrypt_ok [OF assms(5) r1, of X "Password entry"] obtain n1 where
    n1: "length n1 = 12" and
    e1: "Encrypt X (Password entry) ?k w =
           (Inr (Some (n1 @ gcm_Seal X (data ?k) n1 (Password entry) [])),
            w\<lparr>rand_pos := rand_pos w + 12\<rparr>)" by blast
  define wa where "wa = w\<lparr>rand_pos := rand_pos w + 12\<rparr>"
  have ha: "healthy wa" using assms(6) by (simp add: wa_def)
  have ra: "\<forall>i<12. rand_src wa (rand_pos wa + i) \<noteq> None"
  proof (intro allI impI)
    fix i :: nat assume "i < 12"
    then have "12 + i < 24" by simp
    with assms(7) have "rand_src w (rand_pos w + (12 + i)) \<noteq> None" by blast
    then show "rand_src wa (rand_pos wa + i) \<noteq> None" by (simp add: wa_def add.assoc)
  qed
  have pa: "passwords wa = passwords w" and na: "next_rowid wa = next_rowid w"
    and ta: "current_timestamp wa = current_timestamp w" and sa': "rand_src wa = rand_src w"
    by (simp_all add: wa_def next_rowid_def)
  obtain encNotes wb where
    en: "encrypt_notes X entry ?k wa = (Inr encNotes, wb)" and hb: "healthy wb" and
    pb: "passwords wb = passwords w" and nb: "next_rowid wb = next_rowid w" and
    tb: "current_timestamp wb = current_timestamp w" and sb: "rand_src wb = rand_src w" and
    nn: "if Notes entry = [] then encNotes = None
         else \<exists>n2. length n2 = 12 \<and>
                encNotes = Some (n2 @ gcm_Seal X (data ?k) n2 (Notes entry) [])"
  proof (cases "Notes entry = []")
    case True
    then have "encrypt_notes X entry ?k wa = (Inr None, wa)" by (simp add: encrypt_notes_def)
    with True ha pa na ta sa' that show ?thesis by simp
  next
    case False
    from Encrypt_ok [OF assms(5) ra, of X "Notes entry"] obtain n2 where
      n2: "length n2 = 12" and
      e2: "Encrypt X (Notes entry) ?k wa =
             (Inr (Some (n2 @ gcm_Seal X (data ?k) n2 (Notes entry) [])),
              wa\<lparr>rand_pos := rand_pos wa + 12\<rparr>)" by blast
    from False e2 have
      "encrypt_notes X entry ?k wa =
         (Inr (Some (n2 @ gcm_Seal X (data ?k) n2 (Notes entry) [])),
          wa\<lparr>rand_pos := rand_pos wa + 12\<rparr>)"
      by (simp add: encrypt_notes_def)
    moreover have "healthy (wa\<lparr>rand_pos := rand_pos wa + 12\<rparr>)" using ha by simp
    moreover have "passwords (wa\<lparr>rand_pos := rand_pos wa + 12\<rparr>) = passwords w"
      using pa by simp
    moreover have "next_rowid (wa\<lparr>rand_pos := rand_pos wa + 12\<rparr>) = next_rowid w"
      using na by (simp add: next_rowid_def)
    moreover have "current_timestamp (wa\<lparr>rand_pos := rand_pos wa + 12\<rparr>) = current_timestamp w"
      "rand_src (wa\<lparr>rand_pos := rand_pos wa + 12\<rparr>) = rand_src w"
      using ta sa' by simp_all
    ultimately show ?thesis using False n2 that by auto
  qed
  define encPassword where
    "encPassword = Some (n1 @ gcm_Seal X (data ?k) n1 (Password entry) [])"
  define ts where "ts = store_numeric X (SText (current_timestamp wb))"
  define r where
    "r = \<lparr>col_id = next_rowid w, col_title = SText (Title entry),
          col_url = SText (URL entry), col_username = SText (Username entry),
          col_password = bind_bytes encPassword, col_notes = bind_bytes encNotes,
          col_category = SText (PasswordEntry.Category entry),
          col_created_at = ts, col_updated_at = ts\<rparr>"
  define w1 where
    "w1 = (after_io PasswordsInsert wb)
            \<lparr>passwords := passwords w @ [r], sqlite_sequence := next_rowid w\<rparr>"
  have nb': "next_rowid wb \<le> max_rowid" using assms(8) nb by simp
  from assms(1) have sl: "\<And>k n p. length (gcm_Seal X k n p []) = length p + 16"
    by (simp add: seal_length_def)
  have lp: "cell_bytes (bind_bytes encPassword) = length (Password entry) + 28"
    using n1 by (simp add: encPassword_def bind_bytes_def sl)
  have ln: "cell_bytes (bind_bytes encNotes) \<le> length (Notes entry) + 28"
  proof (cases "Notes entry = []")
    case True
    with nn show ?thesis by (simp add: bind_bytes_def)
  next
    case False
    with nn obtain n2 where "length n2 = 12"
      "encNotes = Some (n2 @ gcm_Seal X (data ?k) n2 (Notes entry) [])" by auto
    then show ?thesis by (simp add: bind_bytes_def sl)
  qed
  have lt: "cell_bytes ts \<le> 8 + length (current_timestamp w)"
    unfolding ts_def tb by (rule cell_bytes_store_numeric)
  have v: "\<not> value_toobig [SText (Title entry), SText (URL entry), SText (Username entry),
            bind_bytes encPassword, bind_bytes encNotes, SText (PasswordEntry.Category entry),
            SText (current_timestamp wb), SText (current_timestamp wb)]"
    using assms(9) lp ln by (simp add: value_toobig_def SQLITE_MAX_LENGTH_def tb)
  define cells where
    "cells = [SNull, SText (Title entry), SText (URL entry),
            SText (Username entry), bind_bytes encPassword, bind_bytes encNotes,
            SText (PasswordEntry.Category entry), ts, ts]"
  have "sum_list (map cell_bytes cells) \<le> 999999000"
    using assms(9) lp ln lt by (simp add: cells_def)
  moreover have "length cells \<le> 9" by (simp add: cells_def)
  ultimately have "\<not> sqlite_row_toobig X cells"
    using assms(2) unfolding sqlite_row_limit_def by blast
  then have rt: "\<not> sqlite_row_toobig X [SNull, SText (Title entry), SText (URL entry),
            SText (Username entry), bind_bytes encPassword, bind_bytes encNotes,
            SText (PasswordEntry.Category entry), ts, ts]"
    by (simp add: cells_def)
  have st: "SQLiteStorage_AddPassword X (storage pm) entry encPassword encNotes wb =
              (Inr (next_rowid w), w1)"
    using storage_AddPassword_ok [OF assms(4) hb nb' v rt [unfolded ts_def]]
    by (simp add: w1_def r_def nb pb ts_def)
  have add: "PasswordManager_AddPassword X entry (pm, w) = (Inr (next_rowid w), pma, w1)"
    unfolding PasswordManager_AddPassword_def
    using assms(3) e1 en st
    by (simp add: pma_def [symmetric] ka sa wa_def [symmetric] encPassword_def [symmetric])
  have h1: "healthy w1" using hb by (simp add: w1_def)
  have p1: "passwords w1 = passwords w @ [r]" by (simp add: w1_def)
  have idr: "col_id r = next_rowid w" by (simp add: r_def)
  define e0 where
    "e0 = \<lparr>ID = next_rowid w, Title = Title entry, URL = URL entry,
           Username = Username entry, Password = [], Notes = [],
           Category = PasswordEntry.Category entry,
           CreatedAt = time_Parse X (timestamp_text X ts),
           LastUpdated = time_Parse X (timestamp_text X ts)\<rparr>"
  have sc: "scan_row X r = Some (e0, encPassword, encNotes)"
    by (cases encNotes)
      (simp_all add: scan_row_def r_def e0_def bind_bytes_def encPassword_def ts_def
        scan_timestamp_stored del: store_numeric.simps)
  have cp: "col_password r = SBlob (n1 @ gcm_Seal X (data ?k) n1 (Password entry) [])"
    by (simp add: r_def bind_bytes_def encPassword_def)
  have cn: "col_notes r = bind_bytes encNotes" by (simp add: r_def)
  have nr: "next_rowid w1 = next_rowid w + 1"
  proof -
    have "w1 = (after_io PasswordsInsert wb)
            \<lparr>passwords := passwords (after_io PasswordsInsert wb) @ [r],
              sqlite_sequence := next_rowid (after_io PasswordsInsert wb)\<rparr>"
      by (simp add: w1_def pb nb)
    moreover have "col_id r = next_rowid (after_io PasswordsInsert wb)" by (simp add: idr nb)
    ultimately show ?thesis using next_rowid_insert [of r "after_io PasswordsInsert wb"]
      by (simp add: nb)
  qed
  have rs: "rand_src w1 = rand_src w" "current_timestamp w1 = current_timestamp w"
    by (simp_all add: w1_def sb tb)
  have e0f: "ID e0 = next_rowid w" "Title e0 = Title entry" by (simp_all add: e0_def)
  show ?thesis
    apply (rule exI [of _ w1], rule exI [of _ r], rule exI [of _ n1],
        rule exI [of _ encNotes], rule exI [of _ e0])
    using add p1 idr n1 cp cn nn sc e0f h1 rs nr
    unfolding pma_def encPassword_def by simp
qed


lemma scan_row_blank:
  "scan_row X r = Some (e, p, n) \<Longrightarrow> Password e = [] \<and> Notes e = []"
  by (auto simp: scan_row_def split: Option.bind_splits)

lemma GetPassword_found:
  assumes "aead_correct X" and "initialized pm" and "db (storage pm)"
    and "len (masterKey pm) \<in> {16, 24, 32}" and "healthy w"
    and "r \<in> set (passwords w)"
    and "\<forall>x\<in>set (passwords w). col_id x = col_id r \<longrightarrow> x = r"
    and "scan_row X r =
           Some (e0, Some (n1 @ gcm_Seal X (data (masterKey pm)) n1 password []), encNotes)"
    and "length n1 = 12"
    and "if notes = [] then encNotes = None
         else \<exists>n2. length n2 = 12 \<and>
                encNotes = Some (n2 @ gcm_Seal X (data (masterKey pm)) n2 notes [])"
  shows "PasswordManager_GetPassword X (col_id r) (pm, w) =
           (Inr (e0\<lparr>Password := password, Notes := notes\<rparr>), updateLastActivity pm w,
            after_io PasswordsSelect w)"
proof -
  let ?k = "masterKey pm"
  define pmb where "pmb = updateLastActivity pm w"
  have kb: "masterKey pmb = ?k" and sb: "storage pmb = storage pm"
    by (simp_all add: pmb_def updateLastActivity_def)
  define encPassword where "encPassword = Some (n1 @ gcm_Seal X (data ?k) n1 password [])"
  have get: "SQLiteStorage_GetPassword X (storage pmb) (col_id r) w =
               (Inr (e0, encPassword, encNotes), after_io PasswordsSelect w)"
    using storage_GetPassword_found [OF assms(3,5,6,7) assms(8)]
    by (simp add: sb encPassword_def)
  have dp: "Decrypt X encPassword ?k = Inr password"
    unfolding encPassword_def by (rule Decrypt_sealed [OF assms(1,4,9)])
  show ?thesis
  proof (cases "notes = []")
    case True
    with assms(10) have "encNotes = None" by simp
    moreover from scan_row_blank [OF assms(8)] have "Notes e0 = []" by simp
    then have "e0\<lparr>Password := password, Notes := []\<rparr> = e0\<lparr>Password := password\<rparr>"
      by (cases e0) simp
    ultimately show ?thesis
      using True get dp assms(2)
      unfolding PasswordManager_GetPassword_def
      by (simp add: pmb_def [symmetric] kb)
  next
    case False
    with assms(10) obtain n2 where n2: "length n2 = 12" and
      en2: "encNotes = Some (n2 @ gcm_Seal X (data ?k) n2 notes [])" by auto
    have dn: "Decrypt X encNotes ?k = Inr notes"
      unfolding en2 by (rule Decrypt_sealed [OF assms(1,4) n2])
    have l: "0 < len encNotes" using n2 by (simp add: en2 len_def)
    have ne: "encNotes \<noteq> None" by (simp add: en2)
    from get dp dn l ne assms(2) show ?thesis
      unfolding PasswordManager_GetPassword_def
      by (simp add: pmb_def [symmetric] kb)
  qed
qed

text \<open>
  Claim C4. Let the vault be unlocked with a key of a valid AES length, let no I/O fault occur,
  let \<^verbatim>\<open>crypto/rand\<close> deliver the nonces, let the table have a free row id, and let the
  fields of the record and the timestamp hold 999000000 bytes or less together, so that
  SQLite does not refuse the row as too big. Then for every such record, whatever its
  password and its notes, \<^verbatim>\<open>AddPassword\<close> returns the id that SQLite assigns and appends one
  row, whose password cell is the blob of a nonce and the sealed password, and whose notes
  cell is NULL when the notes are empty and the blob of a nonce and the sealed notes
  otherwise. \<^verbatim>\<open>GetPassword\<close> on the returned id returns a record with that id and with the
  title, the password and the notes exactly as they were supplied: right after the call,
  and in every later state of an unlocked manager with the same key in which the table
  holds that row among others and no other row has its id. The theorem assumes of AES-GCM
  that \<^verbatim>\<open>Open\<close> inverts \<^verbatim>\<open>Seal\<close> and that \<^verbatim>\<open>Seal\<close> adds a tag of 16 bytes, and of SQLite
  that a row of so few bytes is within its length limit.
\<close>

theorem AddPassword_GetPassword_roundtrip:
  assumes "aead_correct X" and "seal_length X" and "sqlite_row_limit X"
    and "initialized pm" and "db (storage pm)"
    and "len (masterKey pm) \<in> {16, 24, 32}" and "healthy w"
    and "\<forall>i<24. rand_src w (rand_pos w + i) \<noteq> None"
    and "next_rowid w \<le> max_rowid"
    and "length (Title entry) + length (URL entry) + length (Username entry)
           + length (Password entry) + length (Notes entry)
           + length (PasswordEntry.Category entry) + 2 * length (current_timestamp w)
         \<le> 999000000"
  shows "\<exists>id' pm1 w1 r n1.
           PasswordManager_AddPassword X entry (pm, w) = (Inr id', pm1, w1) \<and>
           id' = next_rowid w \<and> passwords w1 = passwords w @ [r] \<and>
           col_id r = id' \<and> length n1 = 12 \<and>
           col_password r =
             SBlob (n1 @ gcm_Seal X (data (masterKey pm)) n1 (Password entry) []) \<and>
           (if Notes entry = [] then col_notes r = SNull
            else \<exists>n2. length n2 = 12 \<and>
                   col_notes r =
                     SBlob (n2 @ gcm_Seal X (data (masterKey pm)) n2 (Notes entry) [])) \<and>
           (\<exists>got pm2 w2.
              PasswordManager_GetPassword X id' (pm1, w1) = (Inr got, pm2, w2) \<and>
              ID got = id' \<and> Title got = Title entry \<and>
              Password got = Password entry \<and> Notes got = Notes entry) \<and>
           (\<forall>pm' w'.
              initialized pm' \<and> masterKey pm' = masterKey pm \<and> db (storage pm') \<and>
              healthy w' \<and> r \<in> set (passwords w') \<and>
              (\<forall>x\<in>set (passwords w'). col_id x = id' \<longrightarrow> x = r) \<longrightarrow>
              (\<exists>got pm2 w2.
                 PasswordManager_GetPassword X id' (pm', w') = (Inr got, pm2, w2) \<and>
                 ID got = id' \<and> Title got = Title entry \<and>
                 Password got = Password entry \<and> Notes got = Notes entry))"
proof -
  let ?k = "masterKey pm"
  from AddPassword_ok [OF assms(2-10)] obtain w1 r n1 encNotes e0 where
    add: "PasswordManager_AddPassword X entry (pm, w) =
            (Inr (next_rowid w), updateLastActivity pm w, w1)" and
    p1: "passwords w1 = passwords w @ [r]" and idr: "col_id r = next_rowid w" and
    n1: "length n1 = 12" and
    cp: "col_password r = SBlob (n1 @ gcm_Seal X (data ?k) n1 (Password entry) [])" and
    cn: "col_notes r = bind_bytes encNotes" and
    nn: "if Notes entry = [] then encNotes = None
         else \<exists>n2. length n2 = 12 \<and>
                encNotes = Some (n2 @ gcm_Seal X (data ?k) n2 (Notes entry) [])" and
    sc: "scan_row X r =
           Some (e0, Some (n1 @ gcm_Seal X (data ?k) n1 (Password entry) []), encNotes)" and
    e0: "ID e0 = next_rowid w" "Title e0 = Title entry" and
    h1: "healthy w1" by blast
  have cnn: "if Notes entry = [] then col_notes r = SNull
             else \<exists>n2. length n2 = 12 \<and>
                    col_notes r = SBlob (n2 @ gcm_Seal X (data ?k) n2 (Notes entry) [])"
  proof (cases "Notes entry = []")
    case True
    with nn cn show ?thesis by (simp add: bind_bytes_def)
  next
    case False
    with nn obtain n2 where "length n2 = 12"
      "encNotes = Some (n2 @ gcm_Seal X (data ?k) n2 (Notes entry) [])" by auto
    then have "length n2 = 12 \<and>
        col_notes r = SBlob (n2 @ gcm_Seal X (data ?k) n2 (Notes entry) [])"
      by (simp add: cn bind_bytes_def)
    then have "\<exists>n2. length n2 = 12 \<and>
        col_notes r = SBlob (n2 @ gcm_Seal X (data ?k) n2 (Notes entry) [])" ..
    with False show ?thesis by simp
  qed
  have later: "\<exists>got pm2 w2.
        PasswordManager_GetPassword X (next_rowid w) (pm', w') = (Inr got, pm2, w2) \<and>
        ID got = next_rowid w \<and> Title got = Title entry \<and>
        Password got = Password entry \<and> Notes got = Notes entry"
    if i: "initialized pm'" and k: "masterKey pm' = ?k" and d: "db (storage pm')"
      and h: "healthy w'" and m: "r \<in> set (passwords w')"
      and u: "\<forall>x\<in>set (passwords w'). col_id x = next_rowid w \<longrightarrow> x = r"
    for pm' w'
  proof -
    have k': "len (masterKey pm') \<in> {16, 24, 32}" using assms(6) k by simp
    have u': "\<forall>x\<in>set (passwords w'). col_id x = col_id r \<longrightarrow> x = r"
      using u idr by simp
    have sc': "scan_row X r =
        Some (e0, Some (n1 @ gcm_Seal X (data (masterKey pm')) n1 (Password entry) []),
              encNotes)" using sc k by simp
    have nn': "if Notes entry = [] then encNotes = None
         else \<exists>n2. length n2 = 12 \<and>
                encNotes = Some (n2 @ gcm_Seal X (data (masterKey pm')) n2 (Notes entry) [])"
      using nn k by simp
    from GetPassword_found [OF assms(1) i d k' h m u' sc' n1 nn']
    have "PasswordManager_GetPassword X (next_rowid w) (pm', w') =
           (Inr (e0\<lparr>Password := Password entry, Notes := Notes entry\<rparr>),
            updateLastActivity pm' w', after_io PasswordsSelect w')"
      by (simp add: idr)
    moreover have "ID (e0\<lparr>Password := Password entry, Notes := Notes entry\<rparr>) = next_rowid w"
      "Title (e0\<lparr>Password := Password entry, Notes := Notes entry\<rparr>) = Title entry"
      "Password (e0\<lparr>Password := Password entry, Notes := Notes entry\<rparr>) = Password entry"
      "Notes (e0\<lparr>Password := Password entry, Notes := Notes entry\<rparr>) = Notes entry"
      using e0 by simp_all
    ultimately show ?thesis by blast
  qed
  define pm1 where "pm1 = updateLastActivity pm w"
  have i1: "initialized pm1" "masterKey pm1 = ?k" "db (storage pm1)"
    using assms(4,5) by (simp_all add: pm1_def updateLastActivity_def)
  have m1: "r \<in> set (passwords w1)" by (simp add: p1)
  have u1: "\<forall>x\<in>set (passwords w1). col_id x = next_rowid w \<longrightarrow> x = r"
  proof (intro ballI impI)
    fix x assume x: "x \<in> set (passwords w1)" and c: "col_id x = next_rowid w"
    show "x = r"
    proof (cases "x \<in> set (passwords w)")
      case True
      from next_rowid_fresh [OF this] c show ?thesis by simp
    next
      case False
      with x show ?thesis by (simp add: p1)
    qed
  qed
  from later [OF i1 h1 m1 u1] have direct: "\<exists>got pm2 w2.
        PasswordManager_GetPassword X (next_rowid w) (pm1, w1) = (Inr got, pm2, w2) \<and>
        ID got = next_rowid w \<and> Title got = Title entry \<and>
        Password got = Password entry \<and> Notes got = Notes entry" .
  have body:
    "PasswordManager_AddPassword X entry (pm, w) = (Inr (next_rowid w), pm1, w1) \<and>
     next_rowid w = next_rowid w \<and> passwords w1 = passwords w @ [r] \<and>
     col_id r = next_rowid w \<and> length n1 = 12 \<and>
     col_password r =
       SBlob (n1 @ gcm_Seal X (data (masterKey pm)) n1 (Password entry) []) \<and>
     (if Notes entry = [] then col_notes r = SNull
      else \<exists>n2. length n2 = 12 \<and>
             col_notes r =
               SBlob (n2 @ gcm_Seal X (data (masterKey pm)) n2 (Notes entry) [])) \<and>
     (\<exists>got pm2 w2.
        PasswordManager_GetPassword X (next_rowid w) (pm1, w1) = (Inr got, pm2, w2) \<and>
        ID got = next_rowid w \<and> Title got = Title entry \<and>
        Password got = Password entry \<and> Notes got = Notes entry) \<and>
     (\<forall>pm' w'.
        initialized pm' \<and> masterKey pm' = masterKey pm \<and> db (storage pm') \<and>
        healthy w' \<and> r \<in> set (passwords w') \<and>
        (\<forall>x\<in>set (passwords w'). col_id x = next_rowid w \<longrightarrow> x = r) \<longrightarrow>
        (\<exists>got pm2 w2.
           PasswordManager_GetPassword X (next_rowid w) (pm', w') = (Inr got, pm2, w2) \<and>
           ID got = next_rowid w \<and> Title got = Title entry \<and>
           Password got = Password entry \<and> Notes got = Notes entry))"
  proof (intro conjI)
    show "PasswordManager_AddPassword X entry (pm, w) = (Inr (next_rowid w), pm1, w1)"
      using add by (simp add: pm1_def)
    show "next_rowid w = next_rowid w" ..
    show "passwords w1 = passwords w @ [r]" by (rule p1)
    show "col_id r = next_rowid w" by (rule idr)
    show "length n1 = 12" by (rule n1)
    show "col_password r = SBlob (n1 @ gcm_Seal X (data ?k) n1 (Password entry) [])"
      by (rule cp)
    show "if Notes entry = [] then col_notes r = SNull
          else \<exists>n2. length n2 = 12 \<and>
                 col_notes r = SBlob (n2 @ gcm_Seal X (data ?k) n2 (Notes entry) [])"
      by (rule cnn)
    show "\<exists>got pm2 w2.
        PasswordManager_GetPassword X (next_rowid w) (pm1, w1) = (Inr got, pm2, w2) \<and>
        ID got = next_rowid w \<and> Title got = Title entry \<and>
        Password got = Password entry \<and> Notes got = Notes entry"
      by (rule direct)
    show "\<forall>pm' w'.
        initialized pm' \<and> masterKey pm' = masterKey pm \<and> db (storage pm') \<and>
        healthy w' \<and> r \<in> set (passwords w') \<and>
        (\<forall>x\<in>set (passwords w'). col_id x = next_rowid w \<longrightarrow> x = r) \<longrightarrow>
        (\<exists>got pm2 w2.
           PasswordManager_GetPassword X (next_rowid w) (pm', w') = (Inr got, pm2, w2) \<and>
           ID got = next_rowid w \<and> Title got = Title entry \<and>
           Password got = Password entry \<and> Notes got = Notes entry)"
      using later by blast
  qed
  show ?thesis
    by (rule exI [of _ "next_rowid w"], rule exI [of _ pm1], rule exI [of _ w1],
        rule exI [of _ r], rule exI [of _ n1]) (rule body)
qed


theorem AddPassword_GetPassword_roundtrip_witness:
  "(\<exists>pm1 w1 r1 pm2 w2 r2 got pm3 w3.
      PasswordManager_AddPassword ref_ext entry0 (pm_unlocked, world0) = (Inr 1, pm1, w1) \<and>
      passwords w1 = [r1] \<and>
      (\<exists>n1. col_password r1 =
         SBlob (n1 @ gcm_Seal ref_ext (replicate 32 (CHR ''k'')) n1 ''p@ssW0rd!'' [])) \<and>
      (\<exists>n2. col_notes r1 =
         SBlob (n2 @ gcm_Seal ref_ext (replicate 32 (CHR ''k'')) n2 ''secret note'' [])) \<and>
      PasswordManager_AddPassword ref_ext entry1 (pm1, w1) = (Inr 2, pm2, w2) \<and>
      passwords w2 = [r1, r2] \<and>
      PasswordManager_GetPassword ref_ext 1 (pm2, w2) = (Inr got, pm3, w3) \<and>
      ID got = 1 \<and> Title got = ''mail'' \<and> Password got = ''p@ssW0rd!'' \<and>
      Notes got = ''secret note'') \<and>
   (\<exists>pm1 w1 r got pm2 w2.
      PasswordManager_AddPassword ref_ext (entry0\<lparr>Notes := []\<rparr>) (pm_unlocked, world0) =
        (Inr 1, pm1, w1) \<and>
      passwords w1 = [r] \<and> col_id r = 1 \<and> col_notes r = SNull \<and>
      PasswordManager_GetPassword ref_ext 1 (pm1, w1) = (Inr got, pm2, w2) \<and>
      ID got = 1 \<and> Password got = ''p@ssW0rd!'' \<and> Notes got = [])"
proof -
  have i: "initialized pm_unlocked" and d: "db (storage pm_unlocked)"
    and k: "len (masterKey pm_unlocked) \<in> {16, 24, 32}"
    and mk: "data (masterKey pm_unlocked) = replicate 32 (CHR ''k'')"
    by (simp_all add: pm_unlocked_def pm0_def len_def data_def)
  have h: "healthy world0" by (simp add: healthy_def world0_def)
  have r: "\<forall>i<24. rand_src world0 (rand_pos world0 + i) \<noteq> None" by (simp add: world0_def)
  have n: "next_rowid world0 = 1" by (simp add: next_rowid_def world0_def)
  then have m: "next_rowid world0 \<le> max_rowid" by (simp add: max_rowid_def)
  have p: "passwords world0 = []" by (simp add: world0_def)
  have e: "Password entry0 = ''p@ssW0rd!''" "Notes entry0 = ''secret note''"
    "Title entry0 = ''mail''"
    by (simp_all add: entry0_def)
  have s0: "length (Title entry0) + length (URL entry0) + length (Username entry0)
           + length (Password entry0) + length (Notes entry0)
           + length (PasswordEntry.Category entry0) + 2 * length (current_timestamp world0)
         \<le> 999000000"
    by (simp add: entry0_def world0_def)
  from AddPassword_GetPassword_roundtrip [OF ref_aead_correct ref_seal_length ref_row_limit
      i d k h r m s0]
  obtain id' pm1 w1 r1 n1 where
    a1: "PasswordManager_AddPassword ref_ext entry0 (pm_unlocked, world0) = (Inr id', pm1, w1)"
    and id': "id' = next_rowid world0" and p1: "passwords w1 = passwords world0 @ [r1]"
    and c1: "col_id r1 = id'"
    and cp: "col_password r1 =
        SBlob (n1 @ gcm_Seal ref_ext (data (masterKey pm_unlocked)) n1 (Password entry0) [])"
    and cn: "if Notes entry0 = [] then col_notes r1 = SNull
       else \<exists>n2. length n2 = 12 \<and>
              col_notes r1 =
                SBlob (n2 @ gcm_Seal ref_ext (data (masterKey pm_unlocked)) n2 (Notes entry0) [])"
    and later: "\<forall>pm' w'.
        initialized pm' \<and> masterKey pm' = masterKey pm_unlocked \<and> db (storage pm') \<and>
        healthy w' \<and> r1 \<in> set (passwords w') \<and>
        (\<forall>x\<in>set (passwords w'). col_id x = id' \<longrightarrow> x = r1) \<longrightarrow>
        (\<exists>got pm2 w2.
           PasswordManager_GetPassword ref_ext id' (pm', w') = (Inr got, pm2, w2) \<and>
           ID got = id' \<and> Title got = Title entry0 \<and>
           Password got = Password entry0 \<and> Notes got = Notes entry0)"
    by blast
  from AddPassword_ok [OF ref_seal_length ref_row_limit i d k h r m s0] a1
  have pm1: "pm1 = updateLastActivity pm_unlocked world0" and h1: "healthy w1"
    and rs1: "rand_src w1 = rand_src world0"
    and ts1: "current_timestamp w1 = current_timestamp world0"
    and n1: "next_rowid w1 = next_rowid world0 + 1"
    by auto
  have i1: "initialized pm1" and d1: "db (storage pm1)"
    and k1: "len (masterKey pm1) \<in> {16, 24, 32}"
    and mk1: "masterKey pm1 = masterKey pm_unlocked"
    using i d k by (simp_all add: pm1 updateLastActivity_def)
  have r1: "\<forall>i<24. rand_src w1 (rand_pos w1 + i) \<noteq> None"
    by (simp add: rs1 world0_def)
  have m1: "next_rowid w1 \<le> max_rowid" by (simp add: n1 n max_rowid_def)
  have s1: "length (Title entry1) + length (URL entry1) + length (Username entry1)
           + length (Password entry1) + length (Notes entry1)
           + length (PasswordEntry.Category entry1) + 2 * length (current_timestamp w1)
         \<le> 999000000"
    by (simp add: entry1_def ts1 world0_def)
  from AddPassword_ok [OF ref_seal_length ref_row_limit i1 d1 k1 h1 r1 m1 s1]
  obtain w2 r2 where
    a2: "PasswordManager_AddPassword ref_ext entry1 (pm1, w1) =
           (Inr (next_rowid w1), updateLastActivity pm1 w1, w2)"
    and p2: "passwords w2 = passwords w1 @ [r2]" and c2: "col_id r2 = next_rowid w1"
    and h2: "healthy w2" by blast
  define pm2 where "pm2 = updateLastActivity pm1 w1"
  have i2: "initialized pm2" "masterKey pm2 = masterKey pm_unlocked" "db (storage pm2)"
    using i1 d1 mk1 by (simp_all add: pm2_def updateLastActivity_def)
  have in2: "r1 \<in> set (passwords w2)" by (simp add: p2 p1)
  have u2: "\<forall>x\<in>set (passwords w2). col_id x = id' \<longrightarrow> x = r1"
    using c2 by (simp add: p2 p1 p n1 n id')
  from later i2 h2 in2 u2 obtain got pm3 w3 where
    g: "PasswordManager_GetPassword ref_ext id' (pm2, w2) = (Inr got, pm3, w3)"
    and gf: "ID got = id'" "Title got = Title entry0" "Password got = Password entry0"
      "Notes got = Notes entry0" by blast
  from cn e obtain n2 where
    cn': "col_notes r1 = SBlob (n2 @ gcm_Seal ref_ext (replicate 32 (CHR ''k'')) n2
            ''secret note'' [])"
    by (auto simp: mk)
  from cp have "col_password r1 =
      SBlob (n1 @ gcm_Seal ref_ext (replicate 32 (CHR ''k'')) n1 ''p@ssW0rd!'' [])"
    by (simp add: mk e)
  then have cpx: "\<exists>n1. col_password r1 =
      SBlob (n1 @ gcm_Seal ref_ext (replicate 32 (CHR ''k'')) n1 ''p@ssW0rd!'' [])"
    by (rule exI [where x = n1])
  from cn' have cnx: "\<exists>n2. col_notes r1 =
      SBlob (n2 @ gcm_Seal ref_ext (replicate 32 (CHR ''k'')) n2 ''secret note'' [])"
    by (rule exI [where x = n2])
  have A: "\<exists>pm1 w1 r1 pm2 w2 r2 got pm3 w3.
      PasswordManager_AddPassword ref_ext entry0 (pm_unlocked, world0) = (Inr 1, pm1, w1) \<and>
      passwords w1 = [r1] \<and>
      (\<exists>n1. col_password r1 =
         SBlob (n1 @ gcm_Seal ref_ext (replicate 32 (CHR ''k'')) n1 ''p@ssW0rd!'' [])) \<and>
      (\<exists>n2. col_notes r1 =
         SBlob (n2 @ gcm_Seal ref_ext (replicate 32 (CHR ''k'')) n2 ''secret note'' [])) \<and>
      PasswordManager_AddPassword ref_ext entry1 (pm1, w1) = (Inr 2, pm2, w2) \<and>
      passwords w2 = [r1, r2] \<and>
      PasswordManager_GetPassword ref_ext 1 (pm2, w2) = (Inr got, pm3, w3) \<and>
      ID got = 1 \<and> Title got = ''mail'' \<and> Password got = ''p@ssW0rd!'' \<and>
      Notes got = ''secret note''"
    apply (rule exI [of _ pm1], rule exI [of _ w1], rule exI [of _ r1], rule exI [of _ pm2],
        rule exI [of _ w2], rule exI [of _ r2], rule exI [of _ got], rule exI [of _ pm3],
        rule exI [of _ w3])
    using a1 p1 cpx cnx a2 p2 g gf
    by (simp add: id' n n1 p e pm2_def)
  have e': "Password (entry0\<lparr>Notes := []\<rparr>) = ''p@ssW0rd!''"
    "Notes (entry0\<lparr>Notes := []\<rparr>) = []"
    by (simp_all add: entry0_def)
  have s0': "length (Title (entry0\<lparr>Notes := []\<rparr>)) + length (URL (entry0\<lparr>Notes := []\<rparr>))
           + length (Username (entry0\<lparr>Notes := []\<rparr>))
           + length (Password (entry0\<lparr>Notes := []\<rparr>)) + length (Notes (entry0\<lparr>Notes := []\<rparr>))
           + length (PasswordEntry.Category (entry0\<lparr>Notes := []\<rparr>))
           + 2 * length (current_timestamp world0)
         \<le> 999000000"
    by (simp add: entry0_def world0_def)
  from AddPassword_GetPassword_roundtrip [OF ref_aead_correct ref_seal_length ref_row_limit
      i d k h r m s0']
  obtain jd qm1 v1 q1 where
    b1: "PasswordManager_AddPassword ref_ext (entry0\<lparr>Notes := []\<rparr>) (pm_unlocked, world0) =
           (Inr jd, qm1, v1)"
    and jd: "jd = next_rowid world0" and q1: "passwords v1 = passwords world0 @ [q1]"
    and cq: "col_id q1 = jd"
    and cqn: "if Notes (entry0\<lparr>Notes := []\<rparr>) = [] then col_notes q1 = SNull
       else \<exists>n2. length n2 = 12 \<and>
              col_notes q1 =
                SBlob (n2 @ gcm_Seal ref_ext (data (masterKey pm_unlocked)) n2
                  (Notes (entry0\<lparr>Notes := []\<rparr>)) [])"
    and dg: "\<exists>got pm2 w2.
        PasswordManager_GetPassword ref_ext jd (qm1, v1) = (Inr got, pm2, w2) \<and>
        ID got = jd \<and> Title got = Title (entry0\<lparr>Notes := []\<rparr>) \<and>
        Password got = Password (entry0\<lparr>Notes := []\<rparr>) \<and>
        Notes got = Notes (entry0\<lparr>Notes := []\<rparr>)"
    by blast
  from dg obtain got' qm2 v2 where
    g': "PasswordManager_GetPassword ref_ext jd (qm1, v1) = (Inr got', qm2, v2)"
    and gf': "ID got' = jd" "Password got' = Password (entry0\<lparr>Notes := []\<rparr>)"
      "Notes got' = Notes (entry0\<lparr>Notes := []\<rparr>)" by blast
  have B: "\<exists>pm1 w1 r got pm2 w2.
      PasswordManager_AddPassword ref_ext (entry0\<lparr>Notes := []\<rparr>) (pm_unlocked, world0) =
        (Inr 1, pm1, w1) \<and>
      passwords w1 = [r] \<and> col_id r = 1 \<and> col_notes r = SNull \<and>
      PasswordManager_GetPassword ref_ext 1 (pm1, w1) = (Inr got, pm2, w2) \<and>
      ID got = 1 \<and> Password got = ''p@ssW0rd!'' \<and> Notes got = []"
    apply (rule exI [of _ qm1], rule exI [of _ v1], rule exI [of _ q1], rule exI [of _ got'],
        rule exI [of _ qm2], rule exI [of _ v2])
    using b1 q1 cq cqn g' gf'
    by (simp add: jd n p e')
  from A B show ?thesis by (rule conjI)
qed

section \<open>Properties of listing and search\<close>

lemma scan_meta_blank:
  "scan_meta X cols = Some e \<Longrightarrow> Password e = [] \<and> Notes e = []"
  by (auto simp: scan_meta_def split: list.splits Option.bind_splits)

lemma scan_entries_blank:
  "scan_entries X rows = Inr es \<Longrightarrow> \<forall>e\<in>set es. Password e = [] \<and> Notes e = []"
proof (induction rows arbitrary: es)
  case Nil
  then show ?case by simp
next
  case (Cons cols rest)
  from Cons.prems obtain e es' where
    e: "scan_meta X cols = Some e" and r: "scan_entries X rest = Inr es'" and
    es: "es = e # es'"
    by (auto split: option.splits sum.splits)
  from scan_meta_blank [OF e] Cons.IH [OF r] es show ?case by simp
qed

lemma run_query_blank:
  "run_query X query args w = (Inr es, w') \<Longrightarrow> \<forall>e\<in>set es. Password e = [] \<and> Notes e = []"
  by (auto simp: run_query_def split: prod.splits bool.splits option.splits if_splits
      dest!: scan_entries_blank)

lemma GetAllPasswords_one_row:
  "\<exists>e pm' w'. PasswordManager_GetAllPasswords ref_ext (pm_unlocked, world_one_row) =
      (Inr [e], pm', w') \<and> ID e = 1 \<and> Title e = ''mail'' \<and> Username e = ''alice''"
  by (simp add: PasswordManager_GetAllPasswords_def pm_unlocked_def pm0_def
      updateLastActivity_def SQLiteStorage_GetAllPasswords_def run_query_def io_def
      world_one_row_def world0_def ref_ext_def ref_select_def row1_def scan_meta_def
      ref_timestamp_def)

lemma SearchPasswords_one_row:
  "\<exists>e pm' w'. PasswordManager_SearchPasswords ref_ext params0 (pm_unlocked, world_one_row) =
      (Inr [e], pm', w') \<and> ID e = 1 \<and> Title e = ''mail'' \<and> Username e = ''alice''"
  by (simp add: PasswordManager_SearchPasswords_def pm_unlocked_def pm0_def
      updateLastActivity_def SQLiteStorage_SearchPasswords_def run_query_def io_def
      search_query_def params0_def Let_def
      world_one_row_def world0_def ref_ext_def ref_select_def row1_def scan_meta_def
      ref_timestamp_def)

text \<open>
  Claim C7. Every entry that \<^verbatim>\<open>GetAllPasswords\<close> returns and every entry that
  \<^verbatim>\<open>SearchPasswords\<close> returns has the empty string as \<^verbatim>\<open>Password\<close> and as \<^verbatim>\<open>Notes\<close>,
  whatever the table holds and whatever rows the query selects: the scan fills the seven
  columns of metadata and neither field.
\<close>

theorem listing_hides_secrets:
  "(PasswordManager_GetAllPasswords X (pm, w) = (Inr es, pm', w') \<longrightarrow>
      (\<forall>e\<in>set es. Password e = [] \<and> Notes e = [])) \<and>
   (PasswordManager_SearchPasswords X params (pm, w) = (Inr es, pm', w') \<longrightarrow>
      (\<forall>e\<in>set es. Password e = [] \<and> Notes e = []))"
proof (intro conjI impI)
  assume "PasswordManager_GetAllPasswords X (pm, w) = (Inr es, pm', w')"
  then obtain q a wa where "run_query X q a wa = (Inr es, w')"
    by (auto simp: PasswordManager_GetAllPasswords_def SQLiteStorage_GetAllPasswords_def
        Let_def split: if_splits prod.splits)
  then show "\<forall>e\<in>set es. Password e = [] \<and> Notes e = []" by (rule run_query_blank)
next
  assume "PasswordManager_SearchPasswords X params (pm, w) = (Inr es, pm', w')"
  then obtain q a wa where "run_query X q a wa = (Inr es, w')"
    by (auto simp: PasswordManager_SearchPasswords_def SQLiteStorage_SearchPasswords_def
        Let_def split: if_splits prod.splits)
  then show "\<forall>e\<in>set es. Password e = [] \<and> Notes e = []" by (rule run_query_blank)
qed

theorem listing_hides_secrets_witness:
  "col_password row1 = SBlob ''sealed-pw'' \<and> col_notes row1 = SBlob ''sealed-note'' \<and>
   (\<exists>e pm' w'. PasswordManager_GetAllPasswords ref_ext (pm_unlocked, world_one_row) =
      (Inr [e], pm', w') \<and> Title e = ''mail'' \<and> Password e = [] \<and> Notes e = []) \<and>
   (\<exists>e pm' w'. PasswordManager_SearchPasswords ref_ext params0 (pm_unlocked, world_one_row) =
      (Inr [e], pm', w') \<and> Title e = ''mail'' \<and> Password e = [] \<and> Notes e = [])"
proof -
  from GetAllPasswords_one_row obtain e pm' w' where
    g: "PasswordManager_GetAllPasswords ref_ext (pm_unlocked, world_one_row) = (Inr [e], pm', w')"
    and t: "Title e = ''mail''" by blast
  from listing_hides_secrets [of ref_ext pm_unlocked world_one_row "[e]" pm' w'] g
  have "Password e = [] \<and> Notes e = []" by simp
  with g t have a: "\<exists>e pm' w'. PasswordManager_GetAllPasswords ref_ext (pm_unlocked, world_one_row) =
      (Inr [e], pm', w') \<and> Title e = ''mail'' \<and> Password e = [] \<and> Notes e = []" by blast
  from SearchPasswords_one_row obtain e2 pm2 w2 where
    s: "PasswordManager_SearchPasswords ref_ext params0 (pm_unlocked, world_one_row) =
          (Inr [e2], pm2, w2)"
    and t2: "Title e2 = ''mail''" by blast
  from listing_hides_secrets [of ref_ext pm_unlocked world_one_row "[e2]" pm2 w2 params0] s
  have "Password e2 = [] \<and> Notes e2 = []" by simp
  with s t2 have b: "\<exists>e pm' w'. PasswordManager_SearchPasswords ref_ext params0
      (pm_unlocked, world_one_row) =
      (Inr [e], pm', w') \<and> Title e = ''mail'' \<and> Password e = [] \<and> Notes e = []" by blast
  have "col_password row1 = SBlob ''sealed-pw'' \<and> col_notes row1 = SBlob ''sealed-note''"
    by (simp add: row1_def)
  with a b show ?thesis by blast
qed

section \<open>Properties of the import\<close>

lemma insert_password_result:
  assumes "insert_password X t u n p no c ca ua w = (Inr i, w')"
  shows "\<exists>r. passwords w' = passwords w @ [r] \<and> col_id r = next_rowid w \<and>
           col_title r = store_text X t \<and> col_url r = store_text X u \<and>
           col_username r = store_text X n \<and> col_password r = p \<and> col_notes r = no \<and>
           col_category r = store_text X c \<and> col_created_at r = store_numeric X ca \<and>
           col_updated_at r = store_numeric X ua \<and>
           config w' = config w \<and> next_rowid w' = next_rowid w + 1"
proof -
  define r where "r = \<lparr>col_id = next_rowid w, col_title = store_text X t,
     col_url = store_text X u, col_username = store_text X n, col_password = p,
     col_notes = no, col_category = store_text X c, col_created_at = store_numeric X ca,
     col_updated_at = store_numeric X ua\<rparr>"
  from assms have w': "w' = w\<lparr>passwords := passwords w @ [r], sqlite_sequence := next_rowid w\<rparr>"
    by (auto simp: insert_password_def Let_def r_def split: if_splits)
  have idr: "col_id r = next_rowid w" by (simp add: r_def)
  from next_rowid_insert [OF idr] w' have "next_rowid w' = next_rowid w + 1" by simp
  moreover have "passwords w' = passwords w @ [r]" "config w' = config w"
    by (simp_all add: w')
  ultimately show ?thesis by (intro exI [of _ r]) (simp add: r_def)
qed


lemma bind_entry_cols:
  assumes "bind_entry entry = Some [t, u, n, p, no, c, ca, ua]"
  shows "bind (index entry ''title'') = Some t" "bind (index entry ''url'') = Some u"
    "bind (index entry ''username'') = Some n" "bind (index entry ''password'') = Some p"
    "bind (index entry ''notes'') = Some no" "bind (index entry ''category'') = Some c"
    "bind (index entry ''created_at'') = Some ca" "bind (index entry ''updated_at'') = Some ua"
  using assms by (auto simp: bind_entry_def split: option.splits)

lemma upt_shift: "map f [0..<Suc n] = f 0 # map (\<lambda>i. f (Suc i)) [0..<n]"
proof -
  have "[0..<Suc n] = 0 # map Suc [0..<n]" by (simp add: upt_conv_Cons map_Suc_upt del: upt_Suc)
  then show ?thesis by (simp add: comp_def del: upt_Suc)
qed


lemma import_entries_success:
  "import_entries X entries w = (Inr v, w') \<Longrightarrow>
     \<exists>new. passwords w' = passwords w @ new \<and> list_all2 (imported_as X) entries new \<and>
       map col_id new = map (\<lambda>i. next_rowid w + int i) [0..<length entries]"
proof (induction entries arbitrary: w)
  case Nil
  then show ?case by simp
next
  case (Cons entry entries)
  from Cons.prems obtain t u n p no c ca ua where
    b: "bind_entry entry = Some [t, u, n, p, no, c, ca, ua]"
    by (auto split: option.splits list.splits)
  obtain f wa where io: "io PasswordsInsert w = (f, wa)" by (cases "io PasswordsInsert w")
  from io_tables [OF io] have pa: "passwords wa = passwords w"
    and sa: "sqlite_sequence wa = sqlite_sequence w" by simp_all
  then have na: "next_rowid wa = next_rowid w" by (simp add: next_rowid_def)
  from Cons.prems b io have f: "\<not> f" by (cases f) simp_all
  obtain r wb where ins: "insert_password X t u n p no c ca ua wa = (r, wb)"
    by (cases "insert_password X t u n p no c ca ua wa")
  from Cons.prems b io f ins obtain i where r: "r = Inr i"
    by (cases r) simp_all
  from Cons.prems b io f ins r have rest: "import_entries X entries wb = (Inr v, w')" by simp
  from insert_password_result [OF ins [unfolded r]] obtain x where
    pb: "passwords wb = passwords wa @ [x]" and ix: "col_id x = next_rowid wa" and
    cols: "col_title x = store_text X t" "col_url x = store_text X u"
      "col_username x = store_text X n" "col_password x = p" "col_notes x = no"
      "col_category x = store_text X c" "col_created_at x = store_numeric X ca"
      "col_updated_at x = store_numeric X ua" and
    nb: "next_rowid wb = next_rowid wa + 1" by blast
  from Cons.IH [OF rest] obtain new where
    pw: "passwords w' = passwords wb @ new" and
    la: "list_all2 (imported_as X) entries new" and
    ids: "map col_id new = map (\<lambda>i. next_rowid wb + int i) [0..<length entries]" by blast
  have im: "imported_as X entry x"
    using bind_entry_cols [OF b] cols by (simp add: imported_as_def)
  have "passwords w' = passwords w @ (x # new)" using pw pb pa by simp
  moreover have "list_all2 (imported_as X) (entry # entries) (x # new)" using im la by simp
  moreover have "map col_id (x # new) =
      map (\<lambda>i. next_rowid w + int i) [0..<length (entry # entries)]"
    using ids ix nb na by (simp add: upt_shift add.assoc del: upt_Suc)
  ultimately show ?case by blast
qed






section \<open>Properties of export and import\<close>

subsection \<open>The base64 decoder of the instance inverts the encoder\<close>

lemma encodeStd_ranges:
  "encodeStd = map char_of [65..<91::nat] @ map char_of [97..<123::nat]
     @ map char_of [48..<58::nat] @ ''+/''"
  by (simp add: encodeStd_def char_of_def bit_Suc_0_iff)

lemma sextet_char:
  "m < 26 \<Longrightarrow> sextet m = char_of (65 + m)"
  "m < 26 \<Longrightarrow> sextet (26 + m) = char_of (97 + m)"
  "m < 10 \<Longrightarrow> sextet (52 + m) = char_of (48 + m)"
  "sextet 62 = CHR ''+''" "sextet 63 = CHR ''/''"
proof -
  show "m < 26 \<Longrightarrow> sextet m = char_of (65 + m)"
    unfolding sextet_def encodeStd_ranges by (simp add: nth_append del: upt_rec_numeral)
  show "m < 26 \<Longrightarrow> sextet (26 + m) = char_of (97 + m)"
    unfolding sextet_def encodeStd_ranges by (simp add: nth_append del: upt_rec_numeral)
  show "m < 10 \<Longrightarrow> sextet (52 + m) = char_of (48 + m)"
    unfolding sextet_def encodeStd_ranges by (simp add: nth_append del: upt_rec_numeral)
  show "sextet 62 = CHR ''+''" by (simp add: sextet_def encodeStd_def)
  show "sextet 63 = CHR ''/''" by (simp add: sextet_def encodeStd_def)
qed

lemma sextet_of_sextet:
  assumes "n < 64"
  shows "sextet_of (sextet n) = Some n"
proof -
  consider "n < 26" | "26 \<le> n" "n < 52" | "52 \<le> n" "n < 62" | "n = 62" | "n = 63"
    using assms by linarith
  then show ?thesis
  proof cases
    case 1
    then show ?thesis by (simp add: sextet_char sextet_of_def Let_def)
  next
    case 2
    define m where "m = n - 26"
    with 2 have m: "n = 26 + m" "m < 26" by simp_all
    then show ?thesis by (simp add: sextet_char sextet_of_def Let_def)
  next
    case 3
    define m where "m = n - 52"
    with 3 have m: "n = 52 + m" "m < 10" by simp_all
    then show ?thesis by (simp add: sextet_char sextet_of_def Let_def)
  next
    case 4
    then show ?thesis by (simp add: sextet_char sextet_of_def Let_def)
  next
    case 5
    then show ?thesis by (simp add: sextet_char sextet_of_def Let_def)
  qed
qed

lemma sextet_of_pad: "sextet_of (CHR ''='') = None"
  by (simp add: sextet_of_def Let_def)

lemma sextet_not_pad: "n < 64 \<Longrightarrow> sextet n \<noteq> CHR ''=''"
  using sextet_of_sextet [of n] sextet_of_pad by auto

lemma of_char_bound: "(of_char c :: nat) < 256"
proof -
  have "(of_char c :: nat) = of_char (char_of (of_char c :: nat))" by simp
  also have "\<dots> = (of_char c :: nat) mod 256" by (simp only: of_char_of)
  finally have "(of_char c :: nat) = of_char c mod 256" .
  moreover have "(of_char c :: nat) mod 256 < 256" by simp
  ultimately show ?thesis by simp
qed

lemma join_hi: "x < 256 \<Longrightarrow> y < 256 \<Longrightarrow> x div 4 * 4 + (x mod 4 * 16 + y div 16) div 16 = (x::nat)"
  by simp

lemma join_mid:
  "y < 256 \<Longrightarrow> z < 256 \<Longrightarrow>
     (x mod 4 * 16 + y div 16) mod 16 * 16 + (y mod 16 * 4 + z div 64) div 4 = (y::nat)"
proof -
  assume y: "y < 256" and z: "z < 256"
  then have a: "y div 16 < 16" and b: "z div 64 < 4" by simp_all
  have "(x mod 4 * 16 + y div 16) mod 16 = y div 16" using a by simp
  moreover have "(y mod 16 * 4 + z div 64) div 4 = y mod 16" using b by simp
  ultimately show ?thesis by simp
qed

lemma join_lo: "z < 256 \<Longrightarrow> (y mod 16 * 4 + z div 64) mod 4 * 64 + z mod 64 = (z::nat)"
proof -
  assume z: "z < 256"
  then have b: "z div 64 < 4" by simp
  have "(y mod 16 * 4 + z div 64) mod 4 = z div 64" using b by simp
  then show ?thesis by simp
qed

lemma join_mid2:
  "y < 256 \<Longrightarrow> (x mod 4 * 16 + y div 16) mod 16 * 16 + (y mod 16 * 4) div 4 = (y::nat)"
  using join_mid [of y 0 x] by simp

lemma join_hi1: "x < 256 \<Longrightarrow> x div 4 * 4 + (x mod 4 * 16) div 16 = (x::nat)"
  using join_hi [of x 0] by simp

lemma sextet_bounds:
  "x < 256 \<Longrightarrow> x div 4 < (64::nat)"
  "x mod 4 * 16 + y div 16 < 64 \<or> \<not> y < (256::nat)"
  "y mod 16 * 4 + z div 64 < 64 \<or> \<not> z < (256::nat)"
  "z mod 64 < (64::nat)"
  "x mod 4 * 16 < (64::nat)" "y mod 16 * 4 < (64::nat)"
proof -
  show "x < 256 \<Longrightarrow> x div 4 < (64::nat)" by simp
  have "x mod 4 < 4" by simp
  then have "x mod 4 \<le> 3" by linarith
  then have m: "x mod 4 * 16 \<le> 48" by simp
  then show "x mod 4 * 16 < (64::nat)" by simp
  { assume "y < 256" then have "y div 16 < 16" by simp
    with m have "x mod 4 * 16 + y div 16 < 64" by linarith }
  then show "x mod 4 * 16 + y div 16 < 64 \<or> \<not> y < (256::nat)" by blast
  have "y mod 16 < 16" by simp
  then have "y mod 16 \<le> 15" by linarith
  then have n: "y mod 16 * 4 \<le> 60" by simp
  then show "y mod 16 * 4 < (64::nat)" by simp
  { assume "z < 256" then have "z div 64 < 4" by simp
    with n have "y mod 16 * 4 + z div 64 < 64" by linarith }
  then show "y mod 16 * 4 + z div 64 < 64 \<or> \<not> z < (256::nat)" by blast
  show "z mod 64 < (64::nat)" by simp
qed


lemma decode_quad:
  assumes "A < 64" and "B < 64" and "C < 64" and "D < 64"
  shows "ref_base64_decode (sextet A # sextet B # sextet C # sextet D # rest) =
           map_option (\<lambda>bs. char_of (A * 4 + B div 16) # char_of ((B mod 16) * 16 + C div 4)
                              # char_of ((C mod 4) * 64 + D) # bs)
             (ref_base64_decode rest)"
  using assms by (simp add: sextet_of_sextet sextet_not_pad)

lemma decode_pad1:
  assumes "A < 64" and "B < 64" and "C < 64"
  shows "ref_base64_decode [sextet A, sextet B, sextet C, CHR ''=''] =
           Some [char_of (A * 4 + B div 16), char_of ((B mod 16) * 16 + C div 4)]"
  using assms by (simp add: sextet_of_sextet sextet_not_pad)

lemma decode_pad2:
  assumes "A < 64" and "B < 64"
  shows "ref_base64_decode [sextet A, sextet B, CHR ''='', CHR ''=''] =
           Some [char_of (A * 4 + B div 16)]"
  using assms by (simp add: sextet_of_sextet)

lemma ref_base64_roundtrip: "ref_base64_decode (base64_EncodeToString d) = Some d"
proof (induction d rule: base64_EncodeToString.induct)
  case (1 a b c rest)
  define x y z where "x = (of_char a :: nat)" and "y = (of_char b :: nat)"
    and "z = (of_char c :: nat)"
  have bx: "x < 256" and by': "y < 256" and bz: "z < 256"
    by (simp_all add: x_def y_def z_def of_char_bound)
  have A: "x div 4 < 64" using bx by simp
  have B: "x mod 4 * 16 + y div 16 < 64" using sextet_bounds(2) [of x y] by' by blast
  have C: "y mod 16 * 4 + z div 64 < 64" using sextet_bounds(3) [of y z] bz by blast
  have D: "z mod 64 < 64" by simp
  have e: "base64_EncodeToString (a # b # c # rest) =
      sextet (x div 4) # sextet (x mod 4 * 16 + y div 16) # sextet (y mod 16 * 4 + z div 64)
      # sextet (z mod 64) # base64_EncodeToString rest"
    by (simp add: Let_def x_def y_def z_def)
  have c1: "char_of (x div 4 * 4 + (x mod 4 * 16 + y div 16) div 16) = a"
    by (simp only: join_hi [OF bx by']) (simp add: x_def)
  have c2: "char_of ((x mod 4 * 16 + y div 16) mod 16 * 16 + (y mod 16 * 4 + z div 64) div 4) = b"
    by (simp only: join_mid [OF by' bz]) (simp add: y_def)
  have c3: "char_of ((y mod 16 * 4 + z div 64) mod 4 * 64 + z mod 64) = c"
    by (simp only: join_lo [OF bz]) (simp add: z_def)
  show ?case
    by (simp only: e decode_quad [OF A B C D] "1.IH" c1 c2 c3 option.map)
next
  case (2 a b)
  define x y where "x = (of_char a :: nat)" and "y = (of_char b :: nat)"
  have bx: "x < 256" and by': "y < 256"
    by (simp_all add: x_def y_def of_char_bound)
  have A: "x div 4 < 64" using bx by simp
  have B: "x mod 4 * 16 + y div 16 < 64" using sextet_bounds(2) [of x y] by' by blast
  have C: "y mod 16 * 4 < 64" by (rule sextet_bounds(6))
  have e: "base64_EncodeToString [a, b] =
      [sextet (x div 4), sextet (x mod 4 * 16 + y div 16), sextet (y mod 16 * 4), CHR ''='']"
    by (simp add: Let_def x_def y_def)
  have c1: "char_of (x div 4 * 4 + (x mod 4 * 16 + y div 16) div 16) = a"
    by (simp only: join_hi [OF bx by']) (simp add: x_def)
  have c2: "char_of ((x mod 4 * 16 + y div 16) mod 16 * 16 + (y mod 16 * 4) div 4) = b"
    by (simp only: join_mid2 [OF by']) (simp add: y_def)
  show ?case by (simp only: e decode_pad1 [OF A B C] c1 c2)
next
  case (3 a)
  define x where "x = (of_char a :: nat)"
  have bx: "x < 256" by (simp add: x_def of_char_bound)
  have A: "x div 4 < 64" using bx by simp
  have B: "x mod 4 * 16 < 64" by (rule sextet_bounds(5))
  have e: "base64_EncodeToString [a] =
      [sextet (x div 4), sextet (x mod 4 * 16), CHR ''='', CHR ''='']"
    by (simp add: Let_def x_def)
  have c1: "char_of (x div 4 * 4 + (x mod 4 * 16) div 16) = a"
    by (simp only: join_hi1 [OF bx]) (simp add: x_def)
  show ?case by (simp only: e decode_pad2 [OF A B] c1)
next
  case 4
  show ?case by simp
qed

subsection \<open>From the table to the backup and back\<close>

lemma those_map_Some: "those (map (\<lambda>x. Some (f x)) xs) = Some (map f xs)"
  by (induction xs) simp_all

lemma unmarshal_entry_marshal:
  "unmarshal_entry X (marshal_value X (GMap m)) = Some (remarshal X m)"
  by (simp add: remarshal_def case_prod_unfold)

lemma json_Unmarshal_Marshal:
  assumes "json_decode X (json_Marshal X es) = Some (marshal_entries X es)"
  shows "json_Unmarshal X (json_Marshal X es) = Inr (map (remarshal X) es)"
proof (cases "es = []")
  case True
  with assms show ?thesis by (simp add: json_Unmarshal_def marshal_entries_def)
next
  case False
  have "those (map (unmarshal_entry X) (map (\<lambda>m. marshal_value X (GMap m)) es)) =
          Some (map (remarshal X) es)"
    using those_map_Some [of "remarshal X" es]
    by (simp only: map_map comp_def unmarshal_entry_marshal)
  with False assms show ?thesis by (simp add: json_Unmarshal_def marshal_entries_def)
qed

lemma export_rows_rows:
  "export_rows X rows = Inr es \<Longrightarrow> list_all2 (\<lambda>r m. export_row X r = Some m) rows es"
proof (induction rows arbitrary: es)
  case Nil
  then show ?case by simp
next
  case (Cons r rows)
  from Cons.prems obtain m ms where m: "export_row X r = Some m"
    and ms: "export_rows X rows = Inr ms" and es: "es = m # ms"
    by (auto split: option.splits sum.splits)
  from Cons.IH [OF ms] m es show ?case by simp
qed

lemma export_row_cells:
  assumes "export_row X r = Some m" and "list_all (\<lambda>k. utf8_coerce X k = k) export_keys"
  shows "\<forall>b. col_password r = SBlob b \<longrightarrow>
           bind (index (remarshal X m) ''password'') = Some (SText (base64_EncodeToString b))"
    and "\<forall>b. col_notes r = SBlob b \<longrightarrow>
           bind (index (remarshal X m) ''notes'') = Some (SText (base64_EncodeToString b))"
    and "col_notes r = SNull \<longrightarrow> bind (index (remarshal X m) ''notes'') = Some SNull"
proof -
  from assms(1) obtain title url username password nts category createdAt updatedAt where
    pw: "scan_bytes X (col_password r) = Some password" and
    no: "scan_bytes X (col_notes r) = Some nts" and
    m: "m = [(''category'', GString category),
             (''created_at'', GString createdAt),
             (''id'', GInt64 (col_id r)),
             (''notes'', GBytes nts),
             (''password'', GBytes password),
             (''title'', GString title),
             (''updated_at'', GString updatedAt),
             (''url'', GString url),
             (''username'', GString username)]"
    by (auto simp: export_row_def split: Option.bind_splits)
  from assms(2) have k: "utf8_coerce X ''category'' = ''category''"
    "utf8_coerce X ''created_at'' = ''created_at''" "utf8_coerce X ''id'' = ''id''"
    "utf8_coerce X ''notes'' = ''notes''" "utf8_coerce X ''password'' = ''password''"
    "utf8_coerce X ''title'' = ''title''" "utf8_coerce X ''updated_at'' = ''updated_at''"
    "utf8_coerce X ''url'' = ''url''" "utf8_coerce X ''username'' = ''username''"
    by (simp_all add: export_keys_def)
  have ip: "index (remarshal X m) ''password'' = unmarshal_value X (marshal_value X (GBytes password))"
    and inn: "index (remarshal X m) ''notes'' = unmarshal_value X (marshal_value X (GBytes nts))"
    by (simp_all add: m remarshal_def index_def k)
  show "\<forall>b. col_password r = SBlob b \<longrightarrow>
           bind (index (remarshal X m) ''password'') = Some (SText (base64_EncodeToString b))"
    using pw by (auto simp: ip)
  show "\<forall>b. col_notes r = SBlob b \<longrightarrow>
           bind (index (remarshal X m) ''notes'') = Some (SText (base64_EncodeToString b))"
    using no by (auto simp: inn)
  show "col_notes r = SNull \<longrightarrow> bind (index (remarshal X m) ''notes'') = Some SNull"
    using no by (auto simp: inn)
qed

lemma data_Some: "data (Some x) = x"
  by (simp add: data_def)

lemma ExportData_ok:
  assumes "db s" and "healthy w"
  shows "SQLiteStorage_ExportData X s w =
           (export_rows X (passwords w), after_io PasswordsSelect w)"
  using assms by (simp add: SQLiteStorage_ExportData_def io_healthy)

lemma os_WriteFile_ok:
  "healthy w \<Longrightarrow>
     os_WriteFile f content w =
       (Inr (), (after_io (FileWrite f) w)\<lparr>files := (files w)(f \<mapsto> content)\<rparr>)"
  by (simp add: os_WriteFile_def io_healthy)

lemma os_ReadFile_ok:
  "healthy w \<Longrightarrow> files w f = Some content \<Longrightarrow>
     os_ReadFile f w = (Inr content, after_io (FileRead f) w)"
  by (simp add: os_ReadFile_def io_healthy)

lemma ExportVault_ok:
  assumes "initialized pm" and "db (storage pm)" and "len (masterKey pm) \<in> {16, 24, 32}"
    and "healthy w" and "\<forall>i<12. rand_src w (rand_pos w + i) \<noteq> None"
    and "export_rows X (passwords w) = Inr es"
  shows "\<exists>n w1. length n = 12 \<and>
           PasswordManager_ExportVault X f (pm, w) = (Inr (), updateLastActivity pm w, w1) \<and>
           files w1 f =
             Some (base64_EncodeToString
                     (n @ gcm_Seal X (data (masterKey pm)) n (json_Marshal X es) [])) \<and>
           healthy w1 \<and> passwords w1 = passwords w \<and>
           sqlite_sequence w1 = sqlite_sequence w \<and> config w1 = config w"
proof -
  let ?k = "masterKey pm"
  define pma where "pma = updateLastActivity pm w"
  have ka: "masterKey pma = ?k" and sa: "storage pma = storage pm"
    by (simp_all add: pma_def updateLastActivity_def)
  define wa where "wa = after_io PasswordsSelect w"
  have ex: "SQLiteStorage_ExportData X (storage pm) w = (Inr es, wa)"
    using ExportData_ok [OF assms(2,4)] assms(6) by (simp add: wa_def)
  have ha: "healthy wa" using assms(4) by (simp add: wa_def)
  have ra: "\<forall>i<12. rand_src wa (rand_pos wa + i) \<noteq> None"
    using assms(5) by (simp add: wa_def)
  from Encrypt_ok [OF assms(3) ra, of X "json_Marshal X es"] obtain n where
    n: "length n = 12" and
    en: "Encrypt X (json_Marshal X es) ?k wa =
           (Inr (Some (n @ gcm_Seal X (data ?k) n (json_Marshal X es) [])),
            wa\<lparr>rand_pos := rand_pos wa + 12\<rparr>)" by blast
  define wb where "wb = wa\<lparr>rand_pos := rand_pos wa + 12\<rparr>"
  have hb: "healthy wb" using ha by (simp add: wb_def)
  define content where
    "content = base64_EncodeToString (n @ gcm_Seal X (data ?k) n (json_Marshal X es) [])"
  define w1 where "w1 = (after_io (FileWrite f) wb)\<lparr>files := (files wb)(f \<mapsto> content)\<rparr>"
  have wr: "os_WriteFile f content wb = (Inr (), w1)"
    unfolding w1_def by (rule os_WriteFile_ok [OF hb])
  have "PasswordManager_ExportVault X f (pm, w) = (Inr (), pma, w1)"
    unfolding PasswordManager_ExportVault_def
    using assms(1) ex en wr
    by (simp add: pma_def [symmetric] ka sa wb_def [symmetric] data_Some
        content_def [symmetric])
  moreover have "files w1 f = Some content" by (simp add: w1_def)
  moreover have "healthy w1" using hb by (simp add: w1_def)
  moreover have "passwords w1 = passwords w" "sqlite_sequence w1 = sqlite_sequence w"
    "config w1 = config w"
    by (simp_all add: w1_def wb_def wa_def)
  ultimately show ?thesis using n unfolding pma_def content_def by blast
qed

lemma ImportVault_reads:
  assumes "aead_correct X"
    and "base64_DecodeString X
           (base64_EncodeToString (n @ gcm_Seal X (data (masterKey pm)) n json [])) =
         Some (n @ gcm_Seal X (data (masterKey pm)) n json [])"
    and "initialized pm" and "len (masterKey pm) \<in> {16, 24, 32}" and "healthy w"
    and "files w f =
           Some (base64_EncodeToString (n @ gcm_Seal X (data (masterKey pm)) n json []))"
    and "length n = 12" and "json_Unmarshal X json = Inr entries"
  shows "PasswordManager_ImportVault X f (pm, w) =
           (case SQLiteStorage_ImportData X (storage pm) entries (after_io (FileRead f) w) of
              (res, w') \<Rightarrow> (res, updateLastActivity pm w, w'))"
proof -
  let ?k = "masterKey pm"
  define pma where "pma = updateLastActivity pm w"
  have ka: "masterKey pma = ?k" and sa: "storage pma = storage pm"
    by (simp_all add: pma_def updateLastActivity_def)
  define content where
    "content = base64_EncodeToString (n @ gcm_Seal X (data ?k) n json [])"
  have rd: "os_ReadFile f w = (Inr content, after_io (FileRead f) w)"
    using os_ReadFile_ok [OF assms(5)] assms(6) by (simp add: content_def)
  have b: "base64_DecodeString X content = Some (n @ gcm_Seal X (data ?k) n json [])"
    using assms(2) by (simp add: content_def)
  have dc: "Decrypt X (Some (n @ gcm_Seal X (data ?k) n json [])) ?k = Inr json"
    by (rule Decrypt_sealed [OF assms(1,4,7)])
  show ?thesis
    unfolding PasswordManager_ImportVault_def
    using assms(3) rd b dc assms(8)
    by (simp add: pma_def [symmetric] ka sa)
qed

lemma ImportData_success:
  assumes "SQLiteStorage_ImportData X s entries w = (Inr u, w')"
  shows "\<exists>new. passwords w' = passwords w @ new \<and> list_all2 (imported_as X) entries new"
proof -
  from assms have d: "db s" by (auto simp: SQLiteStorage_ImportData_def split: if_splits)
  obtain f0 w0 where b: "io TxBegin w = (f0, w0)" by (cases "io TxBegin w")
  from io_tables [OF b] have t0: "passwords w0 = passwords w" by simp
  from assms d b have f0: "\<not> f0" by (cases f0) (simp_all add: SQLiteStorage_ImportData_def)
  obtain f1 w1 where p: "io TxPrepare w0 = (f1, w1)" by (cases "io TxPrepare w0")
  from io_tables [OF p] have t1: "passwords w1 = passwords w0" by simp
  from assms d b f0 p have f1: "\<not> f1"
    by (cases f1) (simp_all add: SQLiteStorage_ImportData_def)
  obtain r2 w2 where i: "import_entries X entries w1 = (r2, w2)"
    by (cases "import_entries X entries w1")
  from assms d b f0 p f1 i obtain v where r2: "r2 = Inr v"
    by (cases r2) (simp_all add: SQLiteStorage_ImportData_def)
  obtain f3 w3 where c: "io TxCommit w2 = (f3, w3)" by (cases "io TxCommit w2")
  from io_tables [OF c] have t3: "passwords w3 = passwords w2" by simp
  from assms d b f0 p f1 i r2 c have f3: "\<not> f3"
    by (cases f3) (simp_all add: SQLiteStorage_ImportData_def)
  from assms d b f0 p f1 i r2 c f3 have w': "w' = w3"
    by (simp add: SQLiteStorage_ImportData_def)
  from import_entries_success [OF i [unfolded r2]] obtain new where
    "passwords w2 = passwords w1 @ new" "list_all2 (imported_as X) entries new" by blast
  with t0 t1 t3 w' show ?thesis by auto
qed

lemma base64_sealed:
  "base64_EncodeToString ''sealed-pw'' = ''c2VhbGVkLXB3''"
  "base64_EncodeToString ''sealed-note'' = ''c2VhbGVkLW5vdGU=''"
  by (simp_all add: sextet_def encodeStd_def Let_def)

lemma export_rows_one: "export_rows ref_ext (passwords world_one_row) = Inr [export1]"
  by (simp add: world_one_row_def row1_def export_row_def ref_ext_def ref_timestamp_def
      export1_def)

lemma marshal_one:
  "marshal_entries ref_ext [export1] =
     JArr [JObj [(''category'', JStr ''web''),
      (''created_at'', JStr ''2024-01-01 00:00:00''), (''id'', JNum ''1''),
      (''notes'', JStr ''c2VhbGVkLW5vdGU=''), (''password'', JStr ''c2VhbGVkLXB3''),
      (''title'', JStr ''mail''), (''updated_at'', JStr ''2024-01-01 00:00:00''),
      (''url'', JStr ''https://mail.example''), (''username'', JStr ''alice'')]]"
  by (simp add: marshal_entries_def export1_def ref_ext_def FormatInt_def digits.simps
      sextet_def encodeStd_def Let_def)

lemma json_one:
  "json_decode ref_ext (json_Marshal ref_ext [export1]) = Some (marshal_entries ref_ext [export1])"
  unfolding json_Marshal_def marshal_one
  by (simp add: ref_ext_def ref_json_decode_def quote_def numchar_def)


lemma remarshal_one:
  "map (remarshal ref_ext) [export1] =
     [[(''category'', GString ''web''),
       (''created_at'', GString ''2024-01-01 00:00:00''), (''id'', GFloat64 0),
       (''notes'', GString ''c2VhbGVkLW5vdGU=''), (''password'', GString ''c2VhbGVkLXB3''),
       (''title'', GString ''mail''), (''updated_at'', GString ''2024-01-01 00:00:00''),
       (''url'', GString ''https://mail.example''), (''username'', GString ''alice'')]]"
  by (simp add: remarshal_def export1_def ref_ext_def sextet_def encodeStd_def Let_def)

lemma ImportData_one:
  assumes "db s" and "healthy w" and "passwords w = [row1]" and "sqlite_sequence w = 1"
  shows "\<exists>w'. SQLiteStorage_ImportData ref_ext s (map (remarshal ref_ext) [export1]) w =
           (Inr (), w')"
  unfolding remarshal_one
  using assms
  by (simp add: SQLiteStorage_ImportData_def io_healthy bind_entry_def index_def
      insert_password_def Let_def next_rowid_def max_rowid_def row1_def value_toobig_def
      SQLITE_MAX_LENGTH_def ref_ext_def)

text \<open>
  Claim C5, as the code has it. \<^verbatim>\<open>ExportData\<close> puts the password and the notes of a row
  into the map as byte slices, \<^verbatim>\<open>json.Marshal\<close> writes a byte slice as a base64 string, and
  \<^verbatim>\<open>json.Unmarshal\<close> into \<^verbatim>\<open>map[string]interface{}\<close> returns that string as a Go string,
  which \<^verbatim>\<open>ImportData\<close> binds as a text. So let the vault be unlocked and no I/O fault
  occur during the export. Then \<^verbatim>\<open>ExportVault\<close> succeeds and leaves the table as it was,
  and whenever \<^verbatim>\<open>ImportVault\<close> of the same file then succeeds, the table is the old one
  followed by one new row per old row, in order, and where the old row holds a blob as
  password or as notes, the new row holds the text of the base64 encoding of that blob,
  not the blob. Only NULL notes stay what they were. The theorem assumes of the libraries
  that \<^verbatim>\<open>Open\<close> inverts \<^verbatim>\<open>Seal\<close>, that the base64 decoder inverts the encoder, that
  the JSON text of the exported document parses to that document, and that the nine keys of
  an exported entry are valid UTF-8.
\<close>

theorem ExportVault_ImportVault_reencodes:
  assumes "aead_correct X"
    and "\<forall>d. base64_DecodeString X (base64_EncodeToString d) = Some d"
    and "list_all (\<lambda>k. utf8_coerce X k = k) export_keys"
    and "export_rows X (passwords w) = Inr es"
    and "json_decode X (json_Marshal X es) = Some (marshal_entries X es)"
    and "initialized pm" and "db (storage pm)" and "len (masterKey pm) \<in> {16, 24, 32}"
    and "healthy w" and "\<forall>i<12. rand_src w (rand_pos w + i) \<noteq> None"
  shows "\<exists>pm1 w1.
           PasswordManager_ExportVault X f (pm, w) = (Inr (), pm1, w1) \<and>
           passwords w1 = passwords w \<and>
           (\<forall>pm2 w2.
              PasswordManager_ImportVault X f (pm1, w1) = (Inr (), pm2, w2) \<longrightarrow>
              (\<exists>new. passwords w2 = passwords w @ new \<and>
                 list_all2
                   (\<lambda>r r'.
                      (\<forall>b. col_password r = SBlob b \<longrightarrow>
                           col_password r' = SText (base64_EncodeToString b)) \<and>
                      (\<forall>b. col_notes r = SBlob b \<longrightarrow>
                           col_notes r' = SText (base64_EncodeToString b)) \<and>
                      (col_notes r = SNull \<longrightarrow> col_notes r' = SNull))
                   (passwords w) new))"
proof -
  let ?k = "masterKey pm"
  let ?R = "\<lambda>r r'.
      (\<forall>b. col_password r = SBlob b \<longrightarrow> col_password r' = SText (base64_EncodeToString b)) \<and>
      (\<forall>b. col_notes r = SBlob b \<longrightarrow> col_notes r' = SText (base64_EncodeToString b)) \<and>
      (col_notes r = SNull \<longrightarrow> col_notes r' = SNull)"
  from ExportVault_ok [OF assms(6,7,8,9,10,4), of f] obtain n w1 where
    n: "length n = 12" and
    ex: "PasswordManager_ExportVault X f (pm, w) = (Inr (), updateLastActivity pm w, w1)" and
    fl: "files w1 f =
           Some (base64_EncodeToString (n @ gcm_Seal X (data ?k) n (json_Marshal X es) []))" and
    h1: "healthy w1" and p1: "passwords w1 = passwords w" by blast
  define pm1 where "pm1 = updateLastActivity pm w"
  have i1: "initialized pm1" and k1: "masterKey pm1 = ?k" and s1: "storage pm1 = storage pm"
    using assms(6) by (simp_all add: pm1_def updateLastActivity_def)
  have kl: "len (masterKey pm1) \<in> {16, 24, 32}" using assms(8) k1 by simp
  have b64: "base64_DecodeString X
           (base64_EncodeToString (n @ gcm_Seal X (data (masterKey pm1)) n (json_Marshal X es) [])) =
         Some (n @ gcm_Seal X (data (masterKey pm1)) n (json_Marshal X es) [])"
    using assms(2) by blast
  have fl1: "files w1 f =
       Some (base64_EncodeToString (n @ gcm_Seal X (data (masterKey pm1)) n (json_Marshal X es) []))"
    using fl k1 by simp
  note um = json_Unmarshal_Marshal [OF assms(5)]
  note imp = ImportVault_reads [OF assms(1) b64 i1 kl h1 fl1 n um]
  have rows: "list_all2 (\<lambda>r m. export_row X r = Some m) (passwords w) es"
    by (rule export_rows_rows [OF assms(4)])
  have main: "\<exists>new. passwords w2 = passwords w @ new \<and> list_all2 ?R (passwords w) new"
    if im: "PasswordManager_ImportVault X f (pm1, w1) = (Inr (), pm2, w2)" for pm2 w2
  proof -
    from im imp have
      "SQLiteStorage_ImportData X (storage pm1) (map (remarshal X) es)
         (after_io (FileRead f) w1) = (Inr (), w2)"
      by (auto split: prod.splits)
    from ImportData_success [OF this] obtain new where
      pw: "passwords w2 = passwords (after_io (FileRead f) w1) @ new" and
      la: "list_all2 (imported_as X) (map (remarshal X) es) new" by blast
    from la have la': "list_all2 (\<lambda>m r'. imported_as X (remarshal X m) r') es new"
      by (simp add: list_all2_map1)
    from rows la' have
      "(list_all2 (\<lambda>r m. export_row X r = Some m) OO
        list_all2 (\<lambda>m r'. imported_as X (remarshal X m) r')) (passwords w) new"
      by (rule relcomppI)
    then have c: "list_all2 ((\<lambda>r m. export_row X r = Some m) OO
        (\<lambda>m r'. imported_as X (remarshal X m) r')) (passwords w) new"
      by (simp only: list.rel_compp)
    have "list_all2 ?R (passwords w) new"
    proof (rule list_all2_mono [OF c])
      fix r r'
      assume "((\<lambda>r m. export_row X r = Some m) OO
        (\<lambda>m r'. imported_as X (remarshal X m) r')) r r'"
      then obtain m where m: "export_row X r = Some m"
        and ia: "imported_as X (remarshal X m) r'" by blast
      from ia have cp: "bind (index (remarshal X m) ''password'') = Some (col_password r')"
        and cn: "bind (index (remarshal X m) ''notes'') = Some (col_notes r')"
        by (simp_all add: imported_as_def)
      from export_row_cells [OF m assms(3)] cp cn
      show "?R r r'" by auto
    qed
    with pw p1 show ?thesis by simp
  qed
  have body: "PasswordManager_ExportVault X f (pm, w) = (Inr (), pm1, w1) \<and>
           passwords w1 = passwords w \<and>
           (\<forall>pm2 w2.
              PasswordManager_ImportVault X f (pm1, w1) = (Inr (), pm2, w2) \<longrightarrow>
              (\<exists>new. passwords w2 = passwords w @ new \<and> list_all2 ?R (passwords w) new))"
    using ex p1 main by (simp add: pm1_def)
  show ?thesis
    by (rule exI [where x = pm1], rule exI [where x = w1]) (rule body)
qed

theorem ExportVault_ImportVault_reencodes_witness:
  "\<exists>pm1 w1 pm2 w2 r2.
     PasswordManager_ExportVault ref_ext ''backup.enc'' (pm_unlocked, world_one_row) =
       (Inr (), pm1, w1) \<and>
     PasswordManager_ImportVault ref_ext ''backup.enc'' (pm1, w1) = (Inr (), pm2, w2) \<and>
     passwords w2 = [row1, r2] \<and>
     col_password row1 = SBlob ''sealed-pw'' \<and> col_password r2 = SText ''c2VhbGVkLXB3'' \<and>
     col_notes row1 = SBlob ''sealed-note'' \<and> col_notes r2 = SText ''c2VhbGVkLW5vdGU=''"
proof -
  have b: "\<forall>d. base64_DecodeString ref_ext (base64_EncodeToString d) = Some d"
    by (simp add: ref_ext_def ref_base64_roundtrip)
  have ks: "list_all (\<lambda>k. utf8_coerce ref_ext k = k) export_keys"
    by (simp add: export_keys_def ref_ext_def)
  have i: "initialized pm_unlocked" and d: "db (storage pm_unlocked)"
    and k: "len (masterKey pm_unlocked) \<in> {16, 24, 32}"
    by (simp_all add: pm_unlocked_def pm0_def len_def)
  have h: "healthy world_one_row" by (simp add: healthy_def world_one_row_def world0_def)
  have r: "\<forall>i<12. rand_src world_one_row (rand_pos world_one_row + i) \<noteq> None"
    by (simp add: world_one_row_def world0_def)
  have p: "passwords world_one_row = [row1]" and q: "sqlite_sequence world_one_row = 1"
    by (simp_all add: world_one_row_def)
  from ExportVault_ImportVault_reencodes [OF ref_aead_correct b ks export_rows_one json_one
      i d k h r, of "''backup.enc''"]
  obtain pm1 w1 where
    ex: "PasswordManager_ExportVault ref_ext ''backup.enc'' (pm_unlocked, world_one_row) =
           (Inr (), pm1, w1)"
    and later: "\<forall>pm2 w2.
        PasswordManager_ImportVault ref_ext ''backup.enc'' (pm1, w1) = (Inr (), pm2, w2) \<longrightarrow>
        (\<exists>new. passwords w2 = passwords world_one_row @ new \<and>
           list_all2
             (\<lambda>r r'.
                (\<forall>b. col_password r = SBlob b \<longrightarrow>
                     col_password r' = SText (base64_EncodeToString b)) \<and>
                (\<forall>b. col_notes r = SBlob b \<longrightarrow>
                     col_notes r' = SText (base64_EncodeToString b)) \<and>
                (col_notes r = SNull \<longrightarrow> col_notes r' = SNull))
             (passwords world_one_row) new)"
    by blast
  from ExportVault_ok [OF i d k h r export_rows_one, of "''backup.enc''"] ex
  obtain n where n: "length n = 12"
    and pm1: "pm1 = updateLastActivity pm_unlocked world_one_row"
    and fl: "files w1 ''backup.enc'' =
           Some (base64_EncodeToString
                   (n @ gcm_Seal ref_ext (data (masterKey pm_unlocked)) n
                          (json_Marshal ref_ext [export1]) []))"
    and h1: "healthy w1" and p1: "passwords w1 = passwords world_one_row"
    and q1: "sqlite_sequence w1 = sqlite_sequence world_one_row"
    by auto
  have i1: "initialized pm1" and d1: "db (storage pm1)"
    and k1: "masterKey pm1 = masterKey pm_unlocked"
    using i d by (simp_all add: pm1 updateLastActivity_def)
  have kl: "len (masterKey pm1) \<in> {16, 24, 32}" using k k1 by simp
  have b64: "base64_DecodeString ref_ext
           (base64_EncodeToString (n @ gcm_Seal ref_ext (data (masterKey pm1)) n
              (json_Marshal ref_ext [export1]) [])) =
         Some (n @ gcm_Seal ref_ext (data (masterKey pm1)) n (json_Marshal ref_ext [export1]) [])"
    using b by blast
  have fl1: "files w1 ''backup.enc'' =
       Some (base64_EncodeToString (n @ gcm_Seal ref_ext (data (masterKey pm1)) n
               (json_Marshal ref_ext [export1]) []))"
    using fl k1 by simp
  note um = json_Unmarshal_Marshal [OF json_one]
  note imp = ImportVault_reads [OF ref_aead_correct b64 i1 kl h1 fl1 n um]
  have hr: "healthy (after_io (FileRead ''backup.enc'') w1)" using h1 by simp
  have pr: "passwords (after_io (FileRead ''backup.enc'') w1) = [row1]"
    "sqlite_sequence (after_io (FileRead ''backup.enc'') w1) = 1"
    using p1 q1 p q by simp_all
  from ImportData_one [OF d1 hr pr] obtain w2 where
    "SQLiteStorage_ImportData ref_ext (storage pm1) (map (remarshal ref_ext) [export1])
       (after_io (FileRead ''backup.enc'') w1) = (Inr (), w2)" by blast
  with imp have im: "PasswordManager_ImportVault ref_ext ''backup.enc'' (pm1, w1) =
      (Inr (), updateLastActivity pm1 w1, w2)" by simp
  with later obtain new where
    pw: "passwords w2 = passwords world_one_row @ new" and
    la: "list_all2
             (\<lambda>r r'.
                (\<forall>b. col_password r = SBlob b \<longrightarrow>
                     col_password r' = SText (base64_EncodeToString b)) \<and>
                (\<forall>b. col_notes r = SBlob b \<longrightarrow>
                     col_notes r' = SText (base64_EncodeToString b)) \<and>
                (col_notes r = SNull \<longrightarrow> col_notes r' = SNull))
             (passwords world_one_row) new" by blast
  from la p obtain r2 where new: "new = [r2]"
    and c2: "\<forall>b. col_password row1 = SBlob b \<longrightarrow>
                     col_password r2 = SText (base64_EncodeToString b)"
    and n2: "\<forall>b. col_notes row1 = SBlob b \<longrightarrow>
                     col_notes r2 = SText (base64_EncodeToString b)"
    by (auto simp: list_all2_Cons1)
  have cr: "col_password row1 = SBlob ''sealed-pw''" "col_notes row1 = SBlob ''sealed-note''"
    by (simp_all add: row1_def)
  from c2 cr(1) have "col_password r2 = SText (base64_EncodeToString ''sealed-pw'')"
    by blast
  then have c2': "col_password r2 = SText ''c2VhbGVkLXB3''"
    by (simp only: base64_sealed)
  from n2 cr(2) have "col_notes r2 = SText (base64_EncodeToString ''sealed-note'')"
    by blast
  then have n2': "col_notes r2 = SText ''c2VhbGVkLW5vdGU=''"
    by (simp only: base64_sealed)
  have pw': "passwords w2 = [row1, r2]" using pw new p by simp
  show ?thesis
    apply (rule exI [where x = pm1], rule exI [where x = w1],
        rule exI [where x = "updateLastActivity pm1 w1"], rule exI [where x = w2],
        rule exI [where x = r2])
    using ex im pw' cr c2' n2' by simp
qed


end
